(* ===== verification/Prelude.thy ===== *)
theory Prelude
  imports Main "HOL-Library.Sublist"
begin

text \<open>
  Shared vocabulary of the development: Python exceptions as values, the result type of
  code that may raise, byte strings, and the generic list facts the component theories use.
  Collections: \<open>res_simps\<close> computes through results, \<open>str_simps\<close> holds the facts about
  string operations, \<open>inv_intros\<close> the preservation lemmas of invariants.
\<close>

named_theorems res_simps "computation through results"
named_theorems str_simps "facts about string operations"
named_theorems inv_intros "preservation of invariants"

section \<open>Results\<close>

text \<open>
  The exceptions the modelled code can raise. \<open>OtherError\<close> carries the text of an
  operating-system error that the code inspects.
\<close>

datatype py_error =
    IndexError
  | KeyError string
  | TypeError
  | ValueError
  | AttributeError
  | AssertionError
  | ReError
  | RecursionError
  | IOError string
  | OSError string

type_synonym 'a res = "py_error + 'a"

text \<open>
  Sequencing. The error side is left open: loops with an early \<open>return\<close> use \<open>stop\<close>, which
  says whether the function raised or returned.
\<close>

datatype stop = Raise py_error | Return

definition bindR :: "'e + 'a \<Rightarrow> ('a \<Rightarrow> 'e + 'b) \<Rightarrow> 'e + 'b" where
  "bindR m f = (case m of Inl e \<Rightarrow> Inl e | Inr x \<Rightarrow> f x)"

lemma bindR_simps [simp, res_simps]:
  "bindR (Inl e) f = Inl e"
  "bindR (Inr x) f = f x"
  by (simp_all add: bindR_def)

lemma bindR_Inr_iff [res_simps]:
  "bindR m f = Inr y \<longleftrightarrow> (\<exists>x. m = Inr x \<and> f x = Inr y)"
  by (cases m) auto

lemma bindR_Inl_iff [res_simps]:
  "bindR m f = Inl e \<longleftrightarrow> m = Inl e \<or> (\<exists>x. m = Inr x \<and> f x = Inl e)"
  by (cases m) auto

lemma bindR_assoc: "bindR (bindR m f) g = bindR m (\<lambda>x. bindR (f x) g)"
  by (cases m) auto

lemma bindR_cong [fundef_cong]:
  assumes "m = m'" and "\<And>x. m' = Inr x \<Longrightarrow> f x = f' x"
  shows "bindR m f = bindR m' f'"
  using assms by (cases m') auto

text \<open>A call that may raise, inside a loop with early returns.\<close>

definition raising :: "'a res \<Rightarrow> stop + 'a" where
  "raising m = (case m of Inl e \<Rightarrow> Inl (Raise e) | Inr x \<Rightarrow> Inr x)"

lemma raising_simps [simp, res_simps]:
  "raising (Inl e) = Inl (Raise e)"
  "raising (Inr x) = Inr x"
  by (simp_all add: raising_def)

lemma raising_Inr_iff [simp, res_simps]: "raising m = Inr x \<longleftrightarrow> m = Inr x"
  by (cases m) auto

text \<open>A dictionary lookup that raises \<open>KeyError\<close>, a list index that raises \<open>IndexError\<close>.\<close>

definition lookupR :: "(string \<rightharpoonup> 'v) \<Rightarrow> string \<Rightarrow> 'v res" where
  "lookupR m k = (case m k of None \<Rightarrow> Inl (KeyError k) | Some v \<Rightarrow> Inr v)"

lemma lookupR_Inr_iff [simp, res_simps]: "lookupR m k = Inr v \<longleftrightarrow> m k = Some v"
  by (auto simp: lookupR_def split: option.splits)

definition indexR :: "'a list \<Rightarrow> nat \<Rightarrow> 'a res" where
  "indexR xs i = (if i < length xs then Inr (xs ! i) else Inl IndexError)"

lemma indexR_Inr_iff [simp, res_simps]:
  "indexR xs i = Inr x \<longleftrightarrow> i < length xs \<and> x = xs ! i"
  by (auto simp: indexR_def)

lemma indexR_0 [simp]: "indexR (x # xs) 0 = Inr x"
  by (simp add: indexR_def)

text \<open>Left folds whose step may raise, as a \<open>for\<close> loop with state does.\<close>

fun foldR :: "('s \<Rightarrow> 'a \<Rightarrow> 'e + 's) \<Rightarrow> 's \<Rightarrow> 'a list \<Rightarrow> 'e + 's" where
  "foldR f s [] = Inr s"
| "foldR f s (x # xs) = bindR (f s x) (\<lambda>s'. foldR f s' xs)"

lemma foldR_append: "foldR f s (xs @ ys) = bindR (foldR f s xs) (\<lambda>s'. foldR f s' ys)"
  by (induction xs arbitrary: s) (auto simp: bindR_assoc)

lemma foldR_invariant:
  assumes "foldR f s xs = Inr s'" and "P s"
    and "\<And>s x s'. P s \<Longrightarrow> x \<in> set xs \<Longrightarrow> f s x = Inr s' \<Longrightarrow> P s'"
  shows "P s'"
  using assms
proof (induction xs arbitrary: s)
  case Nil
  then show ?case by simp
next
  case (Cons x xs)
  from Cons.prems(1) obtain t where t: "f s x = Inr t" "foldR f t xs = Inr s'"
    by (auto simp: bindR_Inr_iff)
  have "P t" by (rule Cons.prems(3) [OF Cons.prems(2) _ t(1)]) simp
  moreover have "P u'" if "P u" "y \<in> set xs" "f u y = Inr u'" for u y u'
    by (rule Cons.prems(3) [OF that(1) _ that(3)]) (simp add: that(2))
  ultimately show ?case by (rule Cons.IH [OF t(2)])
qed

lemma foldR_returns:
  assumes "\<And>s x. P s \<Longrightarrow> x \<in> set xs \<Longrightarrow> \<exists>s'. f s x = Inr s' \<and> P s'" and "P s"
  shows "\<exists>s'. foldR f s xs = Inr s' \<and> P s'"
  using assms
proof (induction xs arbitrary: s)
  case (Cons x xs)
  obtain t where "f s x = Inr t" "P t" using Cons.prems(1) [OF Cons.prems(2), of x] by auto
  then show ?case using Cons.IH [of t] Cons.prems(1) by simp
qed simp

lemma foldR_pure: "(\<And>s x. x \<in> set xs \<Longrightarrow> f s x = Inr (g s x)) \<Longrightarrow> foldR f s xs = Inr (foldl g s xs)"
  by (induction xs arbitrary: s) auto

section \<open>Characters and lines\<close>

abbreviation newline :: char where "newline \<equiv> CHR 0x0A"
abbreviation tab_char :: char where "tab_char \<equiv> CHR 0x09"
abbreviation dquote :: char where "dquote \<equiv> CHR 0x22"
abbreviation squote :: char where "squote \<equiv> CHR 0x27"
abbreviation backslash :: char where "backslash \<equiv> CHR 0x5C"

text \<open>\<open>join_lines\<close> spells a multi-line literal: its lines, with a newline between two.\<close>

fun join_lines :: "string list \<Rightarrow> string" where
  "join_lines [] = []"
| "join_lines [l] = l"
| "join_lines (l # ls) = l @ newline # join_lines ls"

section \<open>Generic list facts\<close>

lemma takeWhile_dropWhile_length: "length (takeWhile P xs) + length (dropWhile P xs) = length xs"
  by (metis length_append takeWhile_dropWhile_id)

lemma prefix_drop_append: "prefix p s \<Longrightarrow> p @ drop (length p) s = s"
  by (metis append_eq_conv_conj prefix_def)

lemma prefix_length_drop_less:
  "prefix p s \<Longrightarrow> p \<noteq> [] \<Longrightarrow> length (drop (length p) s) < length s"
  by (cases s) auto

lemma all_le_Suc: "(\<forall>k \<le> Suc n. P k) \<longleftrightarrow> P 0 \<and> (\<forall>k \<le> n. P (Suc k))"
proof (intro iffI conjI allI impI)
  fix k assume "P 0 \<and> (\<forall>k \<le> n. P (Suc k))" and "k \<le> Suc n"
  then show "P k" by (cases k) auto
qed auto

lemma set_drop_mem: "x \<in> set (drop n xs) \<Longrightarrow> x \<in> set xs"
  by (rule in_set_dropD)

lemma nth_take_drop: "i < length xs \<Longrightarrow> take i xs @ xs ! i # drop (Suc i) xs = xs"
  by (rule id_take_nth_drop [symmetric])

end
