(* ===== verification/Py_String.thy ===== *)
theory Py_String
  imports Prelude
begin

text \<open>
  The string operations of Python that the modelled code calls: \<open>find\<close>, \<open>rfind\<close>,
  \<open>replace\<close>, \<open>split\<close>, \<open>startswith\<close>, \<open>endswith\<close>, \<open>strip\<close> and its variants, \<open>upper\<close>,
  \<open>lower\<close> and slices, on byte strings (\<open>char list\<close>). Case conversion and white space are
  those of the C locale.
\<close>

section \<open>Characters\<close>

definition py_isspace :: "char \<Rightarrow> bool" where
  "py_isspace c \<longleftrightarrow> c \<in> {CHR '' '', CHR 0x09, CHR 0x0A, CHR 0x0B, CHR 0x0C, CHR 0x0D}"

definition in_range :: "char \<Rightarrow> char \<Rightarrow> char \<Rightarrow> bool" where
  "in_range lo hi c \<longleftrightarrow>
     (of_char lo :: nat) \<le> of_char c \<and> (of_char c :: nat) \<le> of_char hi"

definition is_lower :: "char \<Rightarrow> bool" where
  "is_lower c \<longleftrightarrow> in_range (CHR ''a'') (CHR ''z'') c"

definition is_upper :: "char \<Rightarrow> bool" where
  "is_upper c \<longleftrightarrow> in_range (CHR ''A'') (CHR ''Z'') c"

definition is_digit :: "char \<Rightarrow> bool" where
  "is_digit c \<longleftrightarrow> in_range (CHR ''0'') (CHR ''9'') c"

definition is_word :: "char \<Rightarrow> bool" where
  "is_word c \<longleftrightarrow> is_lower c \<or> is_upper c \<or> is_digit c \<or> c = CHR ''_''"

definition upper_char :: "char \<Rightarrow> char" where
  "upper_char c = (if is_lower c then char_of ((of_char c :: nat) - 32) else c)"

definition lower_char :: "char \<Rightarrow> char" where
  "lower_char c = (if is_upper c then char_of ((of_char c :: nat) + 32) else c)"

definition py_upper :: "string \<Rightarrow> string" where
  "py_upper s = map upper_char s"

definition py_lower :: "string \<Rightarrow> string" where
  "py_lower s = map lower_char s"

lemma of_char_upper_char:
  "of_char (upper_char c) = (if is_lower c then (of_char c :: nat) - 32 else of_char c)"
proof (cases "is_lower c")
  case True
  then have "(of_char c :: nat) \<le> 122"
    by (simp add: is_lower_def in_range_def)
  then have "((of_char c :: nat) - 32) mod 256 = (of_char c :: nat) - 32"
    by simp
  with True show ?thesis by (simp add: upper_char_def)
qed (simp add: upper_char_def)

lemma is_upper_upper_char: "is_upper (upper_char c) \<longleftrightarrow> is_lower c \<or> is_upper c"
  by (auto simp: is_upper_def is_lower_def in_range_def of_char_upper_char)

lemma upper_char_not_lower: "\<not> is_lower (upper_char c)"
  by (auto simp: is_lower_def in_range_def of_char_upper_char)

lemma upper_char_idem [simp]: "upper_char (upper_char c) = upper_char c"
  using upper_char_not_lower by (simp add: upper_char_def)

lemma upper_char_eq_iff:
  assumes "\<not> is_upper d" "\<not> is_lower d"
  shows "upper_char c = d \<longleftrightarrow> c = d"
proof
  assume u: "upper_char c = d"
  show "c = d"
  proof (cases "is_lower c")
    case True
    with u assms is_upper_upper_char [of c] show ?thesis by simp
  next
    case False
    with u show ?thesis by (simp add: upper_char_def)
  qed
next
  assume "c = d"
  with assms show "upper_char c = d" by (simp add: upper_char_def)
qed

lemma dollar_upper_char [simp]: "upper_char c = CHR ''$'' \<longleftrightarrow> c = CHR ''$''"
  by (rule upper_char_eq_iff) (simp_all add: is_upper_def is_lower_def in_range_def)

lemma dollar_py_upper [simp]: "CHR ''$'' \<in> set (py_upper s) \<longleftrightarrow> CHR ''$'' \<in> set s"
proof -
  have "CHR ''$'' = upper_char c \<longleftrightarrow> CHR ''$'' = c" for c
    using dollar_upper_char [of c] by (auto simp del: dollar_upper_char)
  then show ?thesis by (simp add: py_upper_def image_iff)
qed

lemma py_upper_idem [simp]: "py_upper (py_upper s) = py_upper s"
  by (simp add: py_upper_def)

lemma py_upper_append [simp]: "py_upper (s @ t) = py_upper s @ py_upper t"
  by (simp add: py_upper_def)

lemma length_py_upper [simp]: "length (py_upper s) = length s"
  by (simp add: py_upper_def)

section \<open>Searching\<close>

text \<open>\<open>find_at sub s i\<close>: the first position of \<open>sub\<close> in \<open>s\<close>, counted from \<open>i\<close>.\<close>

fun find_at :: "string \<Rightarrow> string \<Rightarrow> nat \<Rightarrow> nat option" where
  "find_at sub [] i = (if sub = [] then Some i else None)"
| "find_at sub (c # cs) i =
     (if prefix sub (c # cs) then Some i else find_at sub cs (Suc i))"

definition py_find :: "string \<Rightarrow> string \<Rightarrow> int" where
  "py_find s sub = (case find_at sub s 0 of None \<Rightarrow> -1 | Some i \<Rightarrow> int i)"

definition py_rfind :: "string \<Rightarrow> string \<Rightarrow> int" where
  "py_rfind s sub =
     (case find_at (rev sub) (rev s) 0 of None \<Rightarrow> -1
      | Some i \<Rightarrow> int (length s) - int (length sub) - int i)"

definition py_in :: "string \<Rightarrow> string \<Rightarrow> bool" where
  "py_in sub s \<longleftrightarrow> py_find s sub \<noteq> -1"

definition py_startswith :: "string \<Rightarrow> string \<Rightarrow> bool" where
  "py_startswith s p \<longleftrightarrow> prefix p s"

definition py_endswith :: "string \<Rightarrow> string \<Rightarrow> bool" where
  "py_endswith s p \<longleftrightarrow> prefix (rev p) (rev s)"

lemma find_at_ge: "find_at sub s i = Some j \<Longrightarrow> i \<le> j"
  by (induction sub s i rule: find_at.induct) (auto split: if_splits)

lemma find_at_shift: "find_at sub s i = map_option (\<lambda>j. j + i) (find_at sub s 0)"
proof (induction s arbitrary: i)
  case Nil
  then show ?case by simp
next
  case (Cons c cs)
  show ?case using Cons.IH [of "Suc i"] Cons.IH [of "Suc 0"]
    by (cases "find_at sub cs 0") auto
qed

text \<open>
  \<open>find\<close> is correct: a returned position is a match, no earlier one is, and \<open>None\<close> means
  that the needle is nowhere.
\<close>

lemma find_at_Some:
  "find_at sub s 0 = Some j \<longleftrightarrow>
     j \<le> length s \<and> prefix sub (drop j s) \<and> (\<forall>k<j. \<not> prefix sub (drop k s))"
proof (induction s arbitrary: j)
  case Nil
  then show ?case by auto
next
  case (Cons c cs)
  show ?case
  proof (cases "prefix sub (c # cs)")
    case True
    then show ?thesis by (cases j) (auto dest: spec [of _ 0])
  next
    case False
    then have "find_at sub (c # cs) 0 = Some j \<longleftrightarrow>
        (\<exists>i. j = Suc i \<and> find_at sub cs 0 = Some i)"
      by (auto simp: find_at_shift [of _ _ "Suc 0"])
    with False show ?thesis
      by (cases j) (auto simp: Cons.IH less_Suc_eq_0_disj)
  qed
qed

lemma find_at_None: "find_at sub s 0 = None \<longleftrightarrow> (\<forall>k \<le> length s. \<not> prefix sub (drop k s))"
proof (induction s)
  case Nil
  then show ?case by auto
next
  case (Cons c cs)
  show ?case by (simp add: all_le_Suc Cons.IH find_at_shift [of sub cs "Suc 0"])
qed

lemma find_at_None_sublist: "find_at sub s 0 = None \<longleftrightarrow> \<not> sublist sub s"
proof -
  have "sublist sub s \<longleftrightarrow> (\<exists>k \<le> length s. prefix sub (drop k s))"
  proof
    assume "sublist sub s"
    then obtain p q where "s = p @ sub @ q" by (auto simp: sublist_def)
    then show "\<exists>k \<le> length s. prefix sub (drop k s)"
      by (intro exI [of _ "length p"]) auto
  next
    assume "\<exists>k \<le> length s. prefix sub (drop k s)"
    then obtain k where "prefix sub (drop k s)" by blast
    then have "sublist sub (drop k s)" by (rule prefix_imp_sublist)
    then show "sublist sub s"
      using sublist_order.order_trans [OF _ suffix_imp_sublist [OF suffix_drop]] by blast
  qed
  then show ?thesis by (auto simp: find_at_None)
qed

lemma py_in_iff [str_simps]: "py_in sub s \<longleftrightarrow> sublist sub s"
  using find_at_None_sublist [of sub s] by (auto simp: py_in_def py_find_def split: option.splits)

lemma py_find_none [str_simps]: "py_find s sub = -1 \<longleftrightarrow> \<not> sublist sub s"
  using py_in_iff [of sub s] by (auto simp: py_in_def)

lemma py_find_zero [str_simps]: "py_find s sub = 0 \<longleftrightarrow> prefix sub s"
proof -
  have "py_find s sub = 0 \<longleftrightarrow> find_at sub s 0 = Some 0"
    by (auto simp: py_find_def split: option.splits)
  then show ?thesis by (simp add: find_at_Some)
qed

section \<open>Replacing and splitting\<close>

text \<open>
  \<open>str.replace\<close>: leftmost, non-overlapping occurrences; the empty pattern matches between
  all characters.
\<close>

function py_replace :: "string \<Rightarrow> string \<Rightarrow> string \<Rightarrow> string" where
  "py_replace old new s =
     (if old = [] then concat (map (\<lambda>c. new @ [c]) s) @ new
      else if s = [] then []
      else if prefix old s then new @ py_replace old new (drop (length old) s)
      else hd s # py_replace old new (tl s))"
  by pat_completeness auto
termination
  by (relation "measure (\<lambda>(old, new, s). length s)") (auto simp: prefix_length_drop_less)

declare py_replace.simps [simp del]

lemma py_replace_Nil [simp]: "old \<noteq> [] \<Longrightarrow> py_replace old new [] = []"
  by (simp add: py_replace.simps)

lemma py_replace_match: "old \<noteq> [] \<Longrightarrow> py_replace old new (old @ s) = new @ py_replace old new s"
  by (subst py_replace.simps) auto

lemma py_replace_step:
  "old \<noteq> [] \<Longrightarrow> \<not> prefix old (c # s) \<Longrightarrow> py_replace old new (c # s) = c # py_replace old new s"
  by (subst py_replace.simps) auto

lemma py_replace_absent: "old \<noteq> [] \<Longrightarrow> \<not> sublist old s \<Longrightarrow> py_replace old new s = s"
proof (induction s)
  case Nil
  then show ?case by simp
next
  case (Cons c s)
  then have "\<not> prefix old (c # s)" "\<not> sublist old s"
    by (auto simp: sublist_Cons_right)
  with Cons show ?case by (simp add: py_replace_step)
qed

text \<open>
  \<open>str.split\<close> with a one-character separator, the only form the tools use, and with any
  non-empty separator.
\<close>

fun split_aux :: "string \<Rightarrow> string \<Rightarrow> nat \<Rightarrow> string \<Rightarrow> string list" where
  "split_aux sep acc n [] = [rev acc]"
| "split_aux sep acc (Suc n) (c # cs) = split_aux sep acc n cs"
| "split_aux sep acc 0 (c # cs) =
     (if prefix sep (c # cs) then rev acc # split_aux sep [] (length sep - 1) cs
      else split_aux sep (c # acc) 0 cs)"

definition py_split :: "string \<Rightarrow> string \<Rightarrow> string list" where
  "py_split sep s = split_aux sep [] 0 s"

lemma split_aux_nonempty: "split_aux sep acc n s \<noteq> []"
  by (induction sep acc n s rule: split_aux.induct) auto

lemma py_split_nonempty [simp]: "py_split sep s \<noteq> []"
  by (simp add: py_split_def split_aux_nonempty)

lemma split_aux_absent: "c \<notin> set s \<Longrightarrow> split_aux [c] acc 0 s = [rev acc @ s]"
  by (induction s arbitrary: acc) auto

lemma split_aux_present:
  "c \<notin> set s \<Longrightarrow> split_aux [c] acc 0 (s @ c # t) = (rev acc @ s) # split_aux [c] [] 0 t"
  by (induction s arbitrary: acc) auto

lemma py_split_absent: "c \<notin> set s \<Longrightarrow> py_split [c] s = [s]"
  by (simp add: py_split_def split_aux_absent)

lemma py_split_Cons: "c \<notin> set s \<Longrightarrow> py_split [c] (s @ c # t) = s # py_split [c] t"
  by (simp add: py_split_def split_aux_present)

section \<open>Stripping and slices\<close>

definition py_lstrip :: "string \<Rightarrow> string" where
  "py_lstrip s = dropWhile py_isspace s"

definition py_rstrip :: "string \<Rightarrow> string" where
  "py_rstrip s = rev (dropWhile py_isspace (rev s))"

definition py_strip :: "string \<Rightarrow> string" where
  "py_strip s = py_rstrip (py_lstrip s)"

text \<open>\<open>s[i:j]\<close> with Python's reading of negative bounds.\<close>

definition norm_bound :: "nat \<Rightarrow> int \<Rightarrow> nat" where
  "norm_bound n i = (if i < 0 then nat (int n + i) else min n (nat i))"

definition py_slice :: "'a list \<Rightarrow> int \<Rightarrow> int \<Rightarrow> 'a list" where
  "py_slice s i j =
     (let a = norm_bound (length s) i; b = norm_bound (length s) j in take (b - a) (drop a s))"

definition py_drop :: "'a list \<Rightarrow> int \<Rightarrow> 'a list" where
  "py_drop s i = drop (norm_bound (length s) i) s"

lemma py_slice_nonneg: "0 \<le> i \<Longrightarrow> i \<le> j \<Longrightarrow> py_slice s i j = take (nat j - nat i) (drop (nat i) s)"
  by (auto simp: py_slice_def norm_bound_def Let_def min_def)

lemma py_drop_nonneg: "0 \<le> i \<Longrightarrow> py_drop s i = drop (nat i) s"
  by (auto simp: py_drop_def norm_bound_def min_def)

section \<open>Counting, words, numbers\<close>

text \<open>\<open>s.count(sub)\<close> counts occurrences that do not overlap; \<open>sub\<close> is not empty.\<close>

fun count_aux :: "string \<Rightarrow> nat \<Rightarrow> string \<Rightarrow> nat" where
  "count_aux sub n [] = 0"
| "count_aux sub 0 (c # s) =
     (if prefix sub (c # s) then Suc (count_aux sub (length sub - 1) s) else count_aux sub 0 s)"
| "count_aux sub (Suc n) (c # s) = count_aux sub n s"

definition py_count :: "string \<Rightarrow> string \<Rightarrow> nat" where
  "py_count s sub = count_aux sub 0 s"

lemma py_count_char: "py_count s [c] = length (filter (\<lambda>d. d = c) s)"
proof -
  have "count_aux [c] 0 s = length (filter (\<lambda>d. d = c) s)" by (induction s) auto
  then show ?thesis by (simp add: py_count_def)
qed

lemma py_count_absent: "sub \<noteq> [] \<Longrightarrow> \<not> sublist sub s \<Longrightarrow> py_count s sub = 0"
proof -
  assume "sub \<noteq> []"
  then have "\<not> sublist sub s \<Longrightarrow> count_aux sub 0 s = 0"
    by (induction s) (auto simp: sublist_Cons_right)
  then show "\<not> sublist sub s \<Longrightarrow> py_count s sub = 0" by (simp add: py_count_def)
qed

text \<open>\<open>s.split()\<close>: the maximal runs of characters that are not blank.\<close>

fun words_aux :: "string \<Rightarrow> string \<Rightarrow> string list" where
  "words_aux acc [] = (if acc = [] then [] else [rev acc])"
| "words_aux acc (c # s) =
     (if py_isspace c then (if acc = [] then words_aux [] s else rev acc # words_aux [] s)
      else words_aux (c # acc) s)"

definition py_split_ws :: "string \<Rightarrow> string list" where
  "py_split_ws s = words_aux [] s"

lemma words_aux_nonempty: "w \<in> set (words_aux acc s) \<Longrightarrow> w \<noteq> []"
  by (induction acc s rule: words_aux.induct) (auto split: if_splits)

text \<open>The decimal form of an integer.\<close>

fun nat_digits :: "nat \<Rightarrow> string" where
  "nat_digits n = (if n < 10 then [char_of (48 + n)] else nat_digits (n div 10) @ [char_of (48 + n mod 10)])"

declare nat_digits.simps [simp del]

definition py_str_int :: "int \<Rightarrow> string" where
  "py_str_int i = (if i < 0 then CHR ''-'' # nat_digits (nat (- i)) else nat_digits (nat i))"

text \<open>The order on strings: lexicographic on character codes.\<close>

fun str_less :: "string \<Rightarrow> string \<Rightarrow> bool" where
  "str_less [] t = (t \<noteq> [])"
| "str_less (c # s) [] = False"
| "str_less (c # s) (d # t) =
     ((of_char c :: nat) < of_char d \<or> (c = d \<and> str_less s t))"

lemma str_less_irrefl [simp]: "\<not> str_less s s"
  by (induction s) auto

lemma str_less_trans: "str_less s t \<Longrightarrow> str_less t u \<Longrightarrow> str_less s u"
proof (induction s t arbitrary: u rule: str_less.induct)
  case (3 c s d t)
  then show ?case by (cases u) auto
next
  case (1 t)
  then show ?case by (cases u; cases t) auto
qed auto

lemma str_less_total: "str_less s t \<or> s = t \<or> str_less t s"
proof (induction s t rule: str_less.induct)
  case (3 c s d t)
  have "(of_char c :: nat) = of_char d \<longleftrightarrow> c = d" by (rule of_char_eq_iff)
  then show ?case using 3 by auto
next
  case (1 t)
  then show ?case by (cases t) auto
qed auto

end
