(* ===== verification/Templates.thy ===== *)
theory Templates
  imports Py_String
begin

text \<open>
  The generators of \<open>src/tools\<close> build their output by chains of \<open>str.replace\<close> calls on
  templates with placeholders \<open>$$name$$\<close>. This theory gives such a chain its intended
  reading: a template is a list of literals and holes, and, for a template that passes the
  executable test \<open>tmpl_ok\<close> and for values without a dollar sign, the chain of sequential
  replacements is the simultaneous substitution of the holes.
\<close>

named_theorems tmpl_oks "the templates that pass the test"

section \<open>Templates as literals and holes\<close>

datatype seg = Lit string | Hole string

definition placeholder :: "string \<Rightarrow> string" where
  "placeholder k = ''$$'' @ k @ ''$$''"

fun unparse_seg :: "seg \<Rightarrow> string" where
  "unparse_seg (Lit l) = l"
| "unparse_seg (Hole h) = placeholder h"

definition unparse :: "seg list \<Rightarrow> string" where
  "unparse ss = concat (map unparse_seg ss)"

fun alternate :: "bool \<Rightarrow> string list \<Rightarrow> seg list" where
  "alternate hole [] = []"
| "alternate hole (p # ps) = (if hole then Hole p else Lit p) # alternate (\<not> hole) ps"

definition parse_tmpl :: "string \<Rightarrow> seg list" where
  "parse_tmpl s = alternate False (py_split ''$$'' s)"

lemma unparse_simps [simp]:
  "unparse [] = []"
  "unparse (Lit l # ss) = l @ unparse ss"
  "unparse (Hole h # ss) = placeholder h @ unparse ss"
  by (simp_all add: unparse_def)

section \<open>Well-formed templates\<close>

definition ident_char :: "char \<Rightarrow> bool" where
  "ident_char c \<longleftrightarrow> is_word c"

definition dollar_free :: "string \<Rightarrow> bool" where
  "dollar_free s \<longleftrightarrow> CHR ''$'' \<notin> set s"

definition hole_name :: "string \<Rightarrow> bool" where
  "hole_name h \<longleftrightarrow> h \<noteq> [] \<and> list_all ident_char h"

text \<open>The text up to the next hole, if there is one, has a character no hole name has.\<close>

fun sep_ok :: "seg list \<Rightarrow> bool" where
  "sep_ok [] = True"
| "sep_ok (Lit l # ss) = (list_ex (\<lambda>c. \<not> ident_char c) l \<or> sep_ok ss)"
| "sep_ok (Hole h # ss) = False"

fun wf_segs :: "seg list \<Rightarrow> bool" where
  "wf_segs [] = True"
| "wf_segs (Lit l # ss) = (dollar_free l \<and> wf_segs ss)"
| "wf_segs (Hole h # ss) = (hole_name h \<and> sep_ok ss \<and> wf_segs ss)"

fun holes :: "seg list \<Rightarrow> string set" where
  "holes [] = {}"
| "holes (Lit l # ss) = holes ss"
| "holes (Hole h # ss) = insert h (holes ss)"

text \<open>
  A text that is a well-formed template over the given holes. The test is made line by line
  (\<open>line_ok\<close>): no hole spans two lines, and a newline separates holes.
\<close>

definition tmpl_ok :: "string set \<Rightarrow> string \<Rightarrow> bool" where
  "tmpl_ok ks t \<longleftrightarrow> (\<exists>ss. unparse ss = t \<and> wf_segs ss \<and> holes ss \<subseteq> ks)"

definition line_ok :: "string set \<Rightarrow> string \<Rightarrow> bool" where
  "line_ok ks l \<longleftrightarrow>
     (let ss = parse_tmpl l in unparse ss = l \<and> wf_segs ss \<and> holes ss \<subseteq> ks)"

lemma dollar_not_ident [simp]: "\<not> ident_char (CHR ''$'')"
  by (simp add: ident_char_def is_word_def is_lower_def is_upper_def is_digit_def in_range_def)

lemma dollar_free_simps [simp]:
  "dollar_free []"
  "dollar_free (c # s) \<longleftrightarrow> c \<noteq> CHR ''$'' \<and> dollar_free s"
  "dollar_free (s @ t) \<longleftrightarrow> dollar_free s \<and> dollar_free t"
  by (auto simp: dollar_free_def)

lemma dollar_free_py_upper [simp]: "dollar_free (py_upper s) \<longleftrightarrow> dollar_free s"
  by (simp add: dollar_free_def)

lemma newline_not_ident [simp]: "\<not> ident_char newline"
  by (simp add: ident_char_def is_word_def is_lower_def is_upper_def is_digit_def in_range_def)

lemma unparse_append [simp]: "unparse (ss @ ts) = unparse ss @ unparse ts"
  by (simp add: unparse_def)

lemma sep_ok_line: "sep_ok ss \<Longrightarrow> sep_ok (ss @ Lit [newline] # ts)"
  by (induction ss rule: sep_ok.induct) auto

lemma wf_segs_line: "wf_segs ss \<Longrightarrow> wf_segs ts \<Longrightarrow> wf_segs (ss @ Lit [newline] # ts)"
  by (induction ss rule: wf_segs.induct) (auto simp: sep_ok_line)

lemma holes_append [simp]: "holes (ss @ ts) = holes ss \<union> holes ts"
  by (induction ss rule: holes.induct) auto

lemma tmpl_ok_line: "line_ok ks l \<Longrightarrow> tmpl_ok ks l"
  by (auto simp: line_ok_def tmpl_ok_def Let_def)

lemma tmpl_ok_lines: "list_all (line_ok ks) ls \<Longrightarrow> tmpl_ok ks (join_lines ls)"
proof (induction ls rule: join_lines.induct)
  case 1
  show ?case by (auto simp: tmpl_ok_def intro!: exI [of _ "[]"])
next
  case (2 l)
  then show ?case by (simp add: tmpl_ok_line)
next
  case (3 l l' ls)
  then obtain ss ts where "unparse ss = l" "wf_segs ss" "holes ss \<subseteq> ks"
      "unparse ts = join_lines (l' # ls)" "wf_segs ts" "holes ts \<subseteq> ks"
    by (auto simp: tmpl_ok_def dest!: tmpl_ok_line)
  then show ?case
    by (auto simp: tmpl_ok_def wf_segs_line intro!: exI [of _ "ss @ Lit [newline] # ts"])
qed

lemma hole_name_dollar_free: "hole_name h \<Longrightarrow> dollar_free h"
  by (auto simp: hole_name_def dollar_free_def list_all_iff)

section \<open>One replacement\<close>

fun subst_seg :: "string \<Rightarrow> string \<Rightarrow> seg \<Rightarrow> seg" where
  "subst_seg k v (Lit l) = Lit l"
| "subst_seg k v (Hole h) = (if h = k then Lit v else Hole h)"

definition subst :: "string \<Rightarrow> string \<Rightarrow> seg list \<Rightarrow> seg list" where
  "subst k v ss = map (subst_seg k v) ss"

lemma subst_simps [simp]:
  "subst k v [] = []"
  "subst k v (s # ss) = subst_seg k v s # subst k v ss"
  by (simp_all add: subst_def)

lemma sep_ok_subst: "sep_ok ss \<Longrightarrow> sep_ok (subst k v ss)"
  by (induction ss rule: sep_ok.induct) auto

lemma wf_segs_subst: "wf_segs ss \<Longrightarrow> dollar_free v \<Longrightarrow> wf_segs (subst k v ss)"
  by (induction ss rule: wf_segs.induct) (auto simp: sep_ok_subst)

lemma holes_subst: "holes (subst k v ss) = holes ss - {k}"
  by (induction ss rule: holes.induct) auto

lemma dollar_free_no_holes: "wf_segs ss \<Longrightarrow> holes ss = {} \<Longrightarrow> dollar_free (unparse ss)"
  by (induction ss rule: wf_segs.induct) auto

lemma py_replace_skip:
  "dollar_free l \<Longrightarrow> py_replace (placeholder k) v (l @ u) = l @ py_replace (placeholder k) v u"
  by (induction l) (auto simp: placeholder_def py_replace_step)

lemma unparse_sep:
  "wf_segs ss \<Longrightarrow> sep_ok ss \<Longrightarrow>
     \<exists>l r. unparse ss = l @ r \<and> dollar_free l \<and> (list_ex (\<lambda>c. \<not> ident_char c) l \<or> r = [])"
proof (induction ss rule: sep_ok.induct)
  case 1
  then show ?case by simp
next
  case (2 l ss)
  show ?case
  proof (cases "list_ex (\<lambda>c. \<not> ident_char c) l")
    case True
    with "2.prems" show ?thesis by (intro exI [of _ l] exI [of _ "unparse ss"]) simp
  next
    case False
    with 2 obtain l' r where "unparse ss = l' @ r" "dollar_free l'"
      "list_ex (\<lambda>c. \<not> ident_char c) l' \<or> r = []" by auto
    with "2.prems" show ?thesis by (intro exI [of _ "l @ l'"] exI [of _ r]) auto
  qed
qed simp

text \<open>No occurrence of another placeholder starts at the closing dollars of a hole.\<close>

lemma no_match_at_close:
  assumes "wf_segs ss" "sep_ok ss" "hole_name k"
  shows "\<not> prefix (k @ ''$$'') (unparse ss)"
proof
  assume p: "prefix (k @ ''$$'') (unparse ss)"
  from unparse_sep [OF assms(1,2)] obtain l r where
    u: "unparse ss = l @ r" "dollar_free l" "list_ex (\<lambda>c. \<not> ident_char c) l \<or> r = []"
    by blast
  from p u(1) obtain z where z: "l @ r = k @ ''$$'' @ z" by (auto simp: prefix_def)
  show False
  proof (cases "length l \<le> length k")
    case True
    with z have "prefix l k" by (metis append_eq_append_conv_if prefix_def append_take_drop_id)
    with assms(3) have "list_all ident_char l"
      by (auto simp: hole_name_def list_all_iff dest: set_mono_prefix)
    with u(3) have "r = []" by (auto simp: list_ex_iff list_all_iff)
    with z True show False by auto
  next
    case False
    then have "(l @ r) ! length k \<in> set l" by (simp add: nth_append)
    moreover have "(l @ r) ! length k = CHR ''$''" by (simp add: z nth_append)
    ultimately show False using u(2) by (simp add: dollar_free_def)
  qed
qed

lemma no_dollar_start: "wf_segs ss \<Longrightarrow> sep_ok ss \<Longrightarrow> \<not> prefix ''$'' (unparse ss)"
proof
  assume "wf_segs ss" "sep_ok ss" and p: "prefix ''$'' (unparse ss)"
  then obtain l r where "unparse ss = l @ r" "dollar_free l"
    "list_ex (\<lambda>c. \<not> ident_char c) l \<or> r = []"
    using unparse_sep by blast
  with p show False by (cases l) auto
qed

lemma prefix_dollar_name:
  assumes "dollar_free h" "dollar_free k"
  shows "prefix (k @ ''$$'') (h @ ''$$'' @ u) \<Longrightarrow> h = k"
  using assms
proof (induction k arbitrary: h)
  case Nil
  then show ?case by (cases h) auto
next
  case (Cons c k)
  then show ?case by (cases h) auto
qed

lemma py_replace_other_hole:
  assumes "wf_segs ss" "sep_ok ss" "hole_name h" "hole_name k" "h \<noteq> k"
  shows "py_replace (placeholder k) v (placeholder h @ unparse ss) =
         placeholder h @ py_replace (placeholder k) v (unparse ss)"
proof -
  have df: "dollar_free h" "dollar_free k" using assms(3,4) by (simp_all add: hole_name_dollar_free)
  obtain c h' where h: "h = c # h'" "c \<noteq> CHR ''$''"
    using assms(3) df(1) by (cases h) (auto simp: hole_name_def)
  let ?R = "py_replace (placeholder k) v"
  let ?u = "unparse ss"
  have 1: "\<not> prefix (placeholder k) (CHR ''$'' # CHR ''$'' # h @ ''$$'' @ ?u)"
    using prefix_dollar_name [OF df] assms(5) by (auto simp: placeholder_def)
  have 2: "\<not> prefix (placeholder k) (CHR ''$'' # h @ ''$$'' @ ?u)"
    using h by (auto simp: placeholder_def)
  have 3: "\<not> prefix (placeholder k) (CHR ''$'' # CHR ''$'' # ?u)"
    using no_match_at_close [OF assms(1,2,4)] by (auto simp: placeholder_def)
  have 4: "\<not> prefix (placeholder k) (CHR ''$'' # ?u)"
    using no_dollar_start [OF assms(1,2)] by (cases ?u) (auto simp: placeholder_def)
  have "?R (placeholder h @ ?u) = CHR ''$'' # CHR ''$'' # ?R (h @ ''$$'' @ ?u)"
    using 1 2 by (simp add: placeholder_def py_replace_step)
  also have "?R (h @ ''$$'' @ ?u) = h @ ?R (''$$'' @ ?u)"
    by (rule py_replace_skip [OF df(1)])
  also have "?R (''$$'' @ ?u) = ''$$'' @ ?R ?u"
    using 3 4 by (simp add: placeholder_def py_replace_step)
  finally show ?thesis by (simp add: placeholder_def)
qed

text \<open>A call \<open>t.replace("$$k$$", v)\<close> on the text of a well-formed template.\<close>

lemma py_replace_unparse:
  "wf_segs ss \<Longrightarrow> hole_name k \<Longrightarrow> py_replace (placeholder k) v (unparse ss) = unparse (subst k v ss)"
proof (induction ss rule: wf_segs.induct)
  case 1
  then show ?case by (simp add: placeholder_def)
next
  case (2 l ss)
  then show ?case by (simp add: py_replace_skip)
next
  case (3 h ss)
  show ?case
  proof (cases "h = k")
    case True
    have "placeholder k \<noteq> []" by (simp add: placeholder_def)
    with 3 True show ?thesis by (simp add: py_replace_match)
  next
    case False
    with 3 show ?thesis by (simp add: py_replace_other_hole)
  qed
qed

section \<open>Chains of replacements\<close>

text \<open>
  \<open>replaces t [(k1, v1), \<dots>]\<close> is the chain \<open>t.replace("$$k1$$", v1).replace(\<dots>)\<close>.
\<close>

definition replaces :: "string \<Rightarrow> (string \<times> string) list \<Rightarrow> string" where
  "replaces t kvs = foldl (\<lambda>s (k, v). py_replace (placeholder k) v s) t kvs"

text \<open>The intended result: every hole takes the value of the first pair for its name.\<close>

fun fill :: "(string \<times> string) list \<Rightarrow> seg \<Rightarrow> string" where
  "fill kvs (Lit l) = l"
| "fill kvs (Hole h) = (case map_of kvs h of None \<Rightarrow> placeholder h | Some v \<Rightarrow> v)"

definition render :: "(string \<times> string) list \<Rightarrow> seg list \<Rightarrow> string" where
  "render kvs ss = concat (map (fill kvs) ss)"

definition subst_ok :: "(string \<times> string) list \<Rightarrow> bool" where
  "subst_ok kvs \<longleftrightarrow> (\<forall>(k, v) \<in> set kvs. hole_name k \<and> dollar_free v)"

lemma subst_ok_simps [simp]:
  "subst_ok []"
  "subst_ok ((k, v) # kvs) \<longleftrightarrow> hole_name k \<and> dollar_free v \<and> subst_ok kvs"
  by (auto simp: subst_ok_def)

lemma replaces_simps:
  "replaces t [] = t"
  "replaces t ((k, v) # kvs) = replaces (py_replace (placeholder k) v t) kvs"
  by (simp_all add: replaces_def)

lemma render_subst: "render kvs (subst k v ss) = render ((k, v) # kvs) ss"
proof -
  have "fill kvs (subst_seg k v s) = fill ((k, v) # kvs) s" for s
    by (cases s) auto
  then have "fill kvs \<circ> subst_seg k v = fill ((k, v) # kvs)" by (simp add: fun_eq_iff)
  then show ?thesis by (simp add: render_def subst_def)
qed

lemma render_Nil: "render [] ss = unparse ss"
proof -
  have "fill [] s = unparse_seg s" for s by (cases s) auto
  then have "fill [] = unparse_seg" by (simp add: fun_eq_iff)
  then show ?thesis by (simp add: render_def unparse_def)
qed

lemma replaces_unparse:
  "wf_segs ss \<Longrightarrow> subst_ok kvs \<Longrightarrow> replaces (unparse ss) kvs = render kvs ss"
proof (induction kvs arbitrary: ss)
  case Nil
  then show ?case by (simp add: render_Nil replaces_simps)
next
  case (Cons kv kvs)
  obtain k v where kv: "kv = (k, v)" by (cases kv)
  with Cons.prems have "replaces (unparse ss) (kv # kvs) = replaces (unparse (subst k v ss)) kvs"
    by (simp add: py_replace_unparse replaces_simps)
  also have "\<dots> = render kvs (subst k v ss)"
    using Cons.prems kv by (intro Cons.IH) (auto intro: wf_segs_subst)
  finally show ?case by (simp add: kv render_subst)
qed

lemma render_dollar_free:
  assumes "wf_segs ss" "subst_ok kvs" "holes ss \<subseteq> fst ` set kvs"
  shows "dollar_free (render kvs ss)"
  using assms
proof (induction ss rule: wf_segs.induct)
  case (3 h ss)
  then have "h \<in> fst ` set kvs" by simp
  then obtain v where "map_of kvs h = Some v"
    by (metis map_of_eq_None_iff option.exhaust)
  moreover from this \<open>subst_ok kvs\<close> have "dollar_free v"
    by (auto simp: subst_ok_def dest: map_of_SomeD)
  ultimately show ?case using 3 by (simp add: render_def)
qed (auto simp: render_def)

text \<open>For an accepted template the chain of replacements is the substitution of its holes.\<close>

lemma replaces_render:
  assumes "tmpl_ok ks t"
  shows "\<exists>ss. unparse ss = t \<and> holes ss \<subseteq> ks \<and> (\<forall>kvs. subst_ok kvs \<longrightarrow> replaces t kvs = render kvs ss)"
proof -
  from assms obtain ss where "unparse ss = t" "wf_segs ss" "holes ss \<subseteq> ks"
    by (auto simp: tmpl_ok_def)
  then show ?thesis by (auto intro!: exI [of _ ss] replaces_unparse)
qed

lemma replaces_dollar_free:
  assumes "tmpl_ok ks t" "ks \<subseteq> fst ` set kvs" "subst_ok kvs"
  shows "dollar_free (replaces t kvs)"
proof -
  from assms(1) obtain ss where ss: "unparse ss = t" "wf_segs ss" "holes ss \<subseteq> ks"
    by (auto simp: tmpl_ok_def)
  from render_dollar_free [OF ss(2) assms(3)] ss(3) assms(2) have "dollar_free (render kvs ss)"
    by blast
  with replaces_unparse [OF ss(2) assms(3)] ss(1) show ?thesis by simp
qed

end
