(* ===== verification/Bin_Templates.thy ===== *)
theory Bin_Templates
  imports Templates
begin

text \<open>
  The templates of \<open>src/tools/proto2bin.py\<close>, as the file has them, and the test that each is
  a well-formed template over the holes listed.
\<close>

section \<open>Templates of the binary codec generator\<close>

definition h_begin_bin :: string where
  \<open>h_begin_bin = join_lines
    [[],
     ''#ifndef $$macro$$'',
     ''#define $$macro$$'',
     ''#include "yarf/net/bin_packer.h"'',
     []]\<close>

definition h_include_bin :: string where
  \<open>h_include_bin = join_lines
    [[],
     ''#include "$$file_pre$$_binpack.h"'',
     []]\<close>

definition h_ns_begin_bin :: string where
  \<open>h_ns_begin_bin = join_lines
    [[],
     ''namespace $$ns$$'',
     ''{'',
     []]\<close>

definition h_class_begin_bin :: string where
  \<open>h_class_begin_bin = join_lines
    [[],
     ''struct $$class_name$$ {'']\<close>

definition h_single_field_bin :: string where
  \<open>h_single_field_bin = join_lines
    [[],
     ''  // field $$field$$'',
     ''  $$field_type$$ $$field$$;'',
     []]\<close>

definition h_string_field_bin :: string where
  \<open>h_string_field_bin = join_lines
    [[],
     ''  // field $$field$$'',
     ''  static const uint32_t MAX_$$field_upper$$_SIZE = $$max$$;'',
     ''  char $$field$$[MAX_$$field_upper$$_SIZE + 1];'',
     ''  uint32_t $$field$$_size;'',
     ''  bool set_$$field$$(const char* input) {'',
     ''    if (nullptr == input ) { return false; }'',
     ''    uint32_t unreachable_len = MAX_$$field_upper$$_SIZE + 1;'',
     ''    uint32_t cur_len = strnlen(input, unreachable_len);'',
     ''    if ( cur_len >= unreachable_len) { return false;}'',
     ''    strncpy(this->$$field$$, input, cur_len);'',
     ''    this->$$field$$_size = cur_len;'',
     ''    this->$$field$$[cur_len] = '0';'',
     ''    return true;'',
     ''  }'',
     ''  bool set_$$field$$(const char* input, uint32_t len) {'',
     ''    if (nullptr == input ) { return false; }'',
     ''    if ( len >=  MAX_$$field_upper$$_SIZE + 1 ) { return false; }'',
     ''    strncpy(this->$$field$$, input, len);'',
     ''    this->$$field$$_size = len;'',
     ''    this->$$field$$[len] = '0';'',
     ''    return true;'',
     ''  }'',
     []]\<close>

definition h_vec_field_bin :: string where
  \<open>h_vec_field_bin = join_lines
    [[],
     ''  // field $$field$$'',
     ''  static const uint32_t MAX_$$field_upper$$_SIZE = $$max$$;'',
     ''  $$field_type$$ $$field$$[MAX_$$field_upper$$_SIZE];'',
     ''  uint32_t $$field$$_size;'',
     ''  // field $$field$$ opt func'',
     ''  $$field_type$$* Add$$field_first_up$$() {'',
     ''    if ($$field$$_size >= MAX_$$field_upper$$_SIZE) {'',
     ''        return nullptr;'',
     ''    }'',
     ''    $$field$$_size++;'',
     ''    return &($$field$$[$$field$$_size-1]);'',
     ''  }'',
     ''  bool Add$$field_first_up$$(const $$field_type$$& input) {'',
     ''    if ($$field$$_size >= MAX_$$field_upper$$_SIZE) {'',
     ''        return false;'',
     ''    }'',
     ''    $$field$$[$$field$$_size] = input;'',
     ''    $$field$$_size++;'',
     ''    return true;'',
     ''  }'',
     []]\<close>

definition h_class_end_bin :: string where
  \<open>h_class_end_bin = join_lines
    [[],
     ''  // encode & decode'',
     ''  bool Encode(char* data, int& len) const;'',
     ''  bool Decode(const char* data, int len);'',
     ''};'',
     []]\<close>

definition h_end_bin :: string where
  \<open>h_end_bin = join_lines
    [[],
     [],
     ''} // namespace $$ns$$'',
     [],
     ''#endif  // $$macro$$'',
     []]\<close>

definition cc_begin_bin :: string where
  \<open>cc_begin_bin = join_lines
    [''#include "$$file_pre$$_binpack.h"'',
     []]\<close>

definition cc_encode_begin_bin :: string where
  \<open>cc_encode_begin_bin = join_lines
    [[],
     ''bool $$ns$$::$$class_name$$::Encode(char* data, int& len) const {'',
     ''  if (nullptr == data) {'',
     ''    return false;'',
     ''  }'',
     ''  yarf::net::BinEncoder packer(data, len);'',
     []]\<close>

definition cc_encode_simple_field_bin :: string where
  \<open>cc_encode_simple_field_bin = join_lines
    [[],
     ''  if (!packer.Write($$field$$)) {return false;}'',
     []]\<close>

definition cc_encode_struct_field_bin :: string where
  \<open>cc_encode_struct_field_bin = join_lines
    [[],
     ''  while (true) {'',
     ''    int sub_pos = packer.WritePos() + sizeof(uint32_t);'',
     ''    int sub_len = len - sub_pos;'',
     ''    if ( !$$field$$.Encode( data + sub_pos, sub_len)) {'',
     ''    	return false;'',
     ''    }'',
     ''    if (! packer.Write(static_cast<uint32_t>(sub_len)) ) {return false;}'',
     ''    if (! packer.SkipWritePos(sub_len) ) {return false;}'',
     ''    break;'',
     ''  }'',
     []]\<close>

definition cc_encode_string_field_bin :: string where
  \<open>cc_encode_string_field_bin = join_lines
    [[],
     ''  if ( $$field$$_size > MAX_$$field_upper$$_SIZE ) {'',
     ''      return false;'',
     ''  }'',
     ''  if (! packer.Write(static_cast<uint32_t>($$field$$_size)) ) {return false;}'',
     ''  if (! packer.Write($$field$$, $$field$$_size)) {return false;}'',
     []]\<close>

definition cc_encode_simple_vec_field_bin :: string where
  \<open>cc_encode_simple_vec_field_bin = join_lines
    [[],
     ''  if ( $$field$$_size > MAX_$$field_upper$$_SIZE ) {'',
     ''      return false;'',
     ''  }'',
     ''  if (! packer.Write($$field$$_size) ) {return false;}'',
     ''  for (uint32_t idx = 0; idx < this->$$field$$_size; ++idx) {'',
     ''    if (!packer.Write($$field$$[idx])) {return false;}'',
     ''  }'',
     []]\<close>

definition cc_encode_struct_vec_field_bin :: string where
  \<open>cc_encode_struct_vec_field_bin = join_lines
    [[],
     ''  if ( $$field$$_size > MAX_$$field_upper$$_SIZE ) {'',
     ''      return false;'',
     ''  }'',
     ''  if (! packer.Write($$field$$_size) ) {return false;}'',
     ''  for (uint32_t idx = 0; idx < this->$$field$$_size; ++idx) {'',
     ''    int sub_pos = packer.WritePos() + sizeof(uint32_t);'',
     ''    int sub_len = len - sub_pos;'',
     ''    if ( !$$field$$[idx].Encode( data + sub_pos, sub_len)) {'',
     ''    	return false;'',
     ''    }'',
     ''    if (! packer.Write(static_cast<uint32_t>(sub_len)) ) {return false;}'',
     ''    if (! packer.SkipWritePos(sub_len) ) {return false;}'',
     ''    break;'',
     ''  }'',
     []]\<close>

definition cc_encode_end_bin :: string where
  \<open>cc_encode_end_bin = join_lines
    [''   '',
     ''  len = packer.WritePos();'',
     ''  return true;'',
     ''}'',
     []]\<close>

definition cc_decode_begin_bin :: string where
  \<open>cc_decode_begin_bin = join_lines
    [[],
     ''bool $$ns$$::$$class_name$$::Decode(const char* data, int len) {'',
     ''  if (nullptr == data) {'',
     ''    return false;'',
     ''  }'',
     ''  yarf::net::BinDecoder packer(data, len);'',
     []]\<close>

definition cc_decode_simple_field_bin :: string where
  \<open>cc_decode_simple_field_bin = join_lines
    [[],
     ''  if (!packer.Read($$field$$)) {return false;}'',
     []]\<close>

definition cc_decode_struct_field_bin :: string where
  \<open>cc_decode_struct_field_bin = join_lines
    [[],
     ''  while (true) {'',
     ''    uint32_t sub_len = 0;'',
     ''    if (!packer.Read(sub_len)) {return false;}'',
     ''  	if (!$$field$$.Decode(data + packer.ReadPos(), sub_len) ) {return false;}'',
     ''    if (!packer.SkipReadPos(sub_len)) {return false;}'',
     ''    break;'',
     ''  }'',
     []]\<close>

definition cc_decode_string_field_bin :: string where
  \<open>cc_decode_string_field_bin = join_lines
    [[],
     ''  if (! packer.Read($$field$$_size) ) {return false;}'',
     ''  if (! packer.Read(&($$field$$), $$field$$_size)) {return false;}'',
     []]\<close>

definition cc_decode_simple_vec_field_bin :: string where
  \<open>cc_decode_simple_vec_field_bin = join_lines
    [[],
     ''  if (!packer.Read($$field$$_size)) {return false;}'',
     ''  if ( $$field$$_size  > MAX_$$field_upper$$_SIZE ) {'',
     ''      return false;'',
     ''  }'',
     ''  for (uint32_t idx = 0; idx < $$field$$_size; ++idx) {'',
     ''    if (!packer.Read($$field$$[idx])) {return false;}'',
     ''  }'',
     []]\<close>

definition cc_decode_struct_vec_field_bin :: string where
  \<open>cc_decode_struct_vec_field_bin = join_lines
    [[],
     ''  if (!packer.Read($$field$$_size)) {return false;}'',
     ''  if ( $$field$$_size  > MAX_$$field_upper$$_SIZE ) {'',
     ''      return false;'',
     ''  }'',
     ''  for (uint32_t idx = 0; idx < $$field$$_size; ++idx) {'',
     ''    uint32_t sub_len = 0;'',
     ''    if (!packer.Read(sub_len)) {return false;}'',
     ''  	if (!$$field$$[idx].Decode(data + packer.ReadPos(), sub_len) ) {return false;}'',
     ''    if (!packer.SkipReadPos(sub_len)) {return false;}'',
     ''  }'',
     []]\<close>

definition code_decode_end_bin :: string where
  \<open>code_decode_end_bin = join_lines
    [[],
     ''  return true;'',
     ''}'',
     []]\<close>

section \<open>Their holes\<close>

lemma h_begin_bin_ok [tmpl_oks]: "tmpl_ok {''macro''} h_begin_bin"
  unfolding h_begin_bin_def by (rule tmpl_ok_lines) code_simp

lemma h_include_bin_ok [tmpl_oks]: "tmpl_ok {''file_pre''} h_include_bin"
  unfolding h_include_bin_def by (rule tmpl_ok_lines) code_simp

lemma h_ns_begin_bin_ok [tmpl_oks]: "tmpl_ok {''ns''} h_ns_begin_bin"
  unfolding h_ns_begin_bin_def by (rule tmpl_ok_lines) code_simp

lemma h_class_begin_bin_ok [tmpl_oks]: "tmpl_ok {''class_name''} h_class_begin_bin"
  unfolding h_class_begin_bin_def by (rule tmpl_ok_lines) code_simp

lemma h_single_field_bin_ok [tmpl_oks]: "tmpl_ok {''field'', ''field_type''} h_single_field_bin"
  unfolding h_single_field_bin_def by (rule tmpl_ok_lines) code_simp

lemma h_string_field_bin_ok [tmpl_oks]: "tmpl_ok {''field'', ''field_upper'', ''max''} h_string_field_bin"
  unfolding h_string_field_bin_def by (rule tmpl_ok_lines) code_simp

lemma h_vec_field_bin_ok [tmpl_oks]: "tmpl_ok {''field'', ''field_upper'', ''max'', ''field_type'', ''field_first_up''} h_vec_field_bin"
  unfolding h_vec_field_bin_def by (rule tmpl_ok_lines) code_simp

lemma h_class_end_bin_ok [tmpl_oks]: "tmpl_ok {} h_class_end_bin"
  unfolding h_class_end_bin_def by (rule tmpl_ok_lines) code_simp

lemma h_end_bin_ok [tmpl_oks]: "tmpl_ok {''ns'', ''macro''} h_end_bin"
  unfolding h_end_bin_def by (rule tmpl_ok_lines) code_simp

lemma cc_begin_bin_ok [tmpl_oks]: "tmpl_ok {''file_pre''} cc_begin_bin"
  unfolding cc_begin_bin_def by (rule tmpl_ok_lines) code_simp

lemma cc_encode_begin_bin_ok [tmpl_oks]: "tmpl_ok {''ns'', ''class_name''} cc_encode_begin_bin"
  unfolding cc_encode_begin_bin_def by (rule tmpl_ok_lines) code_simp

lemma cc_encode_simple_field_bin_ok [tmpl_oks]: "tmpl_ok {''field''} cc_encode_simple_field_bin"
  unfolding cc_encode_simple_field_bin_def by (rule tmpl_ok_lines) code_simp

lemma cc_encode_struct_field_bin_ok [tmpl_oks]: "tmpl_ok {''field''} cc_encode_struct_field_bin"
  unfolding cc_encode_struct_field_bin_def by (rule tmpl_ok_lines) code_simp

lemma cc_encode_string_field_bin_ok [tmpl_oks]: "tmpl_ok {''field'', ''field_upper''} cc_encode_string_field_bin"
  unfolding cc_encode_string_field_bin_def by (rule tmpl_ok_lines) code_simp

lemma cc_encode_simple_vec_field_bin_ok [tmpl_oks]: "tmpl_ok {''field'', ''field_upper''} cc_encode_simple_vec_field_bin"
  unfolding cc_encode_simple_vec_field_bin_def by (rule tmpl_ok_lines) code_simp

lemma cc_encode_struct_vec_field_bin_ok [tmpl_oks]: "tmpl_ok {''field'', ''field_upper''} cc_encode_struct_vec_field_bin"
  unfolding cc_encode_struct_vec_field_bin_def by (rule tmpl_ok_lines) code_simp

lemma cc_encode_end_bin_ok [tmpl_oks]: "tmpl_ok {} cc_encode_end_bin"
  unfolding cc_encode_end_bin_def by (rule tmpl_ok_lines) code_simp

lemma cc_decode_begin_bin_ok [tmpl_oks]: "tmpl_ok {''ns'', ''class_name''} cc_decode_begin_bin"
  unfolding cc_decode_begin_bin_def by (rule tmpl_ok_lines) code_simp

lemma cc_decode_simple_field_bin_ok [tmpl_oks]: "tmpl_ok {''field''} cc_decode_simple_field_bin"
  unfolding cc_decode_simple_field_bin_def by (rule tmpl_ok_lines) code_simp

lemma cc_decode_struct_field_bin_ok [tmpl_oks]: "tmpl_ok {''field''} cc_decode_struct_field_bin"
  unfolding cc_decode_struct_field_bin_def by (rule tmpl_ok_lines) code_simp

lemma cc_decode_string_field_bin_ok [tmpl_oks]: "tmpl_ok {''field''} cc_decode_string_field_bin"
  unfolding cc_decode_string_field_bin_def by (rule tmpl_ok_lines) code_simp

lemma cc_decode_simple_vec_field_bin_ok [tmpl_oks]: "tmpl_ok {''field'', ''field_upper''} cc_decode_simple_vec_field_bin"
  unfolding cc_decode_simple_vec_field_bin_def by (rule tmpl_ok_lines) code_simp

lemma cc_decode_struct_vec_field_bin_ok [tmpl_oks]: "tmpl_ok {''field'', ''field_upper''} cc_decode_struct_vec_field_bin"
  unfolding cc_decode_struct_vec_field_bin_def by (rule tmpl_ok_lines) code_simp

lemma code_decode_end_bin_ok [tmpl_oks]: "tmpl_ok {} code_decode_end_bin"
  unfolding code_decode_end_bin_def by (rule tmpl_ok_lines) code_simp

end
