(* ===== verification/Yarf_Util.thy ===== *)
theory Yarf_Util
  imports Py_String
begin

text \<open>
  \<open>src/tools/yarf_util.py\<close>: the platform tests, the conversion of a field name to the
  capitalised form used in generated method names, and \<open>mkdir_wrapper\<close>, over a small model
  of the file system calls the tools make.
\<close>

section \<open>Platform tests\<close>

text \<open>The argument is the value of \<open>platform.platform()\<close>.\<close>

definition islinux :: "string \<Rightarrow> int" where
  "islinux a = (if 1 = py_find a ''inux'' then 1 else 0)"

definition iswin :: "string \<Rightarrow> int" where
  "iswin a = (if 1 = py_find a ''indows'' then 1 else 0)"

section \<open>first2upper\<close>

text \<open>The loop of \<open>first2upper\<close>: state \<open>head\<close>, result so far \<open>ret\<close>.\<close>

fun first2upper_loop :: "bool \<Rightarrow> string \<Rightarrow> string \<Rightarrow> string" where
  "first2upper_loop head ret [] = ret"
| "first2upper_loop head ret (ch # str) =
     (if ch = CHR ''_'' then first2upper_loop True ret str
      else if head then first2upper_loop False (ret @ [upper_char ch]) str
      else first2upper_loop head (ret @ [ch]) str)"

definition first2upper :: "string \<Rightarrow> string" where
  "first2upper str = first2upper_loop True [] str"

text \<open>What it is meant to compute: the words between underscores, each capitalised, joined.\<close>

fun capitalise :: "string \<Rightarrow> string" where
  "capitalise [] = []"
| "capitalise (c # cs) = upper_char c # cs"

lemma first2upper_loop_ret: "first2upper_loop h ret s = ret @ first2upper_loop h [] s"
proof (induction s arbitrary: h ret)
  case (Cons c s)
  show ?case
    using Cons.IH [of False "ret @ [upper_char c]"] Cons.IH [of False "[upper_char c]"]
      Cons.IH [of False "ret @ [c]"] Cons.IH [of False "[c]"] Cons.IH [of True ret]
    by (cases h) simp_all
qed simp

lemma split_first2upper:
  "concat (map capitalise (split_aux ''_'' [] 0 s)) = first2upper_loop True [] s"
  "acc \<noteq> [] \<Longrightarrow> concat (map capitalise (split_aux ''_'' acc 0 s)) =
     capitalise (rev acc) @ first2upper_loop False [] s"
proof (induction s arbitrary: acc)
  case Nil
  {
    case 1
    then show ?case by simp
  next
    case 2
    then show ?case by simp
  }
next
  case (Cons c s)
  have cap: "capitalise (rev acc @ [c]) = capitalise (rev acc) @ [c]" if "acc \<noteq> []" for acc
    using that by (cases "rev acc") auto
  {
    case 1
    show ?case
      using Cons.IH(1) Cons.IH(2) [of "[c]"] first2upper_loop_ret [of False "[upper_char c]" s]
      by simp
  next
    case 2
    then show ?case
      using Cons.IH(1) Cons.IH(2) [of "c # acc"] first2upper_loop_ret [of False "[c]" s]
      by (simp add: cap)
  }
qed

lemma underscore_upper_char [simp]: "upper_char c = CHR ''_'' \<longleftrightarrow> c = CHR ''_''"
  by (rule upper_char_eq_iff) (simp_all add: is_upper_def is_lower_def in_range_def)

lemma first2upper_loop_no_underscore:
  "CHR ''_'' \<notin> set ret \<Longrightarrow> CHR ''_'' \<notin> set (first2upper_loop h ret s)"
proof (induction h ret s rule: first2upper_loop.induct)
  case (2 head ret ch str)
  have "CHR ''_'' = upper_char ch \<longleftrightarrow> CHR ''_'' = ch"
    using underscore_upper_char [of ch] by (auto simp del: underscore_upper_char)
  with 2 show ?case by simp
qed simp

lemma first2upper_loop_capitalise: "CHR ''_'' \<notin> set s \<Longrightarrow> first2upper_loop True [] s = capitalise s"
proof (cases s)
  case (Cons c cs)
  moreover assume "CHR ''_'' \<notin> set s"
  moreover have "CHR ''_'' \<notin> set cs \<Longrightarrow> first2upper_loop False r cs = r @ cs" for r cs
    by (induction cs arbitrary: r) auto
  ultimately show ?thesis by auto
qed simp

lemma capitalise_first2upper_loop: "capitalise (first2upper_loop True [] s) = first2upper_loop True [] s"
proof (induction s)
  case (Cons c s)
  then show ?case
    using first2upper_loop_ret [of False "[upper_char c]" s] by simp
qed simp

text \<open>
  \<open>first2upper\<close> is the join of the underscore-separated words of its argument with each
  word capitalised; the result has no underscore, and applying it again changes nothing.
\<close>

theorem first2upper_words:
  "first2upper s = concat (map capitalise (py_split ''_'' s)) \<and>
   CHR ''_'' \<notin> set (first2upper s) \<and>
   first2upper (first2upper s) = first2upper s"
proof (intro conjI)
  show "first2upper s = concat (map capitalise (py_split ''_'' s))"
    by (simp add: first2upper_def py_split_def split_first2upper(1))
  show nu: "CHR ''_'' \<notin> set (first2upper s)"
    by (simp add: first2upper_def first2upper_loop_no_underscore)
  have "first2upper (first2upper s) = capitalise (first2upper s)"
    using nu by (simp add: first2upper_def first2upper_loop_capitalise)
  then show "first2upper (first2upper s) = first2upper s"
    by (simp add: first2upper_def capitalise_first2upper_loop)
qed

section \<open>The file system the tools write to\<close>

text \<open>
  Directories and files by path; \<open>fs_deny\<close> gives the error text with which the operating
  system refuses to create or open a path, where it does.
\<close>

record fs =
  fs_dirs :: "string set"
  fs_files :: "string \<rightharpoonup> string"
  fs_deny :: "string \<rightharpoonup> string"

definition path_exists :: "fs \<Rightarrow> string \<Rightarrow> bool" where
  "path_exists f p \<longleftrightarrow> p \<in> fs_dirs f \<or> fs_files f p \<noteq> None"

text \<open>
  \<open>open(p, 'w')\<close> truncates or creates the file; \<open>file_write\<close> appends, as \<open>write\<close> on the
  open file does; \<open>open_r\<close> is \<open>open(p)\<close> and gives the text.
\<close>

definition open_w :: "fs \<Rightarrow> string \<Rightarrow> fs res" where
  "open_w f p =
     (case fs_deny f p of
        Some e \<Rightarrow> Inl (IOError e)
      | None \<Rightarrow> if p \<in> fs_dirs f then Inl (IOError ''[Errno 21] Is a directory'')
                else Inr (f\<lparr>fs_files := (fs_files f)(p \<mapsto> [])\<rparr>))"

definition file_write :: "fs \<Rightarrow> string \<Rightarrow> string \<Rightarrow> fs" where
  "file_write f p s =
     f\<lparr>fs_files := (fs_files f)(p \<mapsto> (case fs_files f p of None \<Rightarrow> s | Some t \<Rightarrow> t @ s))\<rparr>"

definition open_r :: "fs \<Rightarrow> string \<Rightarrow> string res" where
  "open_r f p =
     (case fs_files f p of
        None \<Rightarrow> Inl (IOError ''[Errno 2] No such file or directory'')
      | Some t \<Rightarrow> Inr t)"

text \<open>The lines \<open>readline\<close> returns, each with its newline, the last one perhaps without.\<close>

fun readlines_aux :: "string \<Rightarrow> string \<Rightarrow> string list" where
  "readlines_aux acc [] = (if acc = [] then [] else [rev acc])"
| "readlines_aux acc (c # cs) =
     (if c = newline then rev (c # acc) # readlines_aux [] cs else readlines_aux (c # acc) cs)"

definition readlines :: "string \<Rightarrow> string list" where
  "readlines s = readlines_aux [] s"

lemma readlines_aux_concat: "concat (readlines_aux acc s) = rev acc @ s"
  by (induction acc s rule: readlines_aux.induct) auto

lemma readlines_concat: "concat (readlines s) = s"
  by (simp add: readlines_def readlines_aux_concat)

lemma readlines_aux_nonempty: "[] \<notin> set (readlines_aux acc s)"
  by (induction acc s rule: readlines_aux.induct) auto

text \<open>\<open>str(err)\<close> of the \<open>OSError\<close> for an existing path.\<close>

definition eexist_text :: "string \<Rightarrow> string" where
  "eexist_text p = ''[Errno 17] File exists: '' @ [squote] @ p @ [squote]"

definition os_mkdir :: "fs \<Rightarrow> string \<Rightarrow> fs res" where
  "os_mkdir f p =
     (case fs_deny f p of
        Some e \<Rightarrow> Inl (OSError e)
      | None \<Rightarrow> if path_exists f p then Inl (OSError (eexist_text p))
                else Inr (f\<lparr>fs_dirs := insert p (fs_dirs f)\<rparr>))"

definition mkdir_wrapper :: "fs \<Rightarrow> string \<Rightarrow> fs res" where
  "mkdir_wrapper f dir =
     (case os_mkdir f dir of
        Inr f' \<Rightarrow> Inr f'
      | Inl (OSError err) \<Rightarrow>
          if py_find err ''Errno 17] File exis'' = -1 then Inl (OSError err) else Inr f
      | Inl e \<Rightarrow> Inl e)"

lemma eexist_text_found: "sublist ''Errno 17] File exis'' (eexist_text p)"
  unfolding sublist_def eexist_text_def
  by (rule exI [of _ "''[''"], rule exI [of _ "''ts: '' @ [squote] @ p @ [squote]"]) simp

lemma mkdir_wrapper_cases:
  "mkdir_wrapper f dir =
     (case fs_deny f dir of
        Some e \<Rightarrow> if sublist ''Errno 17] File exis'' e then Inr f else Inl (OSError e)
      | None \<Rightarrow> if path_exists f dir then Inr f else Inr (f\<lparr>fs_dirs := insert dir (fs_dirs f)\<rparr>))"
  by (auto simp: mkdir_wrapper_def os_mkdir_def eexist_text_found py_find_none split: option.splits)

end
