(* ===== verification/Proto_Common.thy ===== *)
theory Proto_Common
  imports Yarf_Util
begin

text \<open>
  The part that \<open>src/tools/proto2bin.py\<close> and \<open>src/tools/proto2obj4pb.py\<close> share (their
  texts agree): the scan of a proto file for message blocks and generation instructions
  (\<open>read_proto\<close>), the size annotations (\<open>find_field_opt\<close>), the mapping of field types
  (\<open>prototype2ctype\<close>) and the search for a key field (\<open>find_key_info\<close>). Calls to \<open>print\<close>
  are not modelled.
\<close>

section \<open>Descriptors\<close>

text \<open>
  The parts of \<open>google.protobuf.descriptor_pb2\<close> messages that the tools read. These are
  plain data of an external library.
\<close>

datatype ftype =
    TYPE_DOUBLE | TYPE_FLOAT | TYPE_INT64 | TYPE_UINT64 | TYPE_INT32 | TYPE_FIXED64
  | TYPE_FIXED32 | TYPE_BOOL | TYPE_STRING | TYPE_GROUP | TYPE_MESSAGE | TYPE_BYTES
  | TYPE_UINT32 | TYPE_ENUM | TYPE_SFIXED32 | TYPE_SFIXED64 | TYPE_SINT32 | TYPE_SINT64

datatype flabel = LABEL_OPTIONAL | LABEL_REQUIRED | LABEL_REPEATED

record field_desc =
  fd_name :: string
  fd_type :: ftype
  fd_label :: flabel
  fd_type_name :: string

record msg_desc =
  md_name :: string
  md_field :: "field_desc list"

record file_desc =
  fl_package :: string
  fl_dependency :: "string list"
  fl_message_type :: "msg_desc list"

section \<open>Field types\<close>

definition g_proto_ns :: string where
  "g_proto_ns = ''Proto''"

fun qualify_names :: "string \<Rightarrow> string list \<Rightarrow> string" where
  "qualify_names field_type [] = field_type"
| "qualify_names field_type (name # names) =
     (if name \<noteq> [] \<and> name \<noteq> g_proto_ns
      then qualify_names (if field_type \<noteq> [] then field_type @ ''::'' @ name else name) names
      else qualify_names field_type names)"

definition prototype2ctype :: "field_desc \<Rightarrow> string" where
  "prototype2ctype field =
     (case fd_type field of
        TYPE_MESSAGE \<Rightarrow> qualify_names [] (py_split ''.'' (fd_type_name field))
      | TYPE_DOUBLE \<Rightarrow> ''double''
      | TYPE_UINT64 \<Rightarrow> ''uint64_t''
      | TYPE_INT64 \<Rightarrow> ''int64_t''
      | TYPE_INT32 \<Rightarrow> ''int32_t''
      | TYPE_BOOL \<Rightarrow> ''bool''
      | TYPE_STRING \<Rightarrow> ''char''
      | TYPE_UINT32 \<Rightarrow> ''uint32_t''
      | _ \<Rightarrow> [])"

section \<open>Scanning a proto file\<close>

definition KEYWORD_MSG :: string where
  "KEYWORD_MSG = ''message''"

text \<open>\<open>re.search("^[A-Za-z_][A-Za-z0-9_]*", s)\<close> and the text it matched.\<close>

definition search_var_name :: "string \<Rightarrow> string option" where
  "search_var_name s =
     (case s of [] \<Rightarrow> None
      | c # _ \<Rightarrow> if is_lower c \<or> is_upper c \<or> c = CHR ''_'' then Some (takeWhile is_word s) else None)"

type_synonym struct_dict = "string \<rightharpoonup> nat list"

record proto_scan =
  ps_lines :: "string list"
  ps_dict :: struct_dict
  ps_instruct :: "string list"
  ps_line_no :: nat
  ps_last :: string
  ps_begin :: bool
  ps_end :: bool

definition scan_init :: proto_scan where
  "scan_init = \<lparr>ps_lines = [], ps_dict = Map.empty, ps_instruct = [], ps_line_no = 0,
                ps_last = [], ps_begin = False, ps_end = False\<rparr>"

text \<open>\<open>struct_dict[k].append(n)\<close>.\<close>

definition dict_append :: "struct_dict \<Rightarrow> string \<Rightarrow> nat \<Rightarrow> struct_dict res" where
  "dict_append d k n = bindR (lookupR d k) (\<lambda>l. Inr (d(k \<mapsto> l @ [n])))"

definition scan_instruct :: "proto_scan \<Rightarrow> string \<Rightarrow> proto_scan" where
  "scan_instruct st line =
     (if ps_end st then st
      else
        let tmp = py_lstrip line in
        if \<not> ps_begin st then
          (if 0 = py_find tmp ''//gen_begin''
           then st\<lparr>ps_begin := True, ps_instruct := ps_instruct st @ [tmp]\<rparr> else st)
        else
          (if 0 = py_find tmp ''//gen_end'' then st\<lparr>ps_end := True\<rparr>
           else st\<lparr>ps_instruct := ps_instruct st @ [tmp]\<rparr>))"

text \<open>The name of the message a line declares, \<open>Inl Return\<close> where the scan gives up.\<close>

definition line_message :: "string \<Rightarrow> stop + string option" where
  "line_message line =
     (let idx = py_find line KEYWORD_MSG in
      if idx = -1 then Inr None
      else
        let subline = py_drop line (idx + int (length KEYWORD_MSG)) in
        if -1 \<noteq> py_find subline KEYWORD_MSG then Inl Return
        else (case search_var_name (py_lstrip subline) of
                None \<Rightarrow> Inl Return
              | Some msg_name \<Rightarrow> Inr (Some msg_name)))"

definition scan_message :: "proto_scan \<Rightarrow> string \<Rightarrow> stop + proto_scan" where
  "scan_message st line =
     bindR (line_message line) (\<lambda>found.
       case found of
         None \<Rightarrow> Inr st
       | Some msg_name \<Rightarrow>
           let d = (ps_dict st)(msg_name \<mapsto> [ps_line_no st]) in
           bindR (if [] \<noteq> ps_last st
                  then raising (dict_append d (ps_last st) (ps_line_no st - 1)) else Inr d)
             (\<lambda>d'. Inr (st\<lparr>ps_dict := d', ps_last := msg_name\<rparr>)))"

definition scan_line :: "proto_scan \<Rightarrow> string \<Rightarrow> stop + proto_scan" where
  "scan_line st line =
     (let st1 = st\<lparr>ps_line_no := ps_line_no st + 1\<rparr>;
          st2 = scan_instruct st1 line
      in bindR (scan_message st2 line) (\<lambda>st3.
           Inr (st3\<lparr>ps_lines := ps_lines st3 @ [line]\<rparr>)))"

definition read_proto ::
  "string list \<Rightarrow> (string list \<times> struct_dict \<times> string list) option res" where
  "read_proto file =
     (case foldR scan_line scan_init file of
        Inl (Raise e) \<Rightarrow> Inl e
      | Inl Return \<Rightarrow> Inr None
      | Inr st \<Rightarrow>
          bindR (dict_append (ps_dict st) (ps_last st) (ps_line_no st))
            (\<lambda>d. Inr (Some (ps_lines st, d, ps_instruct st))))"

section \<open>Size annotations\<close>

definition g_gen_keyword :: string where
  "g_gen_keyword = ''|gen|max|''"

definition g_gen_keyopt :: string where
  "g_gen_keyopt = ''keyopt''"

text \<open>The annotation of the line that mentions the field; \<open>None\<close> where it has none.\<close>

definition read_annotation :: "string \<Rightarrow> (string \<times> bool) option res" where
  "read_annotation line =
     (let idx = py_find line g_gen_keyword in
      if -1 = idx then Inr None
      else
        let gen_instruct = py_split ''|'' (py_drop line (idx + int (length g_gen_keyword))) in
        bindR (indexR gen_instruct 1) (\<lambda>opt.
          bindR (indexR gen_instruct 0) (\<lambda>max. Inr (Some (max, opt = g_gen_keyopt)))))"

fun find_opt_loop :: "string \<Rightarrow> string list \<Rightarrow> nat list \<Rightarrow> (string \<times> bool) option res" where
  "find_opt_loop field_name file_lines [] = Inr None"
| "find_opt_loop field_name file_lines (line_no # rest) =
     bindR (indexR file_lines line_no) (\<lambda>line.
       if line = [] then find_opt_loop field_name file_lines rest
       else if -1 = py_find line field_name then find_opt_loop field_name file_lines rest
       else read_annotation line)"

definition find_field_opt ::
  "string \<Rightarrow> string \<Rightarrow> string list \<Rightarrow> struct_dict \<Rightarrow> (string \<times> bool) option res" where
  "find_field_opt class_name field_name file_lines struct_dict =
     bindR (lookupR struct_dict class_name) (\<lambda>l.
       if l = [] then Inr None
       else
         bindR (indexR l 0) (\<lambda>startline.
           bindR (indexR l 1) (\<lambda>endline.
             find_opt_loop field_name file_lines [startline - 1 ..< endline - 1])))"

section \<open>Key fields\<close>

fun find_key_msgs :: "string \<Rightarrow> msg_desc list \<Rightarrow> field_desc option res" where
  "find_key_msgs name [] = Inr None"
| "find_key_msgs name (m # ms) =
     (if md_name m = name then bindR (indexR (md_field m) 0) (\<lambda>f. Inr (Some f))
      else find_key_msgs name ms)"

fun find_key_protos :: "string \<Rightarrow> file_desc list \<Rightarrow> field_desc option res" where
  "find_key_protos name [] = Inr None"
| "find_key_protos name (p # ps) =
     bindR (find_key_msgs name (fl_message_type p)) (\<lambda>r.
       case r of Some f \<Rightarrow> Inr (Some f) | None \<Rightarrow> find_key_protos name ps)"

definition find_key_info :: "file_desc list \<Rightarrow> string \<Rightarrow> field_desc option res" where
  "find_key_info g_all_proto full_name =
     find_key_protos (last (py_split ''::'' full_name)) g_all_proto"

section \<open>What the scan computes\<close>

text \<open>
  Reference definitions: the message declarations of a file with their line numbers, the
  block of lines each declaration owns (up to the line before the next declaration), and
  the generation instructions. The blocks are listed in the order of the file, and a
  declaration that repeats the name of the one directly before it gets the end of that
  one's block as a second number in front of its own end.
\<close>

fun msg_starts :: "nat \<Rightarrow> string list \<Rightarrow> (nat \<times> string) list" where
  "msg_starts n [] = []"
| "msg_starts n (l # ls) =
     (case line_message l of Inr (Some m) \<Rightarrow> [(n, m)] | _ \<Rightarrow> []) @ msg_starts (Suc n) ls"

definition block_start :: "string \<Rightarrow> nat \<Rightarrow> string \<Rightarrow> nat list" where
  "block_start prev p n = p # (if prev = n then [p - 1] else [])"

fun blocks :: "string \<Rightarrow> nat \<Rightarrow> (nat \<times> string) list \<Rightarrow> (string \<times> nat list) list" where
  "blocks prev tot [] = []"
| "blocks prev tot [(p, n)] = [(n, block_start prev p n @ [tot])]"
| "blocks prev tot ((p, n) # (q, m) # r) =
     (n, block_start prev p n @ [q - 1]) # blocks n tot ((q, m) # r)"

fun open_blocks :: "string \<Rightarrow> (nat \<times> string) list \<Rightarrow> (string \<times> nat list) list" where
  "open_blocks prev [] = []"
| "open_blocks prev [(p, n)] = [(n, block_start prev p n)]"
| "open_blocks prev ((p, n) # (q, m) # r) =
     (n, block_start prev p n @ [q - 1]) # open_blocks n ((q, m) # r)"

definition instructions :: "string list \<Rightarrow> string list" where
  "instructions ls =
     (case dropWhile (\<lambda>t. \<not> prefix ''//gen_begin'' t) (map py_lstrip ls) of
        [] \<Rightarrow> []
      | b # r \<Rightarrow> b # takeWhile (\<lambda>t. \<not> prefix ''//gen_end'' t) r)"

definition malformed :: "string list \<Rightarrow> bool" where
  "malformed ls \<longleftrightarrow> (\<exists>l \<in> set ls. line_message l = Inl Return)"

lemma line_message_cases:
  obtains "line_message l = Inl Return" | "line_message l = Inr None"
  | m where "line_message l = Inr (Some m)" "m \<noteq> []"
proof -
  have "line_message l = Inl Return \<or> line_message l = Inr None \<or>
      (\<exists>m. line_message l = Inr (Some m) \<and> m \<noteq> [])"
    by (auto simp: line_message_def search_var_name_def Let_def is_word_def split: list.splits)
  with that show thesis by blast
qed

lemma msg_starts_append:
  "msg_starts n (ls @ ls') = msg_starts n ls @ msg_starts (n + length ls) ls'"
  by (induction ls arbitrary: n) auto

lemma msg_starts_nonempty_name: "(p, m) \<in> set (msg_starts n ls) \<Longrightarrow> m \<noteq> []"
proof (induction ls arbitrary: n)
  case (Cons l ls)
  then show ?case by (cases rule: line_message_cases [of l]) auto
qed simp

lemma msg_starts_bounds: "(p, m) \<in> set (msg_starts n ls) \<Longrightarrow> n \<le> p \<and> p < n + length ls"
  by (induction ls arbitrary: n) (fastforce split: sum.splits option.splits)+

lemma open_blocks_split:
  assumes "S \<noteq> []"
  obtains E e where "open_blocks prev S = E @ [(snd (last S), e)]"
    "\<And>q m. open_blocks prev (S @ [(q, m)]) =
       E @ [(snd (last S), e @ [q - 1]), (m, block_start (snd (last S)) q m)]"
    "\<And>tot. blocks prev tot S = E @ [(snd (last S), e @ [tot])]"
  using assms
proof (induction prev S arbitrary: thesis rule: open_blocks.induct)
  case (2 prev p n)
  show ?case by (rule "2.prems"(1) [of "[]" "block_start prev p n"]) simp_all
next
  case (3 prev p n q m r)
  obtain E e where "open_blocks n ((q, m) # r) = E @ [(snd (last ((q, m) # r)), e)]"
    "\<And>q' m'. open_blocks n (((q, m) # r) @ [(q', m')]) =
       E @ [(snd (last ((q, m) # r)), e @ [q' - 1]), (m', block_start (snd (last ((q, m) # r))) q' m')]"
    "\<And>tot. blocks n tot ((q, m) # r) = E @ [(snd (last ((q, m) # r)), e @ [tot])]"
    using "3.IH" by blast
  then show ?case
    by (intro "3.prems"(1) [of "(n, block_start prev p n @ [q - 1]) # E" e]) simp_all
qed simp

definition declarations :: "string list \<Rightarrow> (nat \<times> string) list" where
  "declarations ls = msg_starts 1 ls"

lemma declarations_Nil [simp]: "declarations [] = []"
  by (simp add: declarations_def)

lemma declarations_snoc:
  "declarations (ls @ [l]) =
     declarations ls @ (case line_message l of Inr (Some m) \<Rightarrow> [(Suc (length ls), m)] | _ \<Rightarrow> [])"
  by (simp add: declarations_def msg_starts_append)

lemma declarations_name: "(p, m) \<in> set (declarations ls) \<Longrightarrow> m \<noteq> []"
  by (simp add: declarations_def msg_starts_nonempty_name)

text \<open>The loop invariant of \<open>read_proto\<close>, in two halves.\<close>

definition instr_inv :: "string list \<Rightarrow> proto_scan \<Rightarrow> bool" where
  "instr_inv ls st \<longleftrightarrow>
     (let rest = dropWhile (\<lambda>t. \<not> prefix ''//gen_begin'' t) (map py_lstrip ls) in
      ps_begin st = (rest \<noteq> []) \<and>
      ps_end st = (\<exists>t \<in> set (tl rest). prefix ''//gen_end'' t) \<and>
      ps_instruct st = instructions ls)"

definition dict_inv :: "string list \<Rightarrow> proto_scan \<Rightarrow> bool" where
  "dict_inv ls st \<longleftrightarrow>
     (let S = declarations ls in
      ps_last st = (if S = [] then [] else snd (last S)) \<and>
      ps_dict st = map_of (rev (open_blocks [] S)))"

lemma scan_inv_frame [simp]:
  "instr_inv ls (st\<lparr>ps_lines := x\<rparr>) = instr_inv ls st"
  "dict_inv ls (st\<lparr>ps_lines := x\<rparr>) = dict_inv ls st"
  "instr_inv ls (st\<lparr>ps_line_no := n\<rparr>) = instr_inv ls st"
  "dict_inv ls (st\<lparr>ps_line_no := n\<rparr>) = dict_inv ls st"
  by (simp_all add: instr_inv_def dict_inv_def)

lemma instr_inv_cong:
  "ps_begin s = ps_begin t \<Longrightarrow> ps_end s = ps_end t \<Longrightarrow> ps_instruct s = ps_instruct t \<Longrightarrow>
     instr_inv ls s = instr_inv ls t"
  by (simp add: instr_inv_def)

lemma scan_instruct_frame [simp]:
  "ps_lines (scan_instruct st l) = ps_lines st"
  "ps_dict (scan_instruct st l) = ps_dict st"
  "ps_line_no (scan_instruct st l) = ps_line_no st"
  "ps_last (scan_instruct st l) = ps_last st"
  by (simp_all add: scan_instruct_def Let_def)

lemma dropWhile_snoc:
  "dropWhile P (xs @ [x]) = (if dropWhile P xs = [] then (if P x then [] else [x]) else dropWhile P xs @ [x])"
  by (induction xs) auto

lemma takeWhile_snoc:
  "takeWhile P (xs @ [x]) = (if \<forall>y \<in> set xs. P y then xs @ (if P x then [x] else []) else takeWhile P xs)"
  by (induction xs) auto

lemma scan_instruct_inv:
  assumes "instr_inv ls st"
  shows "instr_inv (ls @ [l]) (scan_instruct st l)"
proof (cases "dropWhile (\<lambda>t. \<not> prefix ''//gen_begin'' t) (map py_lstrip ls)")
  case Nil
  with assms show ?thesis
    by (simp add: instr_inv_def instructions_def scan_instruct_def Let_def dropWhile_snoc eq_commute [of 0] py_find_zero
        del: dropWhile_eq_Nil_conv)
next
  case (Cons b r)
  with assms show ?thesis
    by (auto simp add: instr_inv_def instructions_def scan_instruct_def Let_def dropWhile_snoc
        takeWhile_snoc eq_commute [of 0] py_find_zero simp del: dropWhile_eq_Nil_conv)
qed

lemma scan_message_inv:
  assumes "dict_inv ls st" "ps_line_no st = Suc (length ls)" "line_message l = Inr found"
  shows "\<exists>st'. scan_message st l = Inr st' \<and> dict_inv (ls @ [l]) st' \<and>
    ps_lines st' = ps_lines st \<and> ps_line_no st' = ps_line_no st \<and>
    ps_instruct st' = ps_instruct st \<and> ps_begin st' = ps_begin st \<and> ps_end st' = ps_end st"
proof (cases found)
  case None
  with assms show ?thesis by (auto simp: scan_message_def dict_inv_def declarations_snoc Let_def)
next
  case (Some m)
  define S where "S = declarations ls"
  have S': "declarations (ls @ [l]) = S @ [(Suc (length ls), m)]"
    using assms(3) Some by (simp add: declarations_snoc S_def)
  show ?thesis
  proof (cases "S = []")
    case True
    moreover have "m \<noteq> []"
      using declarations_name [of _ m "ls @ [l]"] S' by auto
    ultimately show ?thesis using assms Some S'
      by (auto simp: scan_message_def dict_inv_def S_def [symmetric] block_start_def Let_def)
  next
    case False
    let ?n = "snd (last S)" and ?q = "Suc (length ls)"
    let ?d = "(ps_dict st)(m \<mapsto> [?q])"
    obtain E e where E: "open_blocks [] S = E @ [(?n, e)]"
      "open_blocks [] (S @ [(?q, m)]) = E @ [(?n, e @ [length ls]), (m, block_start ?n ?q m)]"
      using open_blocks_split [OF False, of "[]"] by (metis diff_Suc_1)
    have st: "ps_last st = ?n" "ps_dict st = (map_of (rev E))(?n \<mapsto> e)"
      using assms(1) False E(1) by (auto simp: dict_inv_def S_def [symmetric] Let_def)
    have ne: "?n \<noteq> []"
      using declarations_name [of "fst (last S)" ?n ls] False by (auto simp: S_def)
    obtain x where x: "?d ?n = Some x" "x = (if ?n = m then [?q] else e)"
      using st(2) by auto
    then have step: "scan_message st l = Inr (st\<lparr>ps_dict := ?d(?n \<mapsto> x @ [length ls]), ps_last := m\<rparr>)"
      using assms(2,3) Some ne st(1)
      by (simp add: scan_message_def dict_append_def lookupR_def Let_def del: fun_upd_apply)
    have "?d(?n \<mapsto> x @ [length ls]) = map_of (rev (open_blocks [] (S @ [(?q, m)])))"
      using x(2) by (auto simp: E(2) st(2) block_start_def fun_eq_iff)
    with step S' show ?thesis by (auto simp: dict_inv_def Let_def)
  qed
qed

lemma scan_line_malformed: "line_message l = Inl Return \<Longrightarrow> scan_line st l = Inl Return"
  by (simp add: scan_line_def scan_message_def Let_def)

lemma scan_file:
  "\<not> malformed ls \<Longrightarrow> \<exists>st. foldR scan_line scan_init ls = Inr st \<and> ps_lines st = ls \<and>
     ps_line_no st = length ls \<and> instr_inv ls st \<and> dict_inv ls st"
proof (induction ls rule: rev_induct)
  case Nil
  then show ?case by (simp add: scan_init_def instr_inv_def dict_inv_def instructions_def)
next
  case (snoc l ls)
  then obtain st where st: "foldR scan_line scan_init ls = Inr st" "ps_lines st = ls"
    "ps_line_no st = length ls" "instr_inv ls st" "dict_inv ls st"
    by (auto simp: malformed_def)
  define st2 where "st2 = scan_instruct (st\<lparr>ps_line_no := ps_line_no st + 1\<rparr>) l"
  have i2: "instr_inv (ls @ [l]) st2" unfolding st2_def
    by (rule scan_instruct_inv) (simp add: st(4))
  have d2: "dict_inv ls st2" using st(5) by (auto simp: st2_def dict_inv_def Let_def)
  obtain found where f: "line_message l = Inr found"
    using snoc.prems by (cases rule: line_message_cases [of l]) (auto simp: malformed_def)
  obtain st' where st': "scan_message st2 l = Inr st'" "dict_inv (ls @ [l]) st'"
      "ps_lines st' = ps_lines st2" "ps_line_no st' = ps_line_no st2"
      "ps_instruct st' = ps_instruct st2" "ps_begin st' = ps_begin st2" "ps_end st' = ps_end st2"
    using scan_message_inv [OF d2 _ f] st(3) by (auto simp: st2_def)
  let ?st = "st'\<lparr>ps_lines := ps_lines st' @ [l]\<rparr>"
  have "scan_line st l = Inr ?st"
    using st'(1) by (simp add: scan_line_def Let_def st2_def)
  then have "foldR scan_line scan_init (ls @ [l]) = Inr ?st"
    by (simp add: foldR_append st(1))
  moreover have "instr_inv (ls @ [l]) st'"
    using i2 instr_inv_cong [OF st'(6,7,5)] by simp
  ultimately show ?case
    using st'(2,3,4) st(2,3) by (intro exI [of _ ?st]) (simp add: st2_def)
qed

lemma scan_file_malformed: "malformed ls \<Longrightarrow> foldR scan_line scan_init ls = Inl Return"
proof (induction ls rule: rev_induct)
  case Nil
  then show ?case by (simp add: malformed_def)
next
  case (snoc l ls)
  show ?case
  proof (cases "malformed ls")
    case True
    with snoc.IH show ?thesis by (simp add: foldR_append)
  next
    case False
    with snoc.prems have "line_message l = Inl Return" by (auto simp: malformed_def)
    moreover obtain st where "foldR scan_line scan_init ls = Inr st"
      using scan_file [OF False] by blast
    ultimately show ?thesis by (simp add: foldR_append scan_line_malformed)
  qed
qed

text \<open>
  C13: \<open>read_proto\<close> gives up exactly when some line has two \<open>message\<close> keywords or no name
  after the keyword, raises \<open>KeyError\<close> exactly when the file declares no message, and
  otherwise returns the lines, the generation instructions and the table of blocks: each
  message owns the lines from its declaration to the line before the next declaration, the
  last one to the end of the file. Where a name is declared again (nested messages of the
  same name, say) the table keeps the block of its last declaration only; and when the two
  declarations follow each other directly, that block gets, before its end, the line in
  front of its start, which its readers take for the end.
\<close>

theorem read_proto_spec:
  "read_proto file =
    (if malformed file then Inr None
     else if declarations file = [] then Inl (KeyError [])
     else Inr (Some (file, map_of (rev (blocks [] (length file) (declarations file))),
       instructions file)))"
proof (cases "malformed file")
  case True
  then show ?thesis by (simp add: read_proto_def scan_file_malformed)
next
  case False
  from scan_file [OF False] obtain st where st: "foldR scan_line scan_init file = Inr st"
    "ps_lines st = file" "ps_line_no st = length file" "instr_inv file st" "dict_inv file st"
    by blast
  show ?thesis
  proof (cases "declarations file = []")
    case True
    with False st show ?thesis
      by (simp add: read_proto_def dict_inv_def dict_append_def lookupR_def Let_def)
  next
    case ne: False
    obtain E e where "open_blocks [] (declarations file) = E @ [(snd (last (declarations file)), e)]"
      "blocks [] (length file) (declarations file) =
         E @ [(snd (last (declarations file)), e @ [length file])]"
      using open_blocks_split [OF ne, of "[]"] by metis
    with False ne st show ?thesis
      by (simp add: read_proto_def dict_append_def lookupR_def dict_inv_def instr_inv_def Let_def)
  qed
qed

definition sample_proto :: "string list" where
  "sample_proto =
     [''//gen_begin'' @ [newline], ''//x'' @ [newline], ''//gen_end'' @ [newline],
      ''message A {'' @ [newline], ''  int32 uid = 1;'' @ [newline], ''}'' @ [newline],
      ''message B {'' @ [newline], ''  message B {'' @ [newline], ''  }'' @ [newline], ''}'' @ [newline]]"

theorem read_proto_spec_witness:
  "read_proto sample_proto =
     Inr (Some (sample_proto, map_of [(''B'', [8, 7, 10]), (''A'', [4, 6])],
       [''//gen_begin'' @ [newline], ''//x'' @ [newline]]))"
proof -
  have d: "declarations sample_proto = [(4, ''A''), (7, ''B''), (8, ''B'')]" by code_simp
  have m: "\<not> malformed sample_proto" by code_simp
  have i: "instructions sample_proto = [''//gen_begin'' @ [newline], ''//x'' @ [newline]]"
    by code_simp
  have n: "length sample_proto = 10" by (simp add: sample_proto_def)
  show ?thesis
    using read_proto_spec [of sample_proto] m
    by (auto simp: d i n block_start_def fun_eq_iff)
qed

section \<open>What the annotation lookup computes\<close>

lemma find_opt_loop_spec:
  "\<forall>i \<in> set is. i < length ls \<Longrightarrow>
   find_opt_loop f ls is =
     (case List.find (\<lambda>l. l \<noteq> [] \<and> sublist f l) (map ((!) ls) is) of
        None \<Rightarrow> Inr None | Some l \<Rightarrow> read_annotation l)"
  by (induction f ls "is" rule: find_opt_loop.induct)
    (auto simp: indexR_def py_find_none eq_commute [of "-1"])

lemma map_nth_upt: "b \<le> length ls \<Longrightarrow> map ((!) ls) [a ..< b] = take (b - a) (drop a ls)"
  by (rule nth_equalityI) auto

text \<open>
  C36: for a class whose block is \<open>[a, b]\<close>, \<open>find_field_opt\<close> reads the annotation of the
  first line in \<open>a \<dots> b - 1\<close> whose text contains the field name; without such a line the
  answer is \<open>None\<close>. The last line of the block is never looked at.
\<close>

theorem find_field_opt_spec:
  assumes "struct_dict class_name = Some [a, b]" "1 \<le> a" "b \<le> length file_lines"
  shows "find_field_opt class_name field_name file_lines struct_dict =
    (case List.find (\<lambda>l. l \<noteq> [] \<and> sublist field_name l) (take (b - a) (drop (a - 1) file_lines)) of
       None \<Rightarrow> Inr None | Some l \<Rightarrow> read_annotation l)"
proof -
  have "find_field_opt class_name field_name file_lines struct_dict =
      find_opt_loop field_name file_lines [a - 1 ..< b - 1]"
    using assms(1) by (simp add: find_field_opt_def lookupR_def indexR_def)
  also have "map ((!) file_lines) [a - 1 ..< b - 1] = take (b - a) (drop (a - 1) file_lines)"
    using assms(2,3) map_nth_upt [of "b - 1" file_lines "a - 1"] by simp
  then have "find_opt_loop field_name file_lines [a - 1 ..< b - 1] =
      (case List.find (\<lambda>l. l \<noteq> [] \<and> sublist field_name l) (take (b - a) (drop (a - 1) file_lines)) of
       None \<Rightarrow> Inr None | Some l \<Rightarrow> read_annotation l)"
    using assms(3) by (subst find_opt_loop_spec) auto
  finally show ?thesis .
qed

text \<open>
  The name is looked for as a substring: the line of an earlier field whose name contains
  it is taken instead of the field's own line.
\<close>

definition uid_block :: "string list" where
  "uid_block =
     [''message A {'' @ [newline],
      ''  string uid = 1; // |gen|max|5|'' @ [newline],
      ''  string id = 2; // |gen|max|9|'' @ [newline],
      ''}'' @ [newline]]"

theorem find_field_opt_spec_witness:
  "find_field_opt ''A'' ''id'' uid_block [''A'' \<mapsto> [1, 4]] = Inr (Some (''5'', False))"
proof -
  have "find_field_opt ''A'' ''id'' uid_block [''A'' \<mapsto> [1, 4]] =
      (case List.find (\<lambda>l. l \<noteq> [] \<and> sublist ''id'' l) (take (4 - 1) (drop (1 - 1) uid_block)) of
       None \<Rightarrow> Inr None | Some l \<Rightarrow> read_annotation l)"
    by (rule find_field_opt_spec) (simp_all add: uid_block_def)
  moreover have "List.find (\<lambda>l. l \<noteq> [] \<and> sublist ''id'' l) (take (4 - 1) (drop (1 - 1) uid_block)) =
      Some (''  string uid = 1; // |gen|max|5|'' @ [newline])"
    by code_simp
  moreover have "read_annotation (''  string uid = 1; // |gen|max|5|'' @ [newline]) =
      Inr (Some (''5'', False))" by code_simp
  ultimately show ?thesis by simp
qed

lemma find_at_bar:
  "CHR ''|'' \<notin> set pre \<Longrightarrow> find_at (CHR ''|'' # k) (pre @ CHR ''|'' # k @ post) i = Some (i + length pre)"
  by (induction pre arbitrary: i) auto

lemma read_annotation_tail:
  assumes "CHR ''|'' \<notin> set pre"
  shows "py_find (pre @ g_gen_keyword @ post) g_gen_keyword = int (length pre)"
    and "py_drop (pre @ g_gen_keyword @ post) (int (length pre) + int (length g_gen_keyword)) = post"
proof -
  show "py_find (pre @ g_gen_keyword @ post) g_gen_keyword = int (length pre)"
    using find_at_bar [OF assms, of "''gen|max|''" post 0]
    by (simp add: py_find_def g_gen_keyword_def)
  show "py_drop (pre @ g_gen_keyword @ post) (int (length pre) + int (length g_gen_keyword)) = post"
    unfolding of_nat_add [symmetric] by (simp add: py_drop_nonneg)
qed

text \<open>
  the annotation \<open>|gen|max|num|opt|\<close> written anywhere in a line (with no bar before
  it) is read back as \<open>num\<close> and whether \<open>opt\<close> is \<open>keyopt\<close>; with no bar after the number
  the lookup raises \<open>IndexError\<close>.
\<close>

theorem read_annotation_roundtrip:
  assumes "CHR ''|'' \<notin> set pre" "CHR ''|'' \<notin> set num" "CHR ''|'' \<notin> set opt"
  shows "read_annotation (pre @ ''|gen|max|'' @ num @ ''|'' @ opt @ ''|'' @ post) =
           Inr (Some (num, opt = ''keyopt'')) \<and>
         read_annotation (pre @ ''|gen|max|'' @ num) = Inl IndexError"
proof -
  note kw = g_gen_keyword_def [symmetric]
  have "py_split ''|'' (num @ ''|'' @ opt @ ''|'' @ post) = num # opt # py_split ''|'' post"
    using assms by (simp add: py_split_Cons)
  moreover have "py_split ''|'' num = [num]" using assms by (simp add: py_split_absent)
  ultimately show ?thesis
    using read_annotation_tail [OF assms(1)] unfolding kw
    by (simp add: read_annotation_def Let_def indexR_def g_gen_keyopt_def)
qed

theorem read_annotation_roundtrip_witness:
  "read_annotation (''  string s = 1; // '' @ ''|gen|max|'' @ ''20'' @ ''|'' @ ''keyopt'' @ ''|'' @ [newline]) =
     Inr (Some (''20'', ''keyopt'' = ''keyopt'')) \<and>
   read_annotation (''  string s = 1; // '' @ ''|gen|max|'' @ ''20'') = Inl IndexError"
  by (rule read_annotation_roundtrip) simp_all

end
