(* ===== verification/Proto_Driver.thy ===== *)
theory Proto_Driver
  imports Templates Proto_Common
begin

text \<open>
  The driver \<open>proto2bin.py\<close> and \<open>proto2obj4pb.py\<close> share: obtaining the descriptor from the
  module \<open>protoc\<close> writes (\<open>get_protodesc\<close>), and \<open>handle_proto\<close> around the generator. The
  external programs are a parameter (\<open>toolchain\<close>).
\<close>

section \<open>External programs\<close>

text \<open>
  \<open>tc_system\<close> is the effect of \<open>os.system\<close> on the files, \<open>tc_parse\<close> is
  \<open>FileDescriptorProto.ParseFromString\<close>, \<open>tc_platform\<close> the value of \<open>platform.platform()\<close>.
\<close>

record toolchain =
  tc_platform :: string
  tc_system :: "string \<Rightarrow> fs \<Rightarrow> fs"
  tc_parse :: "string \<Rightarrow> file_desc res"

section \<open>The string_escape codec\<close>

definition octal_digit :: "char \<Rightarrow> bool" where
  "octal_digit c \<longleftrightarrow> in_range (CHR ''0'') (CHR ''7'') c"

definition digit_val :: "char \<Rightarrow> nat" where
  "digit_val c =
     (if is_digit c then of_char c - 48
      else if is_lower c then of_char c - 87 else of_char c - 55)"

definition hex_digit :: "char \<Rightarrow> bool" where
  "hex_digit c \<longleftrightarrow> is_digit c \<or> in_range (CHR ''a'') (CHR ''f'') c \<or> in_range (CHR ''A'') (CHR ''F'') c"

definition simple_escape :: "char \<Rightarrow> char option" where
  "simple_escape c =
     map_of [(backslash, backslash), (squote, squote), (dquote, dquote), (CHR ''a'', CHR 0x07),
             (CHR ''b'', CHR 0x08), (CHR ''f'', CHR 0x0C), (CHR ''n'', CHR 0x0A),
             (CHR ''r'', CHR 0x0D), (CHR ''t'', CHR 0x09), (CHR ''v'', CHR 0x0B)] c"

text \<open>\<open>s.decode("string_escape")\<close>: the escapes of Python byte-string literals.\<close>

function string_escape :: "string \<Rightarrow> string res" where
  "string_escape s =
     (case s of
        [] \<Rightarrow> Inr []
      | c # cs \<Rightarrow>
          if c \<noteq> backslash then bindR (string_escape cs) (\<lambda>r. Inr (c # r))
          else (case cs of
            [] \<Rightarrow> Inl ValueError
          | e # rest \<Rightarrow>
              if e = newline then string_escape rest
              else if octal_digit e then
                let ds = takeWhile octal_digit (take 3 cs) in
                bindR (string_escape (drop (length ds) cs))
                  (\<lambda>r. Inr (char_of (foldl (\<lambda>n d. 8 * n + digit_val d) 0 ds) # r))
              else if e = CHR ''x'' then
                (case rest of
                   a # b # rest' \<Rightarrow>
                     if hex_digit a \<and> hex_digit b
                     then bindR (string_escape rest')
                            (\<lambda>r. Inr (char_of (16 * digit_val a + digit_val b) # r))
                     else Inl ValueError
                 | _ \<Rightarrow> Inl ValueError)
              else (case simple_escape e of
                      Some x \<Rightarrow> bindR (string_escape rest) (\<lambda>r. Inr (x # r))
                    | None \<Rightarrow> bindR (string_escape rest) (\<lambda>r. Inr (c # e # r)))))"
  by pat_completeness auto
termination
  by (relation "measure length") auto

declare string_escape.simps [simp del]

section \<open>get\_protodesc\<close>

definition protoc_command :: "toolchain \<Rightarrow> string \<Rightarrow> string" where
  "protoc_command tc file_name =
     (if iswin (tc_platform tc) \<noteq> 0 then ''protoc.exe --python_out=. '' @ '' ./'' @ file_name
      else ''./protoc --python_out=. '' @ '' ./'' @ file_name)"

text \<open>The loop over the lines of \<open>file_pre_pb2.py\<close>: the first line with \<open>serialized_pb\<close>.\<close>

fun find_serialized :: "string list \<Rightarrow> string res" where
  "find_serialized [] = Inr []"
| "find_serialized (line # rest) =
     (if -1 \<noteq> py_find line ''serialized_pb''
      then string_escape (py_slice line (py_find line [squote] + 1) (py_rfind line [squote]))
      else find_serialized rest)"

definition get_protodesc :: "toolchain \<Rightarrow> string \<Rightarrow> string \<Rightarrow> fs \<Rightarrow> fs \<times> file_desc res" where
  "get_protodesc tc file_name file_pre f =
     (let f1 = tc_system tc (protoc_command tc file_name) f in
      (f1, bindR (open_r f1 (file_pre @ ''_pb2.py'')) (\<lambda>text.
             bindR (find_serialized (readlines text)) (tc_parse tc))))"

section \<open>handle\_proto\<close>

text \<open>\<open>field_max, gen_keyopt = find_field_opt(\<dots>)\<close>: unpacking \<open>None\<close> raises.\<close>

definition unpack_opt :: "'a option res \<Rightarrow> 'a res" where
  "unpack_opt m = bindR m (\<lambda>r. case r of None \<Rightarrow> Inl TypeError | Some x \<Rightarrow> Inr x)"

lemma unpack_opt_Inr_iff [simp, res_simps]: "unpack_opt m = Inr x \<longleftrightarrow> m = Inr (Some x)"
  by (cases m) (auto simp: unpack_opt_def split: option.splits)

definition inc_pre :: "string \<Rightarrow> string" where
  "inc_pre inc = py_split ''.'' inc ! 0"

text \<open>
  The files are opened first and written last, so a generator that stops early leaves them
  empty.
\<close>

definition write_pair :: "fs \<Rightarrow> string \<Rightarrow> string \<Rightarrow> stop + string \<times> string \<Rightarrow> fs \<times> unit res" where
  "write_pair f hname cname out =
     (case open_w f hname of
        Inl e \<Rightarrow> (f, Inl e)
      | Inr f1 \<Rightarrow>
         (case open_w f1 cname of
            Inl e \<Rightarrow> (f1, Inl e)
          | Inr f2 \<Rightarrow>
             (case out of
                Inl (Raise e) \<Rightarrow> (f2, Inl e)
              | Inl Return \<Rightarrow> (f2, Inr ())
              | Inr (h, c) \<Rightarrow> (file_write (file_write f2 hname h) cname c, Inr ()))))"

record gen_state =
  gs_fs :: fs
  gs_all_proto :: "file_desc list"

text \<open>The loop over the dependencies: one descriptor each, in order, until a call raises.\<close>

fun load_deps :: "toolchain \<Rightarrow> string list \<Rightarrow> gen_state \<Rightarrow> gen_state \<times> unit res" where
  "load_deps tc [] st = (st, Inr ())"
| "load_deps tc (inc # incs) st =
     (case get_protodesc tc inc (inc_pre inc) (gs_fs st) of
        (f, Inl e) \<Rightarrow> (st\<lparr>gs_fs := f\<rparr>, Inl e)
      | (f, Inr d) \<Rightarrow>
          load_deps tc incs (st\<lparr>gs_fs := f, gs_all_proto := gs_all_proto st @ [d]\<rparr>))"

text \<open>
  \<open>handle_proto\<close> for a generator that may look at the loaded descriptors. A proto file that
  cannot be opened is reported and left; a scan that gave up makes the unpacking of its
  result raise.
\<close>

definition handle_proto_with ::
  "toolchain
   \<Rightarrow> (file_desc list \<Rightarrow> string \<Rightarrow> string list \<Rightarrow> struct_dict \<Rightarrow> string list \<Rightarrow> file_desc \<Rightarrow> fs
        \<Rightarrow> fs \<times> unit res)
   \<Rightarrow> string \<Rightarrow> gen_state \<Rightarrow> gen_state \<times> unit res" where
  "handle_proto_with tc gen file_pre st =
     (let file_name = file_pre @ ''.proto'' in
      case open_r (gs_fs st) file_name of
        Inl err \<Rightarrow> (st, Inr ())
      | Inr text \<Rightarrow>
         (case unpack_opt (read_proto (readlines text)) of
            Inl e \<Rightarrow> (st, Inl e)
          | Inr (file_lines, struct_dict, parse_instruct) \<Rightarrow>
             if file_lines = [] then (st, Inr ())
             else
               (case get_protodesc tc file_name file_pre (gs_fs st) of
                  (f1, Inl e) \<Rightarrow> (st\<lparr>gs_fs := f1\<rparr>, Inl e)
                | (f1, Inr proto_desc) \<Rightarrow>
                   (case load_deps tc (fl_dependency proto_desc)
                           (st\<lparr>gs_fs := f1, gs_all_proto := gs_all_proto st @ [proto_desc]\<rparr>) of
                      (st2, Inl e) \<Rightarrow> (st2, Inl e)
                    | (st2, Inr _) \<Rightarrow>
                       (case gen (gs_all_proto st2) file_pre file_lines struct_dict parse_instruct
                               proto_desc (gs_fs st2) of
                          (f3, r) \<Rightarrow> (st2\<lparr>gs_fs := f3\<rparr>, r))))))"

section \<open>Emitting loops\<close>

text \<open>
  The loops of the generators append a text to their accumulators for every element and stop
  at an element they cannot handle. The interface: which elements are handled, what is
  emitted for one; the laws: a handled element appends what it emits, any other stops the
  loop.
\<close>

locale emit_loop =
  fixes step :: "'acc \<Rightarrow> 'a \<Rightarrow> 'e + 'acc"
    and handled :: "'a \<Rightarrow> bool"
    and emit :: "'a \<Rightarrow> 't"
    and app :: "'acc \<Rightarrow> 't \<Rightarrow> 'acc"
  assumes step_handled: "handled x \<Longrightarrow> step acc x = Inr (app acc (emit x))"
    and step_refused: "\<not> handled x \<Longrightarrow> \<exists>e. step acc x = Inl e"
begin

lemma loop_iff:
  "foldR step acc xs = Inr r \<longleftrightarrow> (\<forall>x \<in> set xs. handled x) \<and> r = foldl app acc (map emit xs)"
proof (induction xs arbitrary: acc)
  case (Cons x xs)
  show ?case
  proof (cases "handled x")
    case True
    then show ?thesis by (simp add: step_handled Cons.IH)
  next
    case False
    then obtain e where "step acc x = Inl e" using step_refused by blast
    with False show ?thesis by simp
  qed
qed auto

lemma loop_stops: "x \<in> set xs \<Longrightarrow> \<not> handled x \<Longrightarrow> \<exists>e. foldR step acc xs = Inl e"
  using loop_iff [of acc xs] by (cases "foldR step acc xs") auto

end

text \<open>Accumulators of two, three and four texts.\<close>

fun app2 :: "string \<times> string \<Rightarrow> string \<times> string \<Rightarrow> string \<times> string" where
  "app2 (a, b) (x, y) = (a @ x, b @ y)"

fun app3 :: "string \<times> string \<times> string \<Rightarrow> string \<times> string \<times> string \<Rightarrow> string \<times> string \<times> string" where
  "app3 (a, b, c) (x, y, z) = (a @ x, b @ y, c @ z)"

fun app4 :: "string \<times> string \<times> string \<times> string \<Rightarrow> string \<times> string \<times> string \<times> string
    \<Rightarrow> string \<times> string \<times> string \<times> string" where
  "app4 (a, b, c, d) (x, y, z, w) = (a @ x, b @ y, c @ z, d @ w)"

lemma foldl_app2:
  "foldl app2 (a, b) ts = (a @ concat (map fst ts), b @ concat (map snd ts))"
  by (induction ts arbitrary: a b) auto

lemma foldl_app3:
  "foldl app3 (a, b, c) ts =
     (a @ concat (map fst ts), b @ concat (map (fst \<circ> snd) ts), c @ concat (map (snd \<circ> snd) ts))"
  by (induction ts arbitrary: a b c) auto

lemma foldl_app4:
  "foldl app4 (a, b, c, d) ts =
     (a @ concat (map fst ts), b @ concat (map (fst \<circ> snd) ts),
      c @ concat (map (fst \<circ> snd \<circ> snd) ts), d @ concat (map (snd \<circ> snd \<circ> snd) ts))"
  by (induction ts arbitrary: a b c d) auto

section \<open>Texts without a dollar sign\<close>

text \<open>
  The names a descriptor supplies are identifiers, so they have no dollar sign; the same is
  asked of the proto file's text, from which the array sizes are taken.
\<close>

lemma dollar_free_concat: "(\<And>s. s \<in> set ss \<Longrightarrow> dollar_free s) \<Longrightarrow> dollar_free (concat ss)"
  by (auto simp: dollar_free_def)

lemma split_aux_set:
  "p \<in> set (split_aux sep acc n s) \<Longrightarrow> set p \<subseteq> set acc \<union> set s"
  by (induction sep acc n s rule: split_aux.induct) (auto split: if_splits)

lemma py_split_set: "p \<in> set (py_split sep s) \<Longrightarrow> set p \<subseteq> set s"
  using split_aux_set [of p sep "[]" 0 s] by (simp add: py_split_def)

lemma dollar_free_py_split: "p \<in> set (py_split sep s) \<Longrightarrow> dollar_free s \<Longrightarrow> dollar_free p"
  using py_split_set by (auto simp: dollar_free_def)

lemma dollar_free_inc_pre: "dollar_free inc \<Longrightarrow> dollar_free (inc_pre inc)"
  unfolding inc_pre_def by (rule dollar_free_py_split [of _ "''.''"]) (simp_all add: nth_mem)

lemma dollar_free_upper_char: "upper_char c \<noteq> CHR ''$'' \<longleftrightarrow> c \<noteq> CHR ''$''"
  by simp

lemma dollar_free_first2upper: "dollar_free s \<Longrightarrow> dollar_free (first2upper s)"
proof -
  have "dollar_free s \<Longrightarrow> dollar_free r \<Longrightarrow> dollar_free (first2upper_loop h r s)" for h r
    by (induction h r s rule: first2upper_loop.induct) (auto dest: sym)
  then show "dollar_free s \<Longrightarrow> dollar_free (first2upper s)" by (simp add: first2upper_def)
qed

lemma dollar_free_qualify_names:
  "dollar_free t \<Longrightarrow> (\<And>n. n \<in> set ns \<Longrightarrow> dollar_free n) \<Longrightarrow> dollar_free (qualify_names t ns)"
  by (induction t ns rule: qualify_names.induct) auto

lemma dollar_free_ctype: "dollar_free (fd_type_name f) \<Longrightarrow> dollar_free (prototype2ctype f)"
  by (cases "fd_type f")
    (auto simp: prototype2ctype_def intro: dollar_free_qualify_names dollar_free_py_split)

lemma dollar_free_annotation:
  assumes "dollar_free l" "read_annotation l = Inr (Some (m, k))"
  shows "dollar_free m"
proof -
  from assms(2) obtain i where m: "m = py_split ''|'' (py_drop l i) ! 0"
    by (auto simp: read_annotation_def Let_def res_simps split: if_splits)
  have "dollar_free (py_drop l i)"
    using assms(1) by (auto simp: py_drop_def dollar_free_def dest: in_set_dropD)
  then show ?thesis unfolding m by (rule dollar_free_py_split [of _ "''|''", rotated]) (simp add: nth_mem)
qed

lemma find_opt_loop_line:
  "find_opt_loop f ls is = Inr (Some r) \<Longrightarrow> \<exists>l \<in> set ls. read_annotation l = Inr (Some r)"
  by (induction f ls "is" rule: find_opt_loop.induct) (auto simp: res_simps split: if_splits)

lemma dollar_free_field_max:
  assumes "find_field_opt c f ls d = Inr (Some (m, k))" "\<And>l. l \<in> set ls \<Longrightarrow> dollar_free l"
  shows "dollar_free m"
proof -
  from assms(1) obtain ix where "find_opt_loop f ls ix = Inr (Some (m, k))"
    by (auto simp: find_field_opt_def res_simps split: if_splits)
  then obtain l where "l \<in> set ls" "read_annotation l = Inr (Some (m, k))"
    using find_opt_loop_line by blast
  with assms(2) dollar_free_annotation show ?thesis by blast
qed

text \<open>The names of a descriptor that go into the generated text.\<close>

definition field_names_ok :: "field_desc \<Rightarrow> bool" where
  "field_names_ok f \<longleftrightarrow> dollar_free (fd_name f) \<and> dollar_free (fd_type_name f)"

definition file_names_ok :: "file_desc \<Rightarrow> bool" where
  "file_names_ok p \<longleftrightarrow>
     dollar_free (fl_package p) \<and> list_all dollar_free (fl_dependency p) \<and>
     list_all (\<lambda>m. dollar_free (md_name m) \<and> list_all field_names_ok (md_field m)) (fl_message_type p)"

section \<open>Shapes of fields\<close>

text \<open>
  The five shapes of a field. A field is handled when its type is supported, it is no array
  of strings and, where a size is needed, the proto file annotates one.
\<close>

datatype field_kind = KStructVec | KSimpleVec | KStruct | KString | KSimple

definition field_kind :: "field_desc \<Rightarrow> field_kind" where
  "field_kind f =
     (if fd_label f = LABEL_REPEATED
      then (if fd_type f = TYPE_MESSAGE then KStructVec else KSimpleVec)
      else if fd_type f = TYPE_MESSAGE then KStruct
      else if fd_type f = TYPE_STRING then KString else KSimple)"

definition needs_max :: "field_desc \<Rightarrow> bool" where
  "needs_max f \<longleftrightarrow> field_kind f \<in> {KStructVec, KSimpleVec, KString}"

definition field_handled :: "string list \<Rightarrow> struct_dict \<Rightarrow> string \<Rightarrow> field_desc \<Rightarrow> bool" where
  "field_handled ls d c f \<longleftrightarrow>
     prototype2ctype f \<noteq> [] \<and>
     \<not> (fd_label f = LABEL_REPEATED \<and> fd_type f = TYPE_STRING) \<and>
     (needs_max f \<longrightarrow> (\<exists>r. find_field_opt c (fd_name f) ls d = Inr (Some r)))"

definition field_max :: "string list \<Rightarrow> struct_dict \<Rightarrow> string \<Rightarrow> field_desc \<Rightarrow> string" where
  "field_max ls d c f =
     (case find_field_opt c (fd_name f) ls d of Inr (Some (m, _)) \<Rightarrow> m | _ \<Rightarrow> [])"

lemma names_ok_simps [simp]:
  "hole_name ''field''" "hole_name ''field_upper''" "hole_name ''field_type''"
  "hole_name ''field_first_up''" "hole_name ''max''" "hole_name ''ns''" "hole_name ''class_name''"
  "hole_name ''macro''" "hole_name ''file_pre''"
  "hole_name ''field_key_type''" "hole_name ''field_key_name''"
  by code_simp+

lemma dollar_free_max:
  "(\<And>l. l \<in> set ls \<Longrightarrow> dollar_free l) \<Longrightarrow> dollar_free (field_max ls d c f)"
  by (auto simp: field_max_def dest: dollar_free_field_max split: sum.splits option.splits)

definition guard_macro :: "string \<Rightarrow> string \<Rightarrow> string" where
  "guard_macro ns file_pre = py_upper ns @ ''_'' @ py_upper file_pre @ ''_RAWDATA_H_''"

end
