(* ===== verification/Proto2bin.thy ===== *)
theory Proto2bin
  imports Bin_Templates Proto_Driver
begin

text \<open>
  \<open>gen_code\<close> and \<open>handle_proto\<close> of \<open>src/tools/proto2bin.py\<close>: for every message of a proto
  file the declaration of a struct and the bodies of its \<open>Encode\<close> and \<open>Decode\<close> functions.
\<close>

section \<open>The generator\<close>

text \<open>
  One pass of the field loop over the accumulated texts (declaration, encode, decode).
  \<open>field_max, gen_keyopt = find_field_opt(\<dots>)\<close> raises \<open>TypeError\<close> when the call returns
  \<open>None\<close>.
\<close>

definition gen_field_bin ::
  "string list \<Rightarrow> struct_dict \<Rightarrow> string \<Rightarrow> string \<times> string \<times> string \<Rightarrow> field_desc
     \<Rightarrow> stop + string \<times> string \<times> string" where
  "gen_field_bin file_lines struct_dict class_name acc field =
     (case acc of (h_declare_content, cc_encode_content, cc_decode_content) \<Rightarrow>
      let field_type = prototype2ctype field in
      if [] = field_type then Inl Return
      else
        let field_name = fd_name field;
            field_upper = py_upper field_name;
            field_first_up = first2upper field_name in
        if fd_label field = LABEL_REPEATED then
          bindR (raising (unpack_opt (find_field_opt class_name field_name file_lines struct_dict)))
            (\<lambda>(field_max, gen_keyopt).
              bindR
                (if fd_type field = TYPE_MESSAGE then
                   Inr (cc_encode_content @ replaces cc_encode_struct_vec_field_bin
                          [(''field'', field_name), (''field_upper'', field_upper)],
                        cc_decode_content @ replaces cc_decode_struct_vec_field_bin
                          [(''field'', field_name), (''field_upper'', field_upper)])
                 else if fd_type field = TYPE_STRING then Inl Return
                 else
                   Inr (cc_encode_content @ replaces cc_encode_simple_vec_field_bin
                          [(''field'', field_name), (''field_upper'', field_upper)],
                        cc_decode_content @ replaces cc_decode_simple_vec_field_bin
                          [(''field'', field_name), (''field_upper'', field_upper)]))
                (\<lambda>(cc_encode_content, cc_decode_content).
                  Inr (h_declare_content @ replaces h_vec_field_bin
                         [(''field_type'', field_type), (''field'', field_name),
                          (''field_upper'', field_upper), (''field_first_up'', field_first_up),
                          (''max'', field_max)],
                       cc_encode_content, cc_decode_content)))
        else if fd_type field = TYPE_MESSAGE then
          Inr (h_declare_content @ replaces h_single_field_bin
                 [(''field_type'', field_type), (''field'', field_name)],
               cc_encode_content @ replaces cc_encode_struct_field_bin [(''field'', field_name)],
               cc_decode_content @ replaces cc_decode_struct_field_bin [(''field'', field_name)])
        else if fd_type field = TYPE_STRING then
          bindR (raising (unpack_opt (find_field_opt class_name field_name file_lines struct_dict)))
            (\<lambda>(field_max, gen_keyopt).
              Inr (h_declare_content @ replaces h_string_field_bin
                     [(''field_upper'', field_upper), (''field'', field_name), (''max'', field_max)],
                   cc_encode_content @ replaces cc_encode_string_field_bin
                     [(''field'', field_name), (''field_upper'', field_upper)],
                   cc_decode_content @ replaces cc_decode_string_field_bin [(''field'', field_name)]))
        else
          Inr (h_declare_content @ replaces h_single_field_bin
                 [(''field_type'', field_type), (''field'', field_name)],
               cc_encode_content @ replaces cc_encode_simple_field_bin [(''field'', field_name)],
               cc_decode_content @ replaces cc_decode_simple_field_bin [(''field'', field_name)]))"

definition gen_message_bin ::
  "string list \<Rightarrow> struct_dict \<Rightarrow> string \<Rightarrow> string \<times> string \<Rightarrow> msg_desc \<Rightarrow> stop + string \<times> string" where
  "gen_message_bin file_lines struct_dict namespace acc msg_type =
     (case acc of (h_content, cc_content) \<Rightarrow>
      let class_name = md_name msg_type in
      bindR (foldR (gen_field_bin file_lines struct_dict class_name)
               (replaces h_class_begin_bin [(''class_name'', class_name)],
                replaces cc_encode_begin_bin [(''ns'', namespace), (''class_name'', class_name)],
                replaces cc_decode_begin_bin [(''ns'', namespace), (''class_name'', class_name)])
               (md_field msg_type))
        (\<lambda>(h_declare_content, cc_encode_content, cc_decode_content).
          Inr (h_content @ h_declare_content
                 @ replaces h_class_end_bin [(''class_name'', class_name), (''ns'', namespace)],
               (cc_content @ cc_encode_content @ cc_encode_end_bin)
                 @ cc_decode_content @ code_decode_end_bin)))"

text \<open>The text of the two files, \<open>Inl Return\<close> where \<open>gen_code\<close> returns before writing them.\<close>

definition gen_contents_bin ::
  "string \<Rightarrow> string list \<Rightarrow> struct_dict \<Rightarrow> string list \<Rightarrow> file_desc \<Rightarrow> stop + string \<times> string" where
  "gen_contents_bin file_pre file_lines struct_dict parse_instruct proto_desc =
     (if length parse_instruct < 2 then Inl Return
      else
        let tmp = py_split ''.'' (fl_package proto_desc) in
        if length tmp < 2 then Inl Return
        else if g_proto_ns \<noteq> tmp ! 0 then Inl Return
        else
          let namespace = tmp ! 1;
              macro = py_upper namespace @ ''_'' @ py_upper file_pre @ ''_RAWDATA_H_'';
              cc_content = replaces cc_begin_bin [(''file_pre'', file_pre)];
              h_content = replaces h_begin_bin [(''macro'', macro), (''file_pre'', file_pre)]
                @ concat (map (\<lambda>inc. replaces h_include_bin [(''file_pre'', inc_pre inc)])
                            (fl_dependency proto_desc))
                @ replaces h_ns_begin_bin [(''ns'', namespace)]
          in bindR (foldR (gen_message_bin file_lines struct_dict namespace)
                      (h_content, cc_content) (fl_message_type proto_desc))
               (\<lambda>(h_content, cc_content).
                 Inr (h_content @ replaces h_end_bin [(''ns'', namespace), (''macro'', macro)],
                      cc_content)))"

definition gen_code_bin ::
  "string \<Rightarrow> string list \<Rightarrow> struct_dict \<Rightarrow> string list \<Rightarrow> file_desc \<Rightarrow> fs \<Rightarrow> fs \<times> unit res" where
  "gen_code_bin file_pre file_lines struct_dict parse_instruct proto_desc f =
     write_pair f (file_pre @ ''_binpack.h'') (file_pre @ ''_binpack.cpp'')
       (gen_contents_bin file_pre file_lines struct_dict parse_instruct proto_desc)"

definition handle_proto_bin ::
  "toolchain \<Rightarrow> string \<Rightarrow> gen_state \<Rightarrow> gen_state \<times> unit res" where
  "handle_proto_bin tc file_pre st = handle_proto_with tc (\<lambda>protos. gen_code_bin) file_pre st"

section \<open>What the generator emits\<close>

text \<open>The templates of each of the five shapes of a field and the values that go into them.\<close>

fun decl_template :: "field_kind \<Rightarrow> string" where
  "decl_template KStructVec = h_vec_field_bin"
| "decl_template KSimpleVec = h_vec_field_bin"
| "decl_template KStruct = h_single_field_bin"
| "decl_template KString = h_string_field_bin"
| "decl_template KSimple = h_single_field_bin"

fun encode_template :: "field_kind \<Rightarrow> string" where
  "encode_template KStructVec = cc_encode_struct_vec_field_bin"
| "encode_template KSimpleVec = cc_encode_simple_vec_field_bin"
| "encode_template KStruct = cc_encode_struct_field_bin"
| "encode_template KString = cc_encode_string_field_bin"
| "encode_template KSimple = cc_encode_simple_field_bin"

fun decode_template :: "field_kind \<Rightarrow> string" where
  "decode_template KStructVec = cc_decode_struct_vec_field_bin"
| "decode_template KSimpleVec = cc_decode_simple_vec_field_bin"
| "decode_template KStruct = cc_decode_struct_field_bin"
| "decode_template KString = cc_decode_string_field_bin"
| "decode_template KSimple = cc_decode_simple_field_bin"

fun decl_values :: "field_kind \<Rightarrow> string \<Rightarrow> string \<Rightarrow> string \<Rightarrow> (string \<times> string) list" where
  "decl_values KString ty n m = [(''field_upper'', py_upper n), (''field'', n), (''max'', m)]"
| "decl_values KStruct ty n m = [(''field_type'', ty), (''field'', n)]"
| "decl_values KSimple ty n m = [(''field_type'', ty), (''field'', n)]"
| "decl_values _ ty n m = [(''field_type'', ty), (''field'', n), (''field_upper'', py_upper n),
     (''field_first_up'', first2upper n), (''max'', m)]"

fun encode_values :: "field_kind \<Rightarrow> string \<Rightarrow> (string \<times> string) list" where
  "encode_values KStruct n = [(''field'', n)]"
| "encode_values KSimple n = [(''field'', n)]"
| "encode_values _ n = [(''field'', n), (''field_upper'', py_upper n)]"

fun decode_values :: "field_kind \<Rightarrow> string \<Rightarrow> (string \<times> string) list" where
  "decode_values KStructVec n = [(''field'', n), (''field_upper'', py_upper n)]"
| "decode_values KSimpleVec n = [(''field'', n), (''field_upper'', py_upper n)]"
| "decode_values _ n = [(''field'', n)]"

definition decl_text :: "string list \<Rightarrow> struct_dict \<Rightarrow> string \<Rightarrow> field_desc \<Rightarrow> string" where
  "decl_text ls d c f =
     replaces (decl_template (field_kind f))
       (decl_values (field_kind f) (prototype2ctype f) (fd_name f) (field_max ls d c f))"

definition encode_text :: "field_desc \<Rightarrow> string" where
  "encode_text f = replaces (encode_template (field_kind f)) (encode_values (field_kind f) (fd_name f))"

definition decode_text :: "field_desc \<Rightarrow> string" where
  "decode_text f = replaces (decode_template (field_kind f)) (decode_values (field_kind f) (fd_name f))"

lemmas field_text_defs = decl_text_def encode_text_def decode_text_def

lemma gen_field_bin_handled:
  assumes "field_handled ls d c f"
  shows "gen_field_bin ls d c acc f = Inr (app3 acc (decl_text ls d c f, encode_text f, decode_text f))"
proof -
  obtain a b e where acc: "acc = (a, b, e)" by (cases acc)
  have ty: "prototype2ctype f \<noteq> []" using assms by (simp add: field_handled_def)
  show ?thesis
  proof (cases "needs_max f")
    case True
    with assms obtain m k where "find_field_opt c (fd_name f) ls d = Inr (Some (m, k))"
      by (auto simp: field_handled_def)
    with assms ty True acc show ?thesis
      by (auto simp: gen_field_bin_def field_text_defs field_kind_def needs_max_def field_max_def
          field_handled_def unpack_opt_def Let_def split: if_splits)
  next
    case False
    with ty acc show ?thesis
      by (auto simp: gen_field_bin_def field_text_defs field_kind_def needs_max_def Let_def
          split: if_splits)
  qed
qed

lemma gen_field_bin_refused:
  assumes "\<not> field_handled ls d c f"
  shows "\<exists>e. gen_field_bin ls d c acc f = Inl e"
proof (cases "gen_field_bin ls d c acc f")
  case (Inr r)
  then have "field_handled ls d c f"
    by (auto simp: gen_field_bin_def field_handled_def field_kind_def needs_max_def Let_def
        res_simps split: if_splits prod.splits)
  with assms show ?thesis by simp
qed simp

interpretation bin_fields: emit_loop "gen_field_bin ls d c" "field_handled ls d c"
  "\<lambda>f. (decl_text ls d c f, encode_text f, decode_text f)" app3 for ls d c
  by unfold_locales (simp_all add: gen_field_bin_handled gen_field_bin_refused)

definition message_handled :: "string list \<Rightarrow> struct_dict \<Rightarrow> msg_desc \<Rightarrow> bool" where
  "message_handled ls d m \<longleftrightarrow> (\<forall>f \<in> set (md_field m). field_handled ls d (md_name m) f)"

definition struct_text :: "string list \<Rightarrow> struct_dict \<Rightarrow> string \<Rightarrow> msg_desc \<Rightarrow> string" where
  "struct_text ls d ns m =
     replaces h_class_begin_bin [(''class_name'', md_name m)]
     @ concat (map (decl_text ls d (md_name m)) (md_field m))
     @ replaces h_class_end_bin [(''class_name'', md_name m), (''ns'', ns)]"

text \<open>Both functions of a message handle its fields in the order of the descriptor.\<close>

definition codec_text :: "string \<Rightarrow> msg_desc \<Rightarrow> string" where
  "codec_text ns m =
     replaces cc_encode_begin_bin [(''ns'', ns), (''class_name'', md_name m)]
     @ concat (map encode_text (md_field m)) @ cc_encode_end_bin
     @ replaces cc_decode_begin_bin [(''ns'', ns), (''class_name'', md_name m)]
     @ concat (map decode_text (md_field m)) @ code_decode_end_bin"

lemma gen_message_bin_eq:
  "gen_message_bin ls d ns acc m = Inr r \<longleftrightarrow>
     message_handled ls d m \<and> r = app2 acc (struct_text ls d ns m, codec_text ns m)"
proof -
  obtain h c where acc: "acc = (h, c)" by (cases acc)
  show ?thesis
    unfolding gen_message_bin_def acc Let_def
    by (auto simp: bindR_Inr_iff bin_fields.loop_iff message_handled_def foldl_app3
        struct_text_def codec_text_def comp_def)
qed

interpretation bin_messages: emit_loop "gen_message_bin ls d ns" "message_handled ls d"
  "\<lambda>m. (struct_text ls d ns m, codec_text ns m)" app2 for ls d ns
proof unfold_locales
  fix m acc
  show "message_handled ls d m \<Longrightarrow>
      gen_message_bin ls d ns acc m = Inr (app2 acc (struct_text ls d ns m, codec_text ns m))"
    using gen_message_bin_eq by blast
  show "\<not> message_handled ls d m \<Longrightarrow> \<exists>e. gen_message_bin ls d ns acc m = Inl e"
    using gen_message_bin_eq [of ls d ns acc m] by (cases "gen_message_bin ls d ns acc m") auto
qed

definition header_text_bin :: "string \<Rightarrow> string list \<Rightarrow> struct_dict \<Rightarrow> string \<Rightarrow> file_desc \<Rightarrow> string" where
  "header_text_bin ns ls d file_pre p =
     replaces h_begin_bin [(''macro'', guard_macro ns file_pre), (''file_pre'', file_pre)]
     @ concat (map (\<lambda>inc. replaces h_include_bin [(''file_pre'', inc_pre inc)]) (fl_dependency p))
     @ replaces h_ns_begin_bin [(''ns'', ns)]
     @ concat (map (struct_text ls d ns) (fl_message_type p))
     @ replaces h_end_bin [(''ns'', ns), (''macro'', guard_macro ns file_pre)]"

definition source_text_bin :: "string \<Rightarrow> string \<Rightarrow> file_desc \<Rightarrow> string" where
  "source_text_bin ns file_pre p =
     replaces cc_begin_bin [(''file_pre'', file_pre)] @ concat (map (codec_text ns) (fl_message_type p))"

lemma gen_contents_bin_iff:
  "gen_contents_bin file_pre ls d ins p = Inr (h, c) \<longleftrightarrow>
     2 \<le> length ins \<and>
     (\<exists>ns rest. py_split ''.'' (fl_package p) = ''Proto'' # ns # rest \<and>
        (\<forall>m \<in> set (fl_message_type p). message_handled ls d m) \<and>
        h = header_text_bin ns ls d file_pre p \<and> c = source_text_bin ns file_pre p)"
proof (cases "py_split ''.'' (fl_package p)")
  case Nil
  then show ?thesis by simp
next
  case (Cons n0 r)
  then show ?thesis
    by (cases r)
      (auto simp: gen_contents_bin_def g_proto_ns_def bindR_Inr_iff bin_messages.loop_iff foldl_app2
        header_text_bin_def source_text_bin_def guard_macro_def comp_def Let_def list_all_iff split: if_splits)
qed

text \<open>
  C1: \<open>gen_code\<close> of \<open>proto2bin.py\<close> produces output exactly when the proto file has at least
  two instruction lines, its package is \<open>Proto.<ns>\<close>, and every field of every message has a
  supported type, is no array of strings, and has a size annotation where it is an array or
  a string; the output then consists of one struct per message in the order of the
  descriptor, and \<open>Encode\<close> and \<open>Decode\<close> handle the fields in the same order.
\<close>

theorem gen_contents_bin_spec:
  "gen_contents_bin file_pre ls d ins p = Inr (h, c) \<longleftrightarrow>
     2 \<le> length ins \<and>
     (\<exists>ns rest. py_split ''.'' (fl_package p) = ''Proto'' # ns # rest \<and>
        list_all (message_handled ls d) (fl_message_type p) \<and>
        h = header_text_bin ns ls d file_pre p \<and> c = source_text_bin ns file_pre p)"
  by (simp add: gen_contents_bin_iff list_all_iff)

section \<open>No placeholder is left\<close>

lemmas bin_dollar_free = tmpl_oks [THEN replaces_dollar_free]

lemma field_texts_dollar_free:
  assumes "field_names_ok f" "dollar_free (field_max ls d c f)"
  shows "dollar_free (decl_text ls d c f)" "dollar_free (encode_text f)" "dollar_free (decode_text f)"
  using assms unfolding field_text_defs
  by (cases "field_kind f";
      auto intro!: bin_dollar_free simp: field_names_ok_def dollar_free_first2upper dollar_free_ctype)+

lemma message_texts_dollar_free:
  assumes "dollar_free ns" "dollar_free (md_name m)" "list_all field_names_ok (md_field m)"
    and "\<And>l. l \<in> set ls \<Longrightarrow> dollar_free l"
  shows "dollar_free (struct_text ls d ns m)" "dollar_free (codec_text ns m)"
proof -
  have f: "dollar_free (decl_text ls d (md_name m) f) \<and> dollar_free (encode_text f) \<and> dollar_free (decode_text f)"
    if "f \<in> set (md_field m)" for f
    using that assms(3,4) by (intro conjI field_texts_dollar_free dollar_free_max) (auto simp: list_all_iff)
  have e: "dollar_free cc_encode_end_bin" "dollar_free code_decode_end_bin"
    using replaces_dollar_free [OF cc_encode_end_bin_ok, of "[]"]
      replaces_dollar_free [OF code_decode_end_bin_ok, of "[]"] by (simp_all add: replaces_simps)
  show "dollar_free (struct_text ls d ns m)"
    unfolding struct_text_def
    using assms f by (auto intro!: bin_dollar_free dollar_free_concat)
  show "dollar_free (codec_text ns m)"
    unfolding codec_text_def
    using assms f e by (auto intro!: bin_dollar_free dollar_free_concat)
qed

text \<open>
  every placeholder of every template is substituted: when the names in the descriptor
  and the proto file's text have no dollar sign, neither generated file has one.
\<close>

theorem gen_contents_bin_no_placeholder:
  assumes "gen_contents_bin file_pre ls d ins p = Inr (h, c)"
    and "file_names_ok p" "dollar_free file_pre" "list_all dollar_free ls"
  shows "dollar_free h \<and> dollar_free c"
proof -
  from assms(1) obtain ns rest where out: "py_split ''.'' (fl_package p) = ''Proto'' # ns # rest"
      "h = header_text_bin ns ls d file_pre p" "c = source_text_bin ns file_pre p"
    by (auto simp: gen_contents_bin_iff)
  have ns: "dollar_free ns"
    using out(1) assms(2) by (intro dollar_free_py_split [of ns "''.''" "fl_package p"]) (auto simp: file_names_ok_def)
  have m: "dollar_free (struct_text ls d ns m) \<and> dollar_free (codec_text ns m)"
    if "m \<in> set (fl_message_type p)" for m
    using that assms(2,4) ns by (intro conjI message_texts_dollar_free) (auto simp: file_names_ok_def list_all_iff)
  have i: "dollar_free (inc_pre inc)" if "inc \<in> set (fl_dependency p)" for inc
    using that assms(2) by (auto intro: dollar_free_inc_pre simp: file_names_ok_def list_all_iff)
  have g: "dollar_free (guard_macro ns file_pre)" using ns assms(3) by (simp add: guard_macro_def)
  show ?thesis
    unfolding out(2,3) header_text_bin_def source_text_bin_def
    using ns assms(3) m i g by (auto intro!: bin_dollar_free dollar_free_concat)
qed

definition sample_lines :: "string list" where
  "sample_lines =
     [''message User {'' @ [newline], ''  int32 id = 1;'' @ [newline],
      ''  string nick_name = 2; // |gen|max|20|'' @ [newline], ''}'' @ [newline]]"

definition sample_desc :: file_desc where
  "sample_desc =
     \<lparr>fl_package = ''Proto.game'', fl_dependency = [''base.proto''],
      fl_message_type =
        [\<lparr>md_name = ''User'',
          md_field =
            [\<lparr>fd_name = ''id'', fd_type = TYPE_INT32, fd_label = LABEL_OPTIONAL, fd_type_name = []\<rparr>,
             \<lparr>fd_name = ''nick_name'', fd_type = TYPE_STRING, fd_label = LABEL_OPTIONAL,
              fd_type_name = []\<rparr>]\<rparr>]\<rparr>"

lemma sample_field_opt:
  "find_field_opt ''User'' ''nick_name'' sample_lines [''User'' \<mapsto> [1, 4]] = Inr (Some (''20'', False))"
  by code_simp

lemma sample_handled:
  "\<forall>m \<in> set (fl_message_type sample_desc). message_handled sample_lines [''User'' \<mapsto> [1, 4]] m"
  using sample_field_opt
  by (auto simp: sample_desc_def message_handled_def field_handled_def prototype2ctype_def
      needs_max_def field_kind_def)

lemma sample_output:
  "\<exists>h c. gen_contents_bin ''user'' sample_lines [''User'' \<mapsto> [1, 4]] [''//gen_begin'', ''x''] sample_desc
           = Inr (h, c)"
proof -
  have "py_split ''.'' (fl_package sample_desc) = ''Proto'' # ''game'' # []" by code_simp
  then show ?thesis using sample_handled by (simp add: gen_contents_bin_iff)
qed

theorem gen_contents_bin_no_placeholder_witness:
  "\<exists>h c. gen_contents_bin ''user'' sample_lines [''User'' \<mapsto> [1, 4]] [''//gen_begin'', ''x''] sample_desc
           = Inr (h, c) \<and> dollar_free h \<and> dollar_free c"
proof -
  from sample_output obtain h c where out:
    "gen_contents_bin ''user'' sample_lines [''User'' \<mapsto> [1, 4]] [''//gen_begin'', ''x''] sample_desc
       = Inr (h, c)" by blast
  have "file_names_ok sample_desc" by code_simp
  moreover have "list_all dollar_free sample_lines" by code_simp
  ultimately have "dollar_free h \<and> dollar_free c"
    using gen_contents_bin_no_placeholder [OF out] by simp
  with out show ?thesis by blast
qed

section \<open>Effect on the files\<close>

text \<open>
  C37: \<open>gen_code\<close> opens both output files before it checks anything: unless the system refuses
  to open them, afterwards they hold the generated texts, or, when the generator stopped
  early or raised, both are empty; no other file is touched.
\<close>

theorem gen_code_bin_files:
  assumes "fs_deny f (file_pre @ ''_binpack.h'') = None" "fs_deny f (file_pre @ ''_binpack.cpp'') = None"
    and "file_pre @ ''_binpack.h'' \<notin> fs_dirs f" "file_pre @ ''_binpack.cpp'' \<notin> fs_dirs f"
    and "gen_code_bin file_pre ls d ins p f = (f', r)"
  shows "fs_files f' = (fs_files f)
      (file_pre @ ''_binpack.h'' \<mapsto>
         (case gen_contents_bin file_pre ls d ins p of Inr (h, c) \<Rightarrow> h | Inl _ \<Rightarrow> []),
       file_pre @ ''_binpack.cpp'' \<mapsto>
         (case gen_contents_bin file_pre ls d ins p of Inr (h, c) \<Rightarrow> c | Inl _ \<Rightarrow> []))"
  using assms unfolding gen_code_bin_def
  by (auto simp: write_pair_def open_w_def file_write_def split: sum.splits stop.splits prod.splits)

theorem gen_code_bin_files_witness:
  "\<exists>f' r. gen_code_bin ''user'' [] Map.empty [] sample_desc
       \<lparr>fs_dirs = {}, fs_files = [''user_binpack.h'' \<mapsto> ''old''], fs_deny = Map.empty\<rparr> = (f', r) \<and>
     fs_files f' ''user_binpack.h'' = Some []"
proof -
  let ?f = "\<lparr>fs_dirs = {}, fs_files = [''user_binpack.h'' \<mapsto> ''old''], fs_deny = Map.empty\<rparr>"
  obtain f' r where out: "gen_code_bin ''user'' [] Map.empty [] sample_desc ?f = (f', r)"
    by (cases "gen_code_bin ''user'' [] Map.empty [] sample_desc ?f")
  have "gen_contents_bin ''user'' [] Map.empty [] sample_desc = Inl Return"
    by (simp add: gen_contents_bin_def)
  with gen_code_bin_files [OF _ _ _ _ out] out show ?thesis by simp
qed

end
