(* ===== verification/Obj_Templates.thy ===== *)
theory Obj_Templates
  imports Templates
begin

text \<open>
  The templates of \<open>src/tools/proto2obj4pb.py\<close>, as the file has them, and the test that each
  is a well-formed template over the holes listed.
\<close>

section \<open>Templates of the object generator\<close>

definition h_begin_obj :: string where
  \<open>h_begin_obj = join_lines
    [[],
     ''#ifndef $$macro$$'',
     ''#define $$macro$$'',
     [],
     ''#include <string>'',
     ''using std::string;'',
     [],
     ''#include "$$file_pre$$.pb.h"'',
     []]\<close>

definition h_include_obj :: string where
  \<open>h_include_obj = join_lines
    [[],
     ''#include "$$file_pre$$.pb.h"'',
     ''#include "$$file_pre$$_rawdata.h"'',
     []]\<close>

definition h_ns_begin_obj :: string where
  \<open>h_ns_begin_obj = join_lines
    [[],
     ''namespace $$ns$$'',
     ''{'',
     []]\<close>

definition h_class_begin_obj :: string where
  \<open>h_class_begin_obj = join_lines
    [[],
     ''struct $$class_name$$ {'']\<close>

definition h_single_field_obj :: string where
  \<open>h_single_field_obj = join_lines
    [[],
     ''    // field $$field$$'',
     ''    $$field_type$$ $$field$$;'',
     []]\<close>

definition h_string_field_obj :: string where
  \<open>h_string_field_obj = join_lines
    [[],
     ''    // field $$field$$'',
     ''    static const uint32_t MAX_$$field_upper$$_SIZE = $$max$$;'',
     ''    char $$field$$[MAX_$$field_upper$$_SIZE + 1];'',
     ''    uint32_t $$field$$_size;'',
     [],
     ''    bool set_$$field$$(const char* input) {'',
     ''        if (nullptr == input ) { return false; }'',
     ''        uint32_t unreachable_len = MAX_$$field_upper$$_SIZE + 1;'',
     ''        uint32_t cur_len = strnlen(input, unreachable_len);'',
     ''        if ( cur_len >= unreachable_len) { return false;}'',
     [],
     ''        strncpy(this->$$field$$, input, cur_len);'',
     ''        this->$$field$$_size = cur_len;'',
     ''        this->$$field$$[cur_len] = '0';'',
     ''        return true;'',
     ''    }'',
     ''    bool set_$$field$$(const char* input, uint32_t len) {'',
     ''        if (nullptr == input ) { return false; }'',
     ''        if ( len >=  MAX_$$field_upper$$_SIZE + 1 ) { return false; }'',
     ''        strncpy(this->$$field$$, input, len);'',
     ''        this->$$field$$_size = len;'',
     ''        this->$$field$$[len] = '0';'',
     ''        return true;'',
     ''    }'',
     []]\<close>

definition h_vec_field_obj :: string where
  \<open>h_vec_field_obj = join_lines
    [[],
     ''    // field $$field$$'',
     ''    static const uint32_t MAX_$$field_upper$$_SIZE = $$max$$;'',
     ''    $$field_type$$ $$field$$[MAX_$$field_upper$$_SIZE];'',
     ''    uint32_t $$field$$_size;'',
     ''    // field $$field$$ opt func'',
     ''    bool Add$$field_first_up$$(const $$field_type$$& input);'',
     ''    $$field_type$$* Add$$field_first_up$$();'',
     ''    $$field_type$$* Find$$field_first_up$$ByIdx(uint32_t idx);'',
     ''    bool Del$$field_first_up$$ByIdx(const uint32_t idx);'',
     []]\<close>

definition h_vec_field_more_obj :: string where
  \<open>h_vec_field_more_obj = join_lines
    [''    $$field_type$$* Find$$field_first_up$$ByKey($$field_key_type$$ $$field_key_name$$);'',
     ''    bool Del$$field_first_up$$ByKey($$field_key_type$$ $$field_key_name$$);'',
     []]\<close>

definition h_class_end_obj :: string where
  \<open>h_class_end_obj = join_lines
    [[],
     ''    // encode & decode'',
     ''    bool ToProtobuf('',
     ''        Proto::$$ns$$::$$class_name$$* target) const;'',
     ''    bool FromProtobuf(const char* buf, size_t len);'',
     ''    bool FromProtobuf(const Proto::$$ns$$::$$class_name$$& input);'',
     ''};'']\<close>

definition h_end_obj :: string where
  \<open>h_end_obj = join_lines
    [[],
     [],
     ''} // namespace $$ns$$'',
     [],
     ''#endif  // $$macro$$'',
     []]\<close>

definition cc_begin_obj :: string where
  \<open>cc_begin_obj = join_lines
    [''#include "$$file_pre$$_rawdata.h"'',
     []]\<close>

definition cc_encode_begin_obj :: string where
  \<open>cc_encode_begin_obj = join_lines
    [[],
     ''bool $$ns$$::$$class_name$$::ToProtobuf('',
     ''    Proto::$$ns$$::$$class_name$$* target) const {'',
     ''    if (nullptr == target) {'',
     ''        return false;'',
     ''    }'']\<close>

definition cc_encode_simple_field_obj :: string where
  \<open>cc_encode_simple_field_obj = join_lines
    [[],
     ''    target->set_$$field$$(this->$$field$$);'',
     []]\<close>

definition cc_encode_struct_field_obj :: string where
  \<open>cc_encode_struct_field_obj = join_lines
    [[],
     ''    if ( !this->$$field$$.ToProtobuf(target->mutable_$$field$$()) ) {'',
     ''        return false;'',
     ''    }'',
     []]\<close>

definition cc_encode_string_field_obj :: string where
  \<open>cc_encode_string_field_obj = join_lines
    [[],
     ''    target->set_$$field$$(this->$$field$$, this->$$field$$_size);'',
     []]\<close>

definition cc_encode_simple_vec_field_obj :: string where
  \<open>cc_encode_simple_vec_field_obj = join_lines
    [[],
     ''    for (uint32_t idx = 0; idx < this->$$field$$_size; ++idx) {'',
     ''        target->add_$$field$$(this->$$field$$[idx]);'',
     ''    }'',
     []]\<close>

definition cc_encode_struct_vec_field_obj :: string where
  \<open>cc_encode_struct_vec_field_obj = join_lines
    [[],
     ''    for (uint32_t idx = 0; idx < this->$$field$$_size; ++idx) {'',
     ''        auto new_$$field$$ = target->add_$$field$$();'',
     ''        if (nullptr == new_$$field$$) {'',
     ''            return false;'',
     ''        }'',
     ''        if (!this->$$field$$[idx].ToProtobuf(new_$$field$$)) {'',
     ''            return false;'',
     ''        }'',
     ''    }'',
     []]\<close>

definition cc_encode_end_obj :: string where
  \<open>cc_encode_end_obj = join_lines
    [''   '',
     ''    return true;'',
     ''}'',
     []]\<close>

definition cc_decode_begin_obj :: string where
  \<open>cc_decode_begin_obj = join_lines
    [[],
     ''bool $$ns$$::$$class_name$$::FromProtobuf(const char* buf, size_t len) {'',
     ''    Proto::$$ns$$::$$class_name$$ input;'',
     ''    if (!input.ParseFromArray(buf, len)){'',
     ''        return false;'',
     ''    }'',
     [],
     ''    return FromProtobuf(input);'',
     ''}'',
     [],
     ''bool $$ns$$::$$class_name$$::FromProtobuf(const Proto::$$ns$$::$$class_name$$& input)'',
     ''{'']\<close>

definition cc_decode_struct_vec_field_obj :: string where
  \<open>cc_decode_struct_vec_field_obj = join_lines
    [[],
     ''    auto cur_$$field$$_size = static_cast<uint32_t>(input.$$field$$_size());'',
     ''    if ( cur_$$field$$_size  > MAX_$$field_upper$$_SIZE ) {'',
     ''        return false;'',
     ''    }'',
     ''    this->$$field$$_size = cur_$$field$$_size;'',
     ''    for (uint32_t idx = 0; idx < cur_$$field$$_size; ++idx) {'',
     ''        if ( !this->$$field$$[idx].FromProtobuf(input.$$field$$(idx))){'',
     ''            return false;'',
     ''        }'',
     ''    }'',
     []]\<close>

definition cc_decode_simple_vec_field_obj :: string where
  \<open>cc_decode_simple_vec_field_obj = join_lines
    [[],
     ''    auto cur_$$field$$_size = static_cast<uint32_t>(input.$$field$$_size());'',
     ''    if ( cur_$$field$$_size  > MAX_$$field_upper$$_SIZE ) {'',
     ''        return false;'',
     ''    }'',
     ''    this->$$field$$_size = cur_$$field$$_size;'',
     ''    for (uint32_t idx = 0; idx < cur_$$field$$_size; ++idx) {'',
     ''        this->$$field$$[idx] = input.$$field$$(idx);'',
     ''    }'',
     []]\<close>

definition cc_decode_simple_field_obj :: string where
  \<open>cc_decode_simple_field_obj = join_lines
    [[],
     ''    this->$$field$$ = input.$$field$$();'',
     []]\<close>

definition cc_decode_string_field_obj :: string where
  \<open>cc_decode_string_field_obj = join_lines
    [[],
     ''    this->set_$$field$$(input.$$field$$().c_str(), input.$$field$$().size());'',
     []]\<close>

definition cc_decode_struct_field_obj :: string where
  \<open>cc_decode_struct_field_obj = join_lines
    [[],
     ''    if ( !this->$$field$$.FromProtobuf( input.$$field$$() ) ) {'',
     ''        return false;'',
     ''    }'',
     []]\<close>

definition code_decode_end_obj :: string where
  \<open>code_decode_end_obj = join_lines
    [[],
     ''    return true;'',
     ''}'',
     []]\<close>

definition cc_opt_func_obj :: string where
  \<open>cc_opt_func_obj = join_lines
    [[],
     ''$$field_type$$* $$ns$$::$$class_name$$::Add$$field_first_up$$(){'',
     ''    if ($$field$$_size >= MAX_$$field_upper$$_SIZE) {'',
     ''        return nullptr;'',
     ''    }'',
     ''    $$field$$_size++;'',
     ''    return &($$field$$[$$field$$_size-1]);'',
     ''}'',
     [],
     ''bool $$ns$$::$$class_name$$::Add$$field_first_up$$(const $$field_type$$& input) {'',
     ''    if ($$field$$_size >= MAX_$$field_upper$$_SIZE) {'',
     ''        return false;'',
     ''    }'',
     ''    $$field$$[$$field$$_size] = input;'',
     ''    $$field$$_size++;'',
     ''    return true;'',
     ''}'',
     [],
     ''$$field_type$$* $$ns$$::$$class_name$$::Find$$field_first_up$$ByIdx(uint32_t idx) {'',
     ''    if (idx >= $$field$$_size) {'',
     ''        return nullptr;'',
     ''    }'',
     ''    return &($$field$$[idx]);'',
     ''}'',
     ''    '',
     ''bool $$ns$$::$$class_name$$::Del$$field_first_up$$ByIdx(const uint32_t idx) {'',
     ''    if (idx >= $$field$$_size) {'',
     ''        return false;'',
     ''    }'',
     ''    if (idx == $$field$$_size - 1) {'',
     ''        $$field$$_size--;'',
     ''        return true;'',
     ''    }'',
     [],
     ''    char* dest = reinterpret_cast<char*>(&$$field$$[idx]);'',
     ''    const char* src = reinterpret_cast<char*>(&$$field$$[idx+1]);'',
     ''    const char* end = reinterpret_cast<char*>(&$$field$$[$$field$$_size]);'',
     ''    memcpy(dest, src, end - src);'',
     ''    $$field$$_size--;'',
     ''    return true;'',
     ''}'',
     []]\<close>

definition cc_additional_opt_func_obj :: string where
  \<open>cc_additional_opt_func_obj = join_lines
    [[],
     ''$$field_type$$* $$ns$$::$$class_name$$::Find$$field_first_up$$ByKey($$field_key_type$$ $$field_key_name$$) {'',
     ''    for (uint32_t idx = 0; idx < $$field$$_size; ++idx) {'',
     ''        if ($$field$$[idx].$$field_key_name$$ == $$field_key_name$$) {'',
     ''            return &($$field$$[idx]);'',
     ''        }'',
     ''    }'',
     ''    return nullptr;'',
     ''}'',
     [],
     ''bool $$ns$$::$$class_name$$::Del$$field_first_up$$ByKey($$field_key_type$$ $$field_key_name$$) {'',
     ''    for (uint32_t idx = 0; idx < $$field$$_size; ++idx) {'',
     ''        if ($$field$$[idx].$$field_key_name$$ == $$field_key_name$$) {'',
     ''            return Del$$field_first_up$$ByIdx(idx);'',
     ''        }'',
     ''    }'',
     ''    return false;'',
     ''}'',
     []]\<close>

section \<open>Their holes\<close>

lemma h_begin_obj_ok [tmpl_oks]: "tmpl_ok {''macro'', ''file_pre''} h_begin_obj"
  unfolding h_begin_obj_def by (rule tmpl_ok_lines) code_simp

lemma h_include_obj_ok [tmpl_oks]: "tmpl_ok {''file_pre''} h_include_obj"
  unfolding h_include_obj_def by (rule tmpl_ok_lines) code_simp

lemma h_ns_begin_obj_ok [tmpl_oks]: "tmpl_ok {''ns''} h_ns_begin_obj"
  unfolding h_ns_begin_obj_def by (rule tmpl_ok_lines) code_simp

lemma h_class_begin_obj_ok [tmpl_oks]: "tmpl_ok {''class_name''} h_class_begin_obj"
  unfolding h_class_begin_obj_def by (rule tmpl_ok_lines) code_simp

lemma h_single_field_obj_ok [tmpl_oks]: "tmpl_ok {''field'', ''field_type''} h_single_field_obj"
  unfolding h_single_field_obj_def by (rule tmpl_ok_lines) code_simp

lemma h_string_field_obj_ok [tmpl_oks]: "tmpl_ok {''field'', ''field_upper'', ''max''} h_string_field_obj"
  unfolding h_string_field_obj_def by (rule tmpl_ok_lines) code_simp

lemma h_vec_field_obj_ok [tmpl_oks]: "tmpl_ok {''field'', ''field_upper'', ''max'', ''field_type'', ''field_first_up''} h_vec_field_obj"
  unfolding h_vec_field_obj_def by (rule tmpl_ok_lines) code_simp

lemma h_vec_field_more_obj_ok [tmpl_oks]: "tmpl_ok {''field_type'', ''field_first_up'', ''field_key_type'', ''field_key_name''} h_vec_field_more_obj"
  unfolding h_vec_field_more_obj_def by (rule tmpl_ok_lines) code_simp

lemma h_class_end_obj_ok [tmpl_oks]: "tmpl_ok {''ns'', ''class_name''} h_class_end_obj"
  unfolding h_class_end_obj_def by (rule tmpl_ok_lines) code_simp

lemma h_end_obj_ok [tmpl_oks]: "tmpl_ok {''ns'', ''macro''} h_end_obj"
  unfolding h_end_obj_def by (rule tmpl_ok_lines) code_simp

lemma cc_begin_obj_ok [tmpl_oks]: "tmpl_ok {''file_pre''} cc_begin_obj"
  unfolding cc_begin_obj_def by (rule tmpl_ok_lines) code_simp

lemma cc_encode_begin_obj_ok [tmpl_oks]: "tmpl_ok {''ns'', ''class_name''} cc_encode_begin_obj"
  unfolding cc_encode_begin_obj_def by (rule tmpl_ok_lines) code_simp

lemma cc_encode_simple_field_obj_ok [tmpl_oks]: "tmpl_ok {''field''} cc_encode_simple_field_obj"
  unfolding cc_encode_simple_field_obj_def by (rule tmpl_ok_lines) code_simp

lemma cc_encode_struct_field_obj_ok [tmpl_oks]: "tmpl_ok {''field''} cc_encode_struct_field_obj"
  unfolding cc_encode_struct_field_obj_def by (rule tmpl_ok_lines) code_simp

lemma cc_encode_string_field_obj_ok [tmpl_oks]: "tmpl_ok {''field''} cc_encode_string_field_obj"
  unfolding cc_encode_string_field_obj_def by (rule tmpl_ok_lines) code_simp

lemma cc_encode_simple_vec_field_obj_ok [tmpl_oks]: "tmpl_ok {''field''} cc_encode_simple_vec_field_obj"
  unfolding cc_encode_simple_vec_field_obj_def by (rule tmpl_ok_lines) code_simp

lemma cc_encode_struct_vec_field_obj_ok [tmpl_oks]: "tmpl_ok {''field''} cc_encode_struct_vec_field_obj"
  unfolding cc_encode_struct_vec_field_obj_def by (rule tmpl_ok_lines) code_simp

lemma cc_encode_end_obj_ok [tmpl_oks]: "tmpl_ok {} cc_encode_end_obj"
  unfolding cc_encode_end_obj_def by (rule tmpl_ok_lines) code_simp

lemma cc_decode_begin_obj_ok [tmpl_oks]: "tmpl_ok {''ns'', ''class_name''} cc_decode_begin_obj"
  unfolding cc_decode_begin_obj_def by (rule tmpl_ok_lines) code_simp

lemma cc_decode_struct_vec_field_obj_ok [tmpl_oks]: "tmpl_ok {''field'', ''field_upper''} cc_decode_struct_vec_field_obj"
  unfolding cc_decode_struct_vec_field_obj_def by (rule tmpl_ok_lines) code_simp

lemma cc_decode_simple_vec_field_obj_ok [tmpl_oks]: "tmpl_ok {''field'', ''field_upper''} cc_decode_simple_vec_field_obj"
  unfolding cc_decode_simple_vec_field_obj_def by (rule tmpl_ok_lines) code_simp

lemma cc_decode_simple_field_obj_ok [tmpl_oks]: "tmpl_ok {''field''} cc_decode_simple_field_obj"
  unfolding cc_decode_simple_field_obj_def by (rule tmpl_ok_lines) code_simp

lemma cc_decode_string_field_obj_ok [tmpl_oks]: "tmpl_ok {''field''} cc_decode_string_field_obj"
  unfolding cc_decode_string_field_obj_def by (rule tmpl_ok_lines) code_simp

lemma cc_decode_struct_field_obj_ok [tmpl_oks]: "tmpl_ok {''field''} cc_decode_struct_field_obj"
  unfolding cc_decode_struct_field_obj_def by (rule tmpl_ok_lines) code_simp

lemma code_decode_end_obj_ok [tmpl_oks]: "tmpl_ok {} code_decode_end_obj"
  unfolding code_decode_end_obj_def by (rule tmpl_ok_lines) code_simp

lemma cc_opt_func_obj_ok [tmpl_oks]: "tmpl_ok {''field_type'', ''ns'', ''class_name'', ''field_first_up'', ''field'', ''field_upper''} cc_opt_func_obj"
  unfolding cc_opt_func_obj_def by (rule tmpl_ok_lines) code_simp

lemma cc_additional_opt_func_obj_ok [tmpl_oks]: "tmpl_ok {''field_type'', ''ns'', ''class_name'', ''field_first_up'', ''field_key_type'', ''field_key_name'', ''field''} cc_additional_opt_func_obj"
  unfolding cc_additional_opt_func_obj_def by (rule tmpl_ok_lines) code_simp

end
