(* ===== verification/Proto2obj.thy ===== *)
theory Proto2obj
  imports Obj_Templates Proto_Driver
begin

text \<open>
  \<open>gen_code\<close> and \<open>handle_proto\<close> of \<open>src/tools/proto2obj4pb.py\<close>: structs with conversions to
  and from protobuf messages and, for arrays, functions that add, find and delete elements.
\<close>

section \<open>The generator\<close>

text \<open>\<open>prototype2ctype(None)\<close> raises \<open>AttributeError\<close>.\<close>

definition key_field :: "file_desc list \<Rightarrow> string \<Rightarrow> field_desc res" where
  "key_field protos field_type =
     bindR (find_key_info protos field_type) (\<lambda>r.
       case r of None \<Rightarrow> Inl AttributeError | Some k \<Rightarrow> Inr k)"

lemma key_field_Inr_iff [simp, res_simps]:
  "key_field protos ty = Inr k \<longleftrightarrow> find_key_info protos ty = Inr (Some k)"
  by (auto simp: key_field_def bindR_Inr_iff split: option.splits)

text \<open>One pass of the field loop over (declaration, array functions, encode, decode).\<close>

definition gen_field_obj ::
  "file_desc list \<Rightarrow> string list \<Rightarrow> struct_dict \<Rightarrow> string \<Rightarrow> string
     \<Rightarrow> string \<times> string \<times> string \<times> string \<Rightarrow> field_desc
     \<Rightarrow> stop + string \<times> string \<times> string \<times> string" where
  "gen_field_obj protos file_lines struct_dict namespace class_name acc field =
     (case acc of (h_declare_content, cc_opt_content, cc_encode_content, cc_decode_content) \<Rightarrow>
      let field_type = prototype2ctype field in
      if [] = field_type then Inl Return
      else
        let field_name = fd_name field;
            field_upper = py_upper field_name;
            field_first_up = first2upper field_name in
        if fd_label field = LABEL_REPEATED then
          bindR (raising (unpack_opt (find_field_opt class_name field_name file_lines struct_dict)))
            (\<lambda>(field_max, gen_keyopt).
              bindR
                (if fd_type field = TYPE_MESSAGE then
                   Inr (cc_encode_content @ replaces cc_encode_struct_vec_field_obj
                          [(''field'', field_name)],
                        cc_decode_content @ replaces cc_decode_struct_vec_field_obj
                          [(''field'', field_name), (''field_upper'', field_upper)])
                 else if fd_type field = TYPE_STRING then Inl Return
                 else
                   Inr (cc_encode_content @ replaces cc_encode_simple_vec_field_obj
                          [(''field'', field_name)],
                        cc_decode_content @ replaces cc_decode_simple_vec_field_obj
                          [(''field'', field_name), (''field_upper'', field_upper)]))
                (\<lambda>(cc_encode_content, cc_decode_content).
                  let h_declare_content = h_declare_content @ replaces h_vec_field_obj
                        [(''field_type'', field_type), (''field'', field_name),
                         (''field_upper'', field_upper), (''field_first_up'', field_first_up),
                         (''max'', field_max)];
                      cc_opt_content = cc_opt_content @ replaces cc_opt_func_obj
                        [(''field_type'', field_type), (''field'', field_name), (''ns'', namespace),
                         (''class_name'', class_name), (''field_first_up'', field_first_up),
                         (''field_upper'', field_upper)]
                  in if gen_keyopt then
                       bindR (raising (key_field protos field_type)) (\<lambda>key_field_info.
                         let field_key_type = prototype2ctype key_field_info;
                             field_key_name = fd_name key_field_info in
                         Inr (h_declare_content @ replaces h_vec_field_more_obj
                                [(''field_type'', field_type), (''field_first_up'', field_first_up),
                                 (''field_key_type'', field_key_type),
                                 (''field_key_name'', field_key_name)],
                              cc_opt_content @ replaces cc_additional_opt_func_obj
                                [(''field_type'', field_type), (''field'', field_name),
                                 (''ns'', namespace), (''class_name'', class_name),
                                 (''field_first_up'', field_first_up), (''field_upper'', field_upper),
                                 (''field_key_type'', field_key_type),
                                 (''field_key_name'', field_key_name)],
                              cc_encode_content, cc_decode_content))
                     else Inr (h_declare_content, cc_opt_content, cc_encode_content, cc_decode_content)))
        else if fd_type field = TYPE_MESSAGE then
          Inr (h_declare_content @ replaces h_single_field_obj
                 [(''field_type'', field_type), (''field'', field_name)],
               cc_opt_content,
               cc_encode_content @ replaces cc_encode_struct_field_obj [(''field'', field_name)],
               cc_decode_content @ replaces cc_decode_struct_field_obj [(''field'', field_name)])
        else if fd_type field = TYPE_STRING then
          bindR (raising (unpack_opt (find_field_opt class_name field_name file_lines struct_dict)))
            (\<lambda>(field_max, gen_keyopt).
              Inr (h_declare_content @ replaces h_string_field_obj
                     [(''field_upper'', field_upper), (''field'', field_name), (''max'', field_max)],
                   cc_opt_content,
                   cc_encode_content @ replaces cc_encode_string_field_obj [(''field'', field_name)],
                   cc_decode_content @ replaces cc_decode_string_field_obj [(''field'', field_name)]))
        else
          Inr (h_declare_content @ replaces h_single_field_obj
                 [(''field_type'', field_type), (''field'', field_name)],
               cc_opt_content,
               cc_encode_content @ replaces cc_encode_simple_field_obj [(''field'', field_name)],
               cc_decode_content @ replaces cc_decode_simple_field_obj [(''field'', field_name)]))"

definition gen_message_obj ::
  "file_desc list \<Rightarrow> string list \<Rightarrow> struct_dict \<Rightarrow> string \<Rightarrow> string \<times> string \<Rightarrow> msg_desc
     \<Rightarrow> stop + string \<times> string" where
  "gen_message_obj protos file_lines struct_dict namespace acc msg_type =
     (case acc of (h_content, cc_content) \<Rightarrow>
      let class_name = md_name msg_type in
      bindR (foldR (gen_field_obj protos file_lines struct_dict namespace class_name)
               (replaces h_class_begin_obj [(''class_name'', class_name)], [],
                replaces cc_encode_begin_obj [(''ns'', namespace), (''class_name'', class_name)],
                replaces cc_decode_begin_obj [(''ns'', namespace), (''class_name'', class_name)])
               (md_field msg_type))
        (\<lambda>(h_declare_content, cc_opt_content, cc_encode_content, cc_decode_content).
          Inr (h_content @ h_declare_content
                 @ replaces h_class_end_obj [(''class_name'', class_name), (''ns'', namespace)],
               ((cc_content @ cc_opt_content) @ cc_encode_content @ cc_encode_end_obj)
                 @ cc_decode_content @ code_decode_end_obj)))"

definition gen_contents_obj ::
  "file_desc list \<Rightarrow> string \<Rightarrow> string list \<Rightarrow> struct_dict \<Rightarrow> string list \<Rightarrow> file_desc
     \<Rightarrow> stop + string \<times> string" where
  "gen_contents_obj protos file_pre file_lines struct_dict parse_instruct proto_desc =
     (if length parse_instruct < 2 then Inl Return
      else
        let tmp = py_split ''.'' (fl_package proto_desc) in
        if length tmp < 2 then Inl Return
        else if g_proto_ns \<noteq> tmp ! 0 then Inl Return
        else
          let namespace = tmp ! 1;
              macro = py_upper namespace @ ''_'' @ py_upper file_pre @ ''_RAWDATA_H_'';
              cc_content = replaces cc_begin_obj [(''file_pre'', file_pre)];
              h_content = replaces h_begin_obj [(''macro'', macro), (''file_pre'', file_pre)]
                @ concat (map (\<lambda>inc. replaces h_include_obj [(''file_pre'', inc_pre inc)])
                            (fl_dependency proto_desc))
                @ replaces h_ns_begin_obj [(''ns'', namespace)]
          in bindR (foldR (gen_message_obj protos file_lines struct_dict namespace)
                      (h_content, cc_content) (fl_message_type proto_desc))
               (\<lambda>(h_content, cc_content).
                 Inr (h_content @ replaces h_end_obj [(''ns'', namespace), (''macro'', macro)],
                      cc_content)))"

definition gen_code_obj ::
  "file_desc list \<Rightarrow> string \<Rightarrow> string list \<Rightarrow> struct_dict \<Rightarrow> string list \<Rightarrow> file_desc \<Rightarrow> fs
     \<Rightarrow> fs \<times> unit res" where
  "gen_code_obj protos file_pre file_lines struct_dict parse_instruct proto_desc f =
     write_pair f (file_pre @ ''_rawdata.h'') (file_pre @ ''_rawdata.cpp'')
       (gen_contents_obj protos file_pre file_lines struct_dict parse_instruct proto_desc)"

definition handle_proto_obj ::
  "toolchain \<Rightarrow> string \<Rightarrow> gen_state \<Rightarrow> gen_state \<times> unit res" where
  "handle_proto_obj tc file_pre st = handle_proto_with tc gen_code_obj file_pre st"

section \<open>What the generator emits\<close>

text \<open>
  An array annotated \<open>keyopt\<close> also needs a message of its element type with a first field,
  the key.
\<close>

definition field_keyopt :: "string list \<Rightarrow> struct_dict \<Rightarrow> string \<Rightarrow> field_desc \<Rightarrow> bool" where
  "field_keyopt ls d c f \<longleftrightarrow>
     (case find_field_opt c (fd_name f) ls d of Inr (Some (_, k)) \<Rightarrow> k | _ \<Rightarrow> False)"

definition wants_key :: "string list \<Rightarrow> struct_dict \<Rightarrow> string \<Rightarrow> field_desc \<Rightarrow> bool" where
  "wants_key ls d c f \<longleftrightarrow> fd_label f = LABEL_REPEATED \<and> field_keyopt ls d c f"

definition field_handled_obj ::
  "file_desc list \<Rightarrow> string list \<Rightarrow> struct_dict \<Rightarrow> string \<Rightarrow> field_desc \<Rightarrow> bool" where
  "field_handled_obj ps ls d c f \<longleftrightarrow>
     field_handled ls d c f \<and>
     (wants_key ls d c f \<longrightarrow> (\<exists>k. find_key_info ps (prototype2ctype f) = Inr (Some k)))"

definition the_key :: "file_desc list \<Rightarrow> field_desc \<Rightarrow> field_desc" where
  "the_key ps f =
     (case find_key_info ps (prototype2ctype f) of Inr (Some k) \<Rightarrow> k | _ \<Rightarrow> f)"

definition vec_values :: "string \<Rightarrow> string \<Rightarrow> string \<Rightarrow> string \<Rightarrow> (string \<times> string) list" where
  "vec_values ty n ns c =
     [(''field_type'', ty), (''field'', n), (''ns'', ns), (''class_name'', c),
      (''field_first_up'', first2upper n), (''field_upper'', py_upper n)]"

definition key_values :: "field_desc \<Rightarrow> (string \<times> string) list" where
  "key_values k = [(''field_key_type'', prototype2ctype k), (''field_key_name'', fd_name k)]"

definition decl_text_obj ::
  "file_desc list \<Rightarrow> string list \<Rightarrow> struct_dict \<Rightarrow> string \<Rightarrow> field_desc \<Rightarrow> string" where
  "decl_text_obj ps ls d c f =
     (let n = fd_name f; ty = prototype2ctype f in
      case field_kind f of
        KString \<Rightarrow> replaces h_string_field_obj
          [(''field_upper'', py_upper n), (''field'', n), (''max'', field_max ls d c f)]
      | KStruct \<Rightarrow> replaces h_single_field_obj [(''field_type'', ty), (''field'', n)]
      | KSimple \<Rightarrow> replaces h_single_field_obj [(''field_type'', ty), (''field'', n)]
      | _ \<Rightarrow> replaces h_vec_field_obj
               [(''field_type'', ty), (''field'', n), (''field_upper'', py_upper n),
                (''field_first_up'', first2upper n), (''max'', field_max ls d c f)]
             @ (if wants_key ls d c f
                then replaces h_vec_field_more_obj
                       ([(''field_type'', ty), (''field_first_up'', first2upper n)]
                         @ key_values (the_key ps f)) else []))"

definition opt_text_obj ::
  "file_desc list \<Rightarrow> string list \<Rightarrow> struct_dict \<Rightarrow> string \<Rightarrow> string \<Rightarrow> field_desc \<Rightarrow> string" where
  "opt_text_obj ps ls d ns c f =
     (if fd_label f = LABEL_REPEATED
      then replaces cc_opt_func_obj (vec_values (prototype2ctype f) (fd_name f) ns c)
           @ (if wants_key ls d c f
              then replaces cc_additional_opt_func_obj
                     (vec_values (prototype2ctype f) (fd_name f) ns c @ key_values (the_key ps f))
              else [])
      else [])"

definition encode_text_obj :: "field_desc \<Rightarrow> string" where
  "encode_text_obj f =
     replaces
       (case field_kind f of
          KStructVec \<Rightarrow> cc_encode_struct_vec_field_obj | KSimpleVec \<Rightarrow> cc_encode_simple_vec_field_obj
        | KStruct \<Rightarrow> cc_encode_struct_field_obj | KString \<Rightarrow> cc_encode_string_field_obj
        | KSimple \<Rightarrow> cc_encode_simple_field_obj) [(''field'', fd_name f)]"

definition decode_text_obj :: "field_desc \<Rightarrow> string" where
  "decode_text_obj f =
     (let n = fd_name f in
      case field_kind f of
        KStructVec \<Rightarrow> replaces cc_decode_struct_vec_field_obj [(''field'', n), (''field_upper'', py_upper n)]
      | KSimpleVec \<Rightarrow> replaces cc_decode_simple_vec_field_obj [(''field'', n), (''field_upper'', py_upper n)]
      | KStruct \<Rightarrow> replaces cc_decode_struct_field_obj [(''field'', n)]
      | KString \<Rightarrow> replaces cc_decode_string_field_obj [(''field'', n)]
      | KSimple \<Rightarrow> replaces cc_decode_simple_field_obj [(''field'', n)])"

abbreviation field_texts_obj ::
  "file_desc list \<Rightarrow> string list \<Rightarrow> struct_dict \<Rightarrow> string \<Rightarrow> string \<Rightarrow> field_desc
     \<Rightarrow> string \<times> string \<times> string \<times> string" where
  "field_texts_obj ps ls d ns c f \<equiv>
     (decl_text_obj ps ls d c f, opt_text_obj ps ls d ns c f, encode_text_obj f, decode_text_obj f)"

lemmas obj_text_defs = decl_text_obj_def opt_text_obj_def encode_text_obj_def decode_text_obj_def

lemma gen_field_obj_handled:
  assumes "field_handled_obj ps ls d c f"
  shows "gen_field_obj ps ls d ns c acc f = Inr (app4 acc (field_texts_obj ps ls d ns c f))"
proof -
  obtain a b e g where acc: "acc = (a, b, e, g)" by (cases acc)
  have h: "field_handled ls d c f" using assms by (simp add: field_handled_obj_def)
  then have ty: "prototype2ctype f \<noteq> []" by (simp add: field_handled_def)
  show ?thesis
  proof (cases "needs_max f")
    case True
    with h obtain m k where mk: "find_field_opt c (fd_name f) ls d = Inr (Some (m, k))"
      by (auto simp: field_handled_def)
    show ?thesis
    proof (cases "wants_key ls d c f")
      case wk: True
      with assms obtain kf where kf: "find_key_info ps (prototype2ctype f) = Inr (Some kf)"
        by (auto simp: field_handled_obj_def)
      from wk mk have "k" "fd_label f = LABEL_REPEATED"
        by (simp_all add: wants_key_def field_keyopt_def)
      with h mk kf wk ty acc show ?thesis
        by (auto simp: gen_field_obj_def obj_text_defs field_kind_def field_max_def the_key_def
            vec_values_def key_values_def field_handled_def unpack_opt_def key_field_def Let_def)
    next
      case wk: False
      with mk have "fd_label f = LABEL_REPEATED \<longrightarrow> \<not> k"
        by (simp add: wants_key_def field_keyopt_def)
      with h mk wk ty acc True show ?thesis
        by (auto simp: gen_field_obj_def obj_text_defs field_kind_def needs_max_def field_max_def
            vec_values_def field_handled_def unpack_opt_def Let_def split: if_splits)
    qed
  next
    case False
    with ty acc show ?thesis
      by (auto simp: gen_field_obj_def obj_text_defs field_kind_def needs_max_def Let_def
          split: if_splits)
  qed
qed

lemma gen_field_obj_refused:
  assumes "\<not> field_handled_obj ps ls d c f"
  shows "\<exists>e. gen_field_obj ps ls d ns c acc f = Inl e"
proof (cases "gen_field_obj ps ls d ns c acc f")
  case (Inr r)
  then have "field_handled_obj ps ls d c f"
    by (auto simp: gen_field_obj_def field_handled_obj_def field_handled_def field_kind_def
        needs_max_def wants_key_def field_keyopt_def Let_def res_simps split: if_splits prod.splits)
  with assms show ?thesis by simp
qed simp

interpretation obj_fields: emit_loop "gen_field_obj ps ls d ns c" "field_handled_obj ps ls d c"
  "field_texts_obj ps ls d ns c" app4 for ps ls d ns c
  by unfold_locales (simp_all add: gen_field_obj_handled gen_field_obj_refused)

definition message_handled_obj :: "file_desc list \<Rightarrow> string list \<Rightarrow> struct_dict \<Rightarrow> msg_desc \<Rightarrow> bool" where
  "message_handled_obj ps ls d m \<longleftrightarrow>
     (\<forall>f \<in> set (md_field m). field_handled_obj ps ls d (md_name m) f)"

definition struct_text_obj ::
  "file_desc list \<Rightarrow> string list \<Rightarrow> struct_dict \<Rightarrow> string \<Rightarrow> msg_desc \<Rightarrow> string" where
  "struct_text_obj ps ls d ns m =
     replaces h_class_begin_obj [(''class_name'', md_name m)]
     @ concat (map (decl_text_obj ps ls d (md_name m)) (md_field m))
     @ replaces h_class_end_obj [(''class_name'', md_name m), (''ns'', ns)]"

definition functions_text_obj ::
  "file_desc list \<Rightarrow> string list \<Rightarrow> struct_dict \<Rightarrow> string \<Rightarrow> msg_desc \<Rightarrow> string" where
  "functions_text_obj ps ls d ns m =
     concat (map (opt_text_obj ps ls d ns (md_name m)) (md_field m))
     @ replaces cc_encode_begin_obj [(''ns'', ns), (''class_name'', md_name m)]
     @ concat (map encode_text_obj (md_field m)) @ cc_encode_end_obj
     @ replaces cc_decode_begin_obj [(''ns'', ns), (''class_name'', md_name m)]
     @ concat (map decode_text_obj (md_field m)) @ code_decode_end_obj"

lemma gen_message_obj_eq:
  "gen_message_obj ps ls d ns acc m = Inr r \<longleftrightarrow>
     message_handled_obj ps ls d m \<and>
     r = app2 acc (struct_text_obj ps ls d ns m, functions_text_obj ps ls d ns m)"
proof -
  obtain h c where acc: "acc = (h, c)" by (cases acc)
  show ?thesis
    unfolding gen_message_obj_def acc Let_def
    by (auto simp: bindR_Inr_iff obj_fields.loop_iff message_handled_obj_def foldl_app4
        struct_text_obj_def functions_text_obj_def comp_def)
qed

interpretation obj_messages: emit_loop "gen_message_obj ps ls d ns" "message_handled_obj ps ls d"
  "\<lambda>m. (struct_text_obj ps ls d ns m, functions_text_obj ps ls d ns m)" app2 for ps ls d ns
proof unfold_locales
  fix m acc
  show "message_handled_obj ps ls d m \<Longrightarrow> gen_message_obj ps ls d ns acc m =
      Inr (app2 acc (struct_text_obj ps ls d ns m, functions_text_obj ps ls d ns m))"
    using gen_message_obj_eq by blast
  show "\<not> message_handled_obj ps ls d m \<Longrightarrow> \<exists>e. gen_message_obj ps ls d ns acc m = Inl e"
    using gen_message_obj_eq [of ps ls d ns acc m]
    by (cases "gen_message_obj ps ls d ns acc m") auto
qed

definition header_text_obj ::
  "file_desc list \<Rightarrow> string \<Rightarrow> string list \<Rightarrow> struct_dict \<Rightarrow> string \<Rightarrow> file_desc \<Rightarrow> string" where
  "header_text_obj ps ns ls d file_pre p =
     replaces h_begin_obj [(''macro'', guard_macro ns file_pre), (''file_pre'', file_pre)]
     @ concat (map (\<lambda>inc. replaces h_include_obj [(''file_pre'', inc_pre inc)]) (fl_dependency p))
     @ replaces h_ns_begin_obj [(''ns'', ns)]
     @ concat (map (struct_text_obj ps ls d ns) (fl_message_type p))
     @ replaces h_end_obj [(''ns'', ns), (''macro'', guard_macro ns file_pre)]"

definition source_text_obj ::
  "file_desc list \<Rightarrow> string \<Rightarrow> string list \<Rightarrow> struct_dict \<Rightarrow> string \<Rightarrow> file_desc \<Rightarrow> string" where
  "source_text_obj ps ns ls d file_pre p =
     replaces cc_begin_obj [(''file_pre'', file_pre)]
     @ concat (map (functions_text_obj ps ls d ns) (fl_message_type p))"

lemma gen_contents_obj_iff:
  "gen_contents_obj ps file_pre ls d ins p = Inr (h, c) \<longleftrightarrow>
     2 \<le> length ins \<and>
     (\<exists>ns rest. py_split ''.'' (fl_package p) = ''Proto'' # ns # rest \<and>
        (\<forall>m \<in> set (fl_message_type p). message_handled_obj ps ls d m) \<and>
        h = header_text_obj ps ns ls d file_pre p \<and> c = source_text_obj ps ns ls d file_pre p)"
proof (cases "py_split ''.'' (fl_package p)")
  case Nil
  then show ?thesis by simp
next
  case (Cons n0 r)
  then show ?thesis
    by (cases r)
      (auto simp: gen_contents_obj_def g_proto_ns_def bindR_Inr_iff obj_messages.loop_iff foldl_app2
        header_text_obj_def source_text_obj_def guard_macro_def comp_def Let_def list_all_iff split: if_splits)
qed

text \<open>
  C10: \<open>gen_code\<close> of \<open>proto2obj4pb.py\<close> produces output exactly when the proto file has at
  least two instruction lines, its package is \<open>Proto.<ns>\<close> and every field is handled, where
  an array annotated \<open>keyopt\<close> also needs a loaded message of its element type with a first
  field; the output has, message by message, the struct, the array functions, and the two
  conversions with the fields in the order of the descriptor.
\<close>

theorem gen_contents_obj_spec:
  "gen_contents_obj ps file_pre ls d ins p = Inr (h, c) \<longleftrightarrow>
     2 \<le> length ins \<and>
     (\<exists>ns rest. py_split ''.'' (fl_package p) = ''Proto'' # ns # rest \<and>
        list_all (message_handled_obj ps ls d) (fl_message_type p) \<and>
        h = header_text_obj ps ns ls d file_pre p \<and> c = source_text_obj ps ns ls d file_pre p)"
  by (simp add: gen_contents_obj_iff list_all_iff)

section \<open>No placeholder is left\<close>

lemmas obj_dollar_free = tmpl_oks [THEN replaces_dollar_free]

lemma find_key_msgs_mem:
  "find_key_msgs n ms = Inr (Some k) \<Longrightarrow> \<exists>m \<in> set ms. k \<in> set (md_field m)"
  by (induction n ms rule: find_key_msgs.induct) (auto simp: res_simps split: if_splits)

lemma find_key_protos_mem:
  "find_key_protos n ps = Inr (Some k) \<Longrightarrow>
     \<exists>p \<in> set ps. \<exists>m \<in> set (fl_message_type p). k \<in> set (md_field m)"
proof (induction n ps rule: find_key_protos.induct)
  case (2 n p ps)
  then obtain r where r: "find_key_msgs n (fl_message_type p) = Inr r"
    "(case r of Some f \<Rightarrow> Inr (Some f) | None \<Rightarrow> find_key_protos n ps) = Inr (Some k)"
    by (auto simp: bindR_Inr_iff)
  show ?case
  proof (cases r)
    case None
    with r 2 show ?thesis by auto
  next
    case (Some x)
    with r show ?thesis by (auto dest: find_key_msgs_mem)
  qed
qed simp

lemma the_key_names_ok:
  assumes "list_all file_names_ok ps" "find_key_info ps (prototype2ctype f) = Inr (Some k)"
  shows "field_names_ok (the_key ps f)"
proof -
  have "the_key ps f = k" using assms(2) by (simp add: the_key_def)
  moreover from assms(2) have "\<exists>p \<in> set ps. \<exists>m \<in> set (fl_message_type p). k \<in> set (md_field m)"
    by (auto simp: find_key_info_def dest: find_key_protos_mem)
  ultimately show ?thesis using assms(1) by (auto simp: file_names_ok_def list_all_iff)
qed

lemma field_texts_obj_dollar_free:
  assumes "field_names_ok f" "dollar_free (field_max ls d c f)" "dollar_free ns" "dollar_free c"
    and "list_all file_names_ok ps" "field_handled_obj ps ls d c f"
  shows "dollar_free (decl_text_obj ps ls d c f)" "dollar_free (opt_text_obj ps ls d ns c f)"
    "dollar_free (encode_text_obj f)" "dollar_free (decode_text_obj f)"
proof -
  have k: "dollar_free (fd_name (the_key ps f)) \<and> dollar_free (prototype2ctype (the_key ps f))"
    if "wants_key ls d c f"
    using that assms(5,6) the_key_names_ok
    by (auto simp: field_handled_obj_def field_names_ok_def intro: dollar_free_ctype)
  have f: "dollar_free (fd_name f)" "dollar_free (prototype2ctype f)" "dollar_free (first2upper (fd_name f))"
    using assms(1) by (simp_all add: field_names_ok_def dollar_free_ctype dollar_free_first2upper)
  show "dollar_free (decl_text_obj ps ls d c f)"
    unfolding decl_text_obj_def Let_def using f k assms(2)
    by (cases "field_kind f") (auto intro!: obj_dollar_free simp: key_values_def)
  show "dollar_free (opt_text_obj ps ls d ns c f)"
    unfolding opt_text_obj_def using f k assms(3,4)
    by (auto intro!: obj_dollar_free simp: vec_values_def key_values_def)
  show "dollar_free (encode_text_obj f)"
    unfolding encode_text_obj_def using f
    by (cases "field_kind f") (auto intro!: obj_dollar_free)
  show "dollar_free (decode_text_obj f)"
    unfolding decode_text_obj_def Let_def using f
    by (cases "field_kind f") (auto intro!: obj_dollar_free)
qed

lemma message_texts_obj_dollar_free:
  assumes "dollar_free ns" "dollar_free (md_name m)" "list_all field_names_ok (md_field m)"
    and "\<And>l. l \<in> set ls \<Longrightarrow> dollar_free l"
    and "list_all file_names_ok ps" "message_handled_obj ps ls d m"
  shows "dollar_free (struct_text_obj ps ls d ns m)" "dollar_free (functions_text_obj ps ls d ns m)"
proof -
  have f: "dollar_free (decl_text_obj ps ls d (md_name m) f)"
    "dollar_free (opt_text_obj ps ls d ns (md_name m) f)"
    "dollar_free (encode_text_obj f)" "dollar_free (decode_text_obj f)"
    if "f \<in> set (md_field m)" for f
    using that assms field_texts_obj_dollar_free [OF _ dollar_free_max, of f ls ns "md_name m" ps d]
    by (auto simp: list_all_iff message_handled_obj_def)
  have e: "dollar_free cc_encode_end_obj" "dollar_free code_decode_end_obj"
    using replaces_dollar_free [OF cc_encode_end_obj_ok, of "[]"]
      replaces_dollar_free [OF code_decode_end_obj_ok, of "[]"] by (simp_all add: replaces_simps)
  show "dollar_free (struct_text_obj ps ls d ns m)"
    unfolding struct_text_obj_def
    using assms f by (auto intro!: obj_dollar_free dollar_free_concat)
  show "dollar_free (functions_text_obj ps ls d ns m)"
    unfolding functions_text_obj_def
    using assms f e by (auto intro!: obj_dollar_free dollar_free_concat)
qed

text \<open>
  every placeholder of every template of \<open>proto2obj4pb.py\<close> is substituted: when the names
  in the loaded descriptors and the proto file's text have no dollar sign, neither generated
  file has one.
\<close>

theorem gen_contents_obj_no_placeholder:
  assumes "gen_contents_obj ps file_pre ls d ins p = Inr (h, c)"
    and "file_names_ok p" "list_all file_names_ok ps" "dollar_free file_pre" "list_all dollar_free ls"
  shows "dollar_free h \<and> dollar_free c"
proof -
  from assms(1) obtain ns rest where out: "py_split ''.'' (fl_package p) = ''Proto'' # ns # rest"
      "h = header_text_obj ps ns ls d file_pre p" "c = source_text_obj ps ns ls d file_pre p"
      "\<forall>m \<in> set (fl_message_type p). message_handled_obj ps ls d m"
    by (auto simp: gen_contents_obj_iff)
  have ns: "dollar_free ns"
    using out(1) assms(2) by (intro dollar_free_py_split [of ns "''.''" "fl_package p"]) (auto simp: file_names_ok_def)
  have m: "dollar_free (struct_text_obj ps ls d ns m) \<and> dollar_free (functions_text_obj ps ls d ns m)"
    if "m \<in> set (fl_message_type p)" for m
    using that assms(2,3,5) ns out(4)
    by (intro conjI message_texts_obj_dollar_free) (auto simp: file_names_ok_def list_all_iff)
  have i: "dollar_free (inc_pre inc)" if "inc \<in> set (fl_dependency p)" for inc
    using that assms(2) by (auto intro: dollar_free_inc_pre simp: file_names_ok_def list_all_iff)
  have g: "dollar_free (guard_macro ns file_pre)" using ns assms(4) by (simp add: guard_macro_def)
  show ?thesis
    unfolding out(2,3) header_text_obj_def source_text_obj_def
    using ns assms(4) m i g by (auto intro!: obj_dollar_free dollar_free_concat)
qed

definition bag_lines :: "string list" where
  "bag_lines =
     [''message Item {'' @ [newline], ''  int32 id = 1;'' @ [newline], ''}'' @ [newline],
      ''message Bag {'' @ [newline],
      ''  repeated Item items = 1; // |gen|max|8|keyopt|'' @ [newline], ''}'' @ [newline]]"

definition bag_desc :: file_desc where
  "bag_desc =
     \<lparr>fl_package = ''Proto.game'', fl_dependency = [],
      fl_message_type =
        [\<lparr>md_name = ''Item'', md_field =
            [\<lparr>fd_name = ''id'', fd_type = TYPE_INT32, fd_label = LABEL_OPTIONAL, fd_type_name = []\<rparr>]\<rparr>,
         \<lparr>md_name = ''Bag'', md_field =
            [\<lparr>fd_name = ''items'', fd_type = TYPE_MESSAGE, fd_label = LABEL_REPEATED,
              fd_type_name = ''.Proto.game.Item''\<rparr>]\<rparr>]\<rparr>"

abbreviation bag_dict :: struct_dict where
  "bag_dict \<equiv> [''Item'' \<mapsto> [1, 3], ''Bag'' \<mapsto> [4, 6]]"

lemma bag_field_opt: "find_field_opt ''Bag'' ''items'' bag_lines bag_dict = Inr (Some (''8'', True))"
  by code_simp

lemma bag_ctype: "prototype2ctype (md_field (fl_message_type bag_desc ! 1) ! 0) = ''game::Item''"
  by code_simp

lemma bag_key: "find_key_info [bag_desc] ''game::Item'' = Inr (Some (md_field (fl_message_type bag_desc ! 0) ! 0))"
  by code_simp

lemma bag_handled:
  "\<forall>m \<in> set (fl_message_type bag_desc). message_handled_obj [bag_desc] bag_lines bag_dict m"
  using bag_field_opt bag_ctype bag_key
  by (auto simp: bag_desc_def message_handled_obj_def field_handled_obj_def field_handled_def
      wants_key_def needs_max_def field_kind_def) (simp add: prototype2ctype_def)

theorem gen_contents_obj_no_placeholder_witness:
  "\<exists>h c. gen_contents_obj [bag_desc] ''bag'' bag_lines bag_dict [''//gen_begin'', ''x''] bag_desc
           = Inr (h, c) \<and> dollar_free h \<and> dollar_free c"
proof -
  have "py_split ''.'' (fl_package bag_desc) = ''Proto'' # ''game'' # []" by code_simp
  then obtain h c where out:
    "gen_contents_obj [bag_desc] ''bag'' bag_lines bag_dict [''//gen_begin'', ''x''] bag_desc = Inr (h, c)"
    using bag_handled by (auto simp: gen_contents_obj_iff)
  have "file_names_ok bag_desc" by code_simp
  moreover have "list_all dollar_free bag_lines" by code_simp
  ultimately have "dollar_free h \<and> dollar_free c"
    using gen_contents_obj_no_placeholder [OF out] by simp
  with out show ?thesis by blast
qed

end
