(* ===== verification/Proto2conf.thy ===== *)
theory Proto2conf
  imports Proto_Driver
begin

text \<open>
  \<open>src/tools/proto2conf.py\<close>: a skeleton configuration in protobuf text format for a root
  message, with every field once and repeated fields twice.
\<close>

section \<open>The generator\<close>

definition conf_single_field :: string where
  \<open>conf_single_field = join_lines
    [''$$field$$: 0 '',
     []]\<close>

definition conf_string_field :: string where
  \<open>conf_string_field = join_lines
    [''$$field$$: "" '',
     []]\<close>

definition conf_struct_field_begin :: string where
  \<open>conf_struct_field_begin = join_lines
    [''$$field$$: {'',
     []]\<close>

definition conf_struct_field_end :: string where
  \<open>conf_struct_field_end = join_lines
    [''}'',
     []]\<close>

text \<open>\<open>for idx in range(1, indent): ret = ret + " "\<close>.\<close>

definition conf_indent :: "nat \<Rightarrow> string" where
  "conf_indent indent = replicate (indent - 1) (CHR '' '')"

text \<open>
  \<open>gen_single_code\<close>, \<open>gen_code\<close> and the loop of the latter over the fields. The first
  argument is the depth of calls that the interpreter still allows; a call beyond it raises.
  The test \<open>None != g_all_msg[field_type]\<close> is always true where it does not raise.
\<close>

fun gen_single_conf :: "nat \<Rightarrow> (string \<rightharpoonup> msg_desc) \<Rightarrow> field_desc \<Rightarrow> nat \<Rightarrow> string res"
  and gen_code_conf :: "nat \<Rightarrow> (string \<rightharpoonup> msg_desc) \<Rightarrow> msg_desc \<Rightarrow> nat \<Rightarrow> string res"
  and gen_fields_conf :: "nat \<Rightarrow> (string \<rightharpoonup> msg_desc) \<Rightarrow> field_desc list \<Rightarrow> nat \<Rightarrow> string res" where
  "gen_single_conf 0 g_all_msg field indent = Inl RecursionError"
| "gen_single_conf (Suc depth) g_all_msg field indent =
     (if fd_type field = TYPE_MESSAGE then
        let field_type = last (py_split ''.'' (fd_type_name field)) in
        bindR (lookupR g_all_msg field_type) (\<lambda>msg.
          bindR (gen_code_conf depth g_all_msg msg (indent + 2)) (\<lambda>body.
            Inr (conf_indent indent
                 @ replaces conf_struct_field_begin [(''field'', fd_name field)]
                 @ body @ conf_indent indent @ conf_struct_field_end)))
      else if fd_type field = TYPE_STRING then
        Inr (conf_indent indent @ replaces conf_string_field [(''field'', fd_name field)])
      else
        Inr (conf_indent indent @ replaces conf_single_field [(''field'', fd_name field)]))"
| "gen_code_conf 0 g_all_msg root_conf indent = Inl RecursionError"
| "gen_code_conf (Suc depth) g_all_msg root_conf indent =
     gen_fields_conf depth g_all_msg (md_field root_conf) indent"
| "gen_fields_conf depth g_all_msg [] indent = Inr []"
| "gen_fields_conf depth g_all_msg (field # others) indent =
     bindR (gen_single_conf depth g_all_msg field indent) (\<lambda>once.
       bindR (if fd_label field = LABEL_REPEATED
              then gen_single_conf depth g_all_msg field indent else Inr []) (\<lambda>again.
         bindR (gen_fields_conf depth g_all_msg others indent) (\<lambda>rest.
           Inr (once @ again @ rest))))"

text \<open>The two \<open>protoc\<close> runs of this tool's \<open>get_protodesc\<close>.\<close>

definition protoc_cpp_command :: "toolchain \<Rightarrow> string \<Rightarrow> string" where
  "protoc_cpp_command tc file_name =
     (if iswin (tc_platform tc) \<noteq> 0 then ''protoc.exe --cpp_out=. '' @ '' ./'' @ file_name
      else ''./protoc --cpp_out=. '' @ '' ./'' @ file_name)"

definition get_protodesc_conf :: "toolchain \<Rightarrow> string \<Rightarrow> string \<Rightarrow> fs \<Rightarrow> fs \<times> file_desc res" where
  "get_protodesc_conf tc file_name file_pre f =
     (let f1 = tc_system tc (protoc_command tc file_name) f;
          f2 = tc_system tc (protoc_cpp_command tc file_name) f1 in
      (f2, bindR (open_r f2 (file_pre @ ''_pb2.py'')) (\<lambda>text.
             bindR (find_serialized (readlines text)) (tc_parse tc))))"

text \<open>The loop over the messages: the table of all of them, and the last one of the root's name.\<close>

definition all_messages :: "file_desc \<Rightarrow> (string \<rightharpoonup> msg_desc)" where
  "all_messages p = foldl (\<lambda>g m. g(md_name m \<mapsto> m)) Map.empty (fl_message_type p)"

definition root_message :: "file_desc \<Rightarrow> string \<Rightarrow> msg_desc option" where
  "root_message p root_conf =
     foldl (\<lambda>r m. if md_name m = root_conf then Some m else r) None (fl_message_type p)"

definition conf_output :: "nat \<Rightarrow> file_desc \<Rightarrow> string \<Rightarrow> string res" where
  "conf_output depth p root_conf =
     (case root_message p root_conf of
        None \<Rightarrow> Inl AttributeError
      | Some m \<Rightarrow> gen_code_conf depth (all_messages p) m 0)"

definition handle_proto_conf ::
  "toolchain \<Rightarrow> nat \<Rightarrow> string \<Rightarrow> string \<Rightarrow> fs \<Rightarrow> fs \<times> unit res" where
  "handle_proto_conf tc depth file_pre root_conf f =
     (case get_protodesc_conf tc (file_pre @ ''.proto'') file_pre f of
        (f1, Inl e) \<Rightarrow> (f1, Inl e)
      | (f1, Inr p) \<Rightarrow>
         (case conf_output depth p root_conf of
            Inl e \<Rightarrow> (f1, Inl e)
          | Inr output \<Rightarrow>
             (case open_w f1 (file_pre @ ''.pb.txt'') of
                Inl e \<Rightarrow> (f1, Inl e)
              | Inr f2 \<Rightarrow> (file_write f2 (file_pre @ ''.pb.txt'') output, Inr ()))))"

section \<open>When it returns\<close>

text \<open>
  The messages a message refers to through its fields, and a ranking of the table that
  decreases along references. A table has one exactly when no message contains itself.
\<close>

definition refs :: "msg_desc \<Rightarrow> string list" where
  "refs m = map (\<lambda>f. last (py_split ''.'' (fd_type_name f)))
              (filter (\<lambda>f. fd_type f = TYPE_MESSAGE) (md_field m))"

definition closed_ranking :: "(string \<rightharpoonup> msg_desc) \<Rightarrow> (string \<Rightarrow> nat) \<Rightarrow> bool" where
  "closed_ranking g rank \<longleftrightarrow>
     (\<forall>n m. g n = Some m \<longrightarrow> (\<forall>t \<in> set (refs m). \<exists>m'. g t = Some m' \<and> rank t < rank n))"

lemma gen_fields_returns:
  "(\<And>f. f \<in> set fs \<Longrightarrow> \<exists>s. gen_single_conf depth g f indent = Inr s) \<Longrightarrow>
     \<exists>s. gen_fields_conf depth g fs indent = Inr s"
proof (induction fs)
  case (Cons f fs)
  obtain s r where "gen_single_conf depth g f indent = Inr s"
    "gen_fields_conf depth g fs indent = Inr r"
    using Cons.prems [of f] Cons.IH Cons.prems by force
  then show ?case by simp
qed simp

lemma gen_code_returns:
  assumes "closed_ranking g rank"
  shows "g n = Some m \<Longrightarrow> 2 * rank n + 1 < depth \<Longrightarrow> \<exists>s. gen_code_conf depth g m indent = Inr s"
proof (induction "rank n" arbitrary: n m depth indent rule: less_induct)
  case less
  have "2 \<le> depth" using less.prems(2) by simp
  then obtain d where d: "depth = Suc (Suc d)" by (auto dest: le_Suc_ex)
  have "\<exists>s. gen_single_conf (Suc d) g f indent = Inr s" if f: "f \<in> set (md_field m)" for f
  proof (cases "fd_type f = TYPE_MESSAGE")
    case True
    let ?t = "last (py_split ''.'' (fd_type_name f))"
    have "?t \<in> set (refs m)" using f True by (auto simp: refs_def)
    with assms less.prems(1) obtain m' where t: "g ?t = Some m'" "rank ?t < rank n"
      unfolding closed_ranking_def by blast
    with less.hyps [OF t(2,1), of d "indent + 2"] less.prems(2) d
    obtain s where "gen_code_conf d g m' (indent + 2) = Inr s" by auto
    with True t(1) show ?thesis by (simp add: lookupR_def Let_def)
  qed simp
  then show ?case unfolding d gen_code_conf.simps by (rule gen_fields_returns)
qed

section \<open>Balanced braces\<close>

text \<open>Nesting depth after a text that never closes more than it has opened.\<close>

fun brace_scan :: "nat \<Rightarrow> string \<Rightarrow> nat option" where
  "brace_scan n [] = Some n"
| "brace_scan n (c # cs) =
     (if c = CHR ''{'' then brace_scan (Suc n) cs
      else if c = CHR ''}'' then (case n of 0 \<Rightarrow> None | Suc k \<Rightarrow> brace_scan k cs)
      else brace_scan n cs)"

definition brace_free :: "string \<Rightarrow> bool" where
  "brace_free s \<longleftrightarrow> CHR ''{'' \<notin> set s \<and> CHR ''}'' \<notin> set s"

lemma brace_scan_append:
  "brace_scan n (s @ t) = (case brace_scan n s of None \<Rightarrow> None | Some k \<Rightarrow> brace_scan k t)"
  by (induction n s rule: brace_scan.induct) (auto split: nat.splits)

lemma brace_scan_free: "brace_free s \<Longrightarrow> brace_scan n s = Some n"
  by (induction s) (auto simp: brace_free_def)

lemma conf_texts:
  "replaces conf_struct_field_begin [(''field'', n)] = n @ '': {'' @ [newline]"
  "replaces conf_string_field [(''field'', n)] = n @ '': '' @ [dquote, dquote, CHR '' '', newline]"
  "replaces conf_single_field [(''field'', n)] = n @ '': 0 '' @ [newline]"
proof -
  have one: "replaces (unparse [Hole ''field'', Lit s]) [(''field'', n)] = n @ s"
    if "wf_segs [Hole ''field'', Lit s]" for s
    using py_replace_unparse [OF that, of "''field''" n] by (simp add: replaces_simps)
  have w: "wf_segs [Hole ''field'', Lit ('': {'' @ [newline])]"
    "wf_segs [Hole ''field'', Lit ('': '' @ [dquote, dquote, CHR '' '', newline])]"
    "wf_segs [Hole ''field'', Lit ('': 0 '' @ [newline])]"
    by code_simp+
  show "replaces conf_struct_field_begin [(''field'', n)] = n @ '': {'' @ [newline]"
    using one [OF w(1)] by (simp add: conf_struct_field_begin_def placeholder_def)
  show "replaces conf_string_field [(''field'', n)] = n @ '': '' @ [dquote, dquote, CHR '' '', newline]"
    using one [OF w(2)] by (simp add: conf_string_field_def placeholder_def)
  show "replaces conf_single_field [(''field'', n)] = n @ '': 0 '' @ [newline]"
    using one [OF w(3)] by (simp add: conf_single_field_def placeholder_def)
qed

lemma brace_free_simps [simp]:
  "brace_free []"
  "brace_free (c # s) \<longleftrightarrow> c \<noteq> CHR ''{'' \<and> c \<noteq> CHR ''}'' \<and> brace_free s"
  "brace_free (s @ t) \<longleftrightarrow> brace_free s \<and> brace_free t"
  by (auto simp: brace_free_def)

lemma brace_free_indent [simp]: "brace_free (conf_indent i)"
  by (auto simp: brace_free_def conf_indent_def)

definition names_brace_free :: "(string \<rightharpoonup> msg_desc) \<Rightarrow> bool" where
  "names_brace_free g \<longleftrightarrow> (\<forall>m \<in> ran g. \<forall>f \<in> set (md_field m). brace_free (fd_name f))"

lemma gen_conf_balanced:
  shows "names_brace_free g \<Longrightarrow> brace_free (fd_name f) \<Longrightarrow> gen_single_conf depth g f i = Inr s \<Longrightarrow>
      brace_scan k s = Some k"
    and "names_brace_free g \<Longrightarrow> m \<in> ran g \<Longrightarrow> gen_code_conf depth g m i = Inr s \<Longrightarrow> brace_scan k s = Some k"
    and "names_brace_free g \<Longrightarrow> list_all (\<lambda>f. brace_free (fd_name f)) fs \<Longrightarrow>
      gen_fields_conf depth g fs i = Inr s \<Longrightarrow> brace_scan k s = Some k"
proof (induction depth g f i and depth g m i and depth g fs i arbitrary: k s and k s and k s
    rule: gen_single_conf_gen_code_conf_gen_fields_conf.induct)
  case (2 depth g f i)
  show ?case
  proof (cases "fd_type f = TYPE_MESSAGE")
    case True
    with "2.prems"(3) obtain m body where
      m: "g (last (py_split ''.'' (fd_type_name f))) = Some m"
        "gen_code_conf depth g m (i + 2) = Inr body"
      and s: "s = conf_indent i @ (fd_name f @ '': {'' @ [newline]) @ body @ conf_indent i @ conf_struct_field_end"
      by (auto simp: bindR_Inr_iff Let_def conf_texts)
    have b: "brace_scan (Suc k) body = Some (Suc k)"
      using 2(1) [OF True refl, of m] m "2.prems"(1) by (auto simp: ranI)
    show ?thesis
      unfolding s using b "2.prems"(2)
      by (simp add: brace_scan_append brace_scan_free conf_struct_field_end_def)
  next
    case False
    with "2.prems" show ?thesis
      by (auto simp: conf_texts brace_scan_append brace_scan_free split: if_splits)
  qed
next
  case (4 depth g m i)
  then show ?case by (auto simp: names_brace_free_def list_all_iff)
next
  case (6 depth g f fs i)
  then obtain a b c where "gen_single_conf depth g f i = Inr a"
    "(if fd_label f = LABEL_REPEATED then gen_single_conf depth g f i else Inr []) = Inr b"
    "gen_fields_conf depth g fs i = Inr c" "s = a @ b @ c"
    by (auto simp: bindR_Inr_iff)
  with 6 show ?case by (auto simp: brace_scan_append split: if_splits)
qed auto

lemma all_messages_ran: "m \<in> ran (all_messages p) \<Longrightarrow> m \<in> set (fl_message_type p)"
proof -
  have "m \<in> ran (foldl (\<lambda>g m. g(md_name m \<mapsto> m)) Map.empty ms) \<Longrightarrow> m \<in> set ms" for ms
    by (induction ms rule: rev_induct) (auto simp: ran_def split: if_splits)
  then show "m \<in> ran (all_messages p) \<Longrightarrow> m \<in> set (fl_message_type p)"
    by (simp add: all_messages_def)
qed

lemma root_message_lookup: "root_message p r = all_messages p r"
proof -
  have "foldl (\<lambda>r' m. if md_name m = r then Some m else r') None ms =
      foldl (\<lambda>g m. g(md_name m \<mapsto> m)) Map.empty ms r" for ms
    by (induction ms rule: rev_induct) auto
  then show ?thesis by (simp add: root_message_def all_messages_def)
qed

text \<open>
  C34: \<open>proto2conf.py\<close> produces its output for every root message in a table of messages
  where references resolve and no message contains itself, provided the interpreter allows
  two calls per level of nesting; the braces of the output are balanced.
\<close>

theorem conf_output_returns:
  assumes "closed_ranking (all_messages p) rank" "all_messages p root_conf = Some m"
    and "2 * rank root_conf + 1 < depth"
    and "\<And>m f. m \<in> set (fl_message_type p) \<Longrightarrow> f \<in> set (md_field m) \<Longrightarrow> brace_free (fd_name f)"
  shows "\<exists>s. conf_output depth p root_conf = Inr s \<and> brace_scan 0 s = Some 0"
proof -
  obtain s where s: "gen_code_conf depth (all_messages p) m 0 = Inr s"
    using gen_code_returns [OF assms(1,2,3)] by blast
  have "names_brace_free (all_messages p)"
    unfolding names_brace_free_def using assms(4) all_messages_ran by blast
  then have "brace_scan 0 s = Some 0"
    using gen_conf_balanced(2) [OF _ _ s] assms(2) by (simp add: ranI)
  with s assms(2) show ?thesis by (simp add: conf_output_def root_message_lookup)
qed

text \<open>
  C35: a message with a field of its own type makes \<open>proto2conf.py\<close> raise, whatever depth of
  calls the interpreter allows: the tool has no guard against recursive messages.
\<close>

theorem gen_code_conf_recursive_raises:
  assumes "g t = Some m" "f \<in> set (md_field m)" "fd_type f = TYPE_MESSAGE"
    and "last (py_split ''.'' (fd_type_name f)) = t"
  shows "\<exists>e. gen_code_conf depth g m indent = Inl e"
proof (induction depth arbitrary: indent rule: less_induct)
  case (less depth)
  have single: "\<exists>e. gen_single_conf d g f i = Inl e" if "Suc d \<le> depth" for d i
  proof (cases d)
    case (Suc k)
    have "k < depth" using that Suc by simp
    then obtain e where "gen_code_conf k g m (i + 2) = Inl e" using less by blast
    with Suc assms show ?thesis by (simp add: lookupR_def Let_def)
  qed simp
  have fields: "\<exists>e. gen_fields_conf d g fs i = Inl e" if "Suc d \<le> depth" "f \<in> set fs" for d i fs
    using that(2)
  proof (induction fs)
    case (Cons x fs)
    show ?case
    proof (cases "x = f")
      case True
      with single [OF that(1), of i] show ?thesis by auto
    next
      case False
      with Cons obtain e where e: "gen_fields_conf d g fs i = Inl e" by auto
      show ?thesis
        by (cases "gen_single_conf d g x i") (auto simp: e)
    qed
  qed simp
  show ?case
  proof (cases depth)
    case (Suc d)
    with fields [of d "md_field m" indent] assms(2) show ?thesis by simp
  qed simp
qed

definition tree_desc :: file_desc where
  "tree_desc =
     \<lparr>fl_package = ''Proto.conf'', fl_dependency = [],
      fl_message_type =
        [\<lparr>md_name = ''Leaf'', md_field =
            [\<lparr>fd_name = ''id'', fd_type = TYPE_INT32, fd_label = LABEL_REPEATED, fd_type_name = []\<rparr>]\<rparr>,
         \<lparr>md_name = ''Root'', md_field =
            [\<lparr>fd_name = ''leaf'', fd_type = TYPE_MESSAGE, fd_label = LABEL_OPTIONAL,
              fd_type_name = ''.Proto.conf.Leaf''\<rparr>]\<rparr>]\<rparr>"

lemma tree_messages:
  "all_messages tree_desc = [''Leaf'' \<mapsto> fl_message_type tree_desc ! 0, ''Root'' \<mapsto> fl_message_type tree_desc ! 1]"
  by (simp add: all_messages_def tree_desc_def)

lemma tree_refs:
  "refs (fl_message_type tree_desc ! 0) = []" "refs (fl_message_type tree_desc ! 1) = [''Leaf'']"
  by code_simp+

theorem conf_output_returns_witness:
  "\<exists>s. conf_output 1000 tree_desc ''Root'' = Inr s \<and> brace_scan 0 s = Some 0"
proof (rule conf_output_returns)
  show "closed_ranking (all_messages tree_desc) (\<lambda>n. if n = ''Root'' then 1 else 0)"
    using tree_refs by (auto simp: closed_ranking_def tree_messages split: if_splits)
  show "all_messages tree_desc ''Root'' = Some (fl_message_type tree_desc ! 1)"
    by (simp add: tree_messages)
  show "2 * (if ''Root'' = ''Root'' then 1 else 0) + 1 < (1000 :: nat)" by simp
  show "brace_free (fd_name f)" if "m \<in> set (fl_message_type tree_desc)" "f \<in> set (md_field m)" for m f
    using that by (auto simp: tree_desc_def)
qed

definition self_msg :: msg_desc where
  "self_msg = \<lparr>md_name = ''Node'', md_field =
     [\<lparr>fd_name = ''next'', fd_type = TYPE_MESSAGE, fd_label = LABEL_OPTIONAL, fd_type_name = ''.Proto.a.Node''\<rparr>]\<rparr>"

theorem gen_code_conf_recursive_raises_witness:
  "\<exists>e. gen_code_conf 1000 [''Node'' \<mapsto> self_msg] self_msg 0 = Inl e"
proof (rule gen_code_conf_recursive_raises [where t = "''Node''" and f = "md_field self_msg ! 0"])
  show "last (py_split ''.'' (fd_type_name (md_field self_msg ! 0))) = ''Node''" by code_simp
qed (simp_all add: self_msg_def)

end
