(* ===== verification/Wizard2svr.thy ===== *)
theory Wizard2svr
  imports Templates Yarf_Util
begin

text \<open>
  \<open>src/tools/wizard2svr.py\<close>: the wizard that lays out a new server project beside the yarf
  directory. The three answers typed at the prompts are arguments of \<open>main_wizard\<close>; the
  prompts themselves are the constants \<open>svr_dir_desc\<close> to \<open>svr_include_desc\<close>.
\<close>

section \<open>Texts\<close>

definition svr_dir_desc :: string where
  \<open>svr_dir_desc = join_lines
    [[],
     ''An application code is placed in directory that is equal to yarf like this:'',
     ''--your_workspace_dir'',
     [],
     ''----yarf'',
     ''------include'',
     ''------lib'',
     ''------3rd'',
     ''------tools'',
     [],
     ''----your_svr_name'',
     ''------CMakeLists.txt'',
     ''------build'',
     ''------include'',
     ''------src'',
     ''--------your_svr_name_main.cc'',
     ''------bin'',
     ''------conf'',
     []]\<close>

definition svr_name_desc :: string where
  \<open>svr_name_desc = join_lines
    [''Please input your svr name: '',
     []]\<close>

definition svr_type_desc :: string where
  \<open>svr_type_desc = join_lines
    [''Please input your svr type: '',
     ''1 simple app'',
     ''2 multi thread proxy'',
     ''3 async process svr'',
     ''4 net svr'',
     []]\<close>

definition svr_include_desc :: string where
  \<open>svr_include_desc = join_lines
    [''Please input your include type: '',
     ''1 simple, only log.h and err.h, i will add by myself'',
     ''2 full, all yarf include files'',
     []]\<close>

definition cmake_main :: string where
  \<open>cmake_main = join_lines
    [[],
     ''########################################################'',
     ''#'',
     ''cmake_minimum_required (VERSION 2.8)'',
     [],
     ''project($$svr_name$$)'',
     [],
     [],
     ''#--------------------------------------------------------'',
     ''set(CMAKE_CXX_FLAGS "${CMAKE_CXX_FLAGS} -Wall -g -fPIC -std=c++0x")'',
     [],
     ''#--------------------------------------------------------'',
     ''# child dir can not use CMAKE_CURRENT_SOURCE_DIR'',
     ''set(WORK_DIR ${CMAKE_CURRENT_SOURCE_DIR}/)'',
     [],
     ''set(YARF_INC_DIR ${WORK_DIR}/../yarf/include/)'',
     ''set(YARF_LIB_DIR ${WORK_DIR}/../yarf/lib)'',
     [],
     ''set(GTEST_INC_DIR ${WORK_DIR}/../3rd/gtest1.8/include)'',
     ''set(GTEST_LIB_DIR ${WORK_DIR}/../3rd/gtest1.8/lib)'',
     [],
     ''set(SELF_INC_DIR ${WORK_DIR}/include/)'',
     [],
     [],
     ''#--------------------------------------------------------'',
     ''include_directories(${YARF_INC_DIR} ${GTEST_INC_DIR} ${SELF_INC_DIR})'',
     ''link_directories(${YARF_LIB_DIR})'',
     [],
     ''set(LIBRARY_OUTPUT_PATH ${WORK_DIR}/lib/)'',
     ''set(EXECUTABLE_OUTPUT_PATH ${WORK_DIR}/bin)'',
     [],
     ''add_subdirectory(src)'',
     []]\<close>

definition cmake_src :: string where
  \<open>cmake_src = join_lines
    [[],
     ''cmake_minimum_required(VERSION 2.8)'',
     [],
     ''aux_source_directory(. SRC)'',
     [],
     ''add_executable(${PROJECT_NAME} ${SRC}) '',
     [],
     ''target_link_libraries(${PROJECT_NAME} yarf)'',
     ''#R7core comm proto_gen table protobuf flatbuffers pthread mysqlclient dl rt)     '',
     []]\<close>

definition main_inc_begin :: string where
  \<open>main_inc_begin = join_lines
    [[],
     ''#ifndef $$MACRO$$'',
     ''#define $$MACRO$$'',
     [],
     ''#include "yarf/log.h"'',
     ''#include "yarf/err.h"'',
     []]\<close>

definition main_inc_end :: string where
  \<open>main_inc_end = join_lines
    [[],
     ''#endif // $$MACRO$$'',
     [],
     []]\<close>

definition simple_main_cc :: string where
  \<open>simple_main_cc = join_lines
    [[],
     [],
     ''#include "$$svr_name$$.h"'',
     [],
     ''int main() {'',
     ''  DEBUG_LOG("main begin");'',
     ''  return 0;'',
     ''}'',
     [],
     []]\<close>

section \<open>The wizard\<close>

text \<open>\<open>os.path.split(p)[0]\<close>.\<close>

definition path_head :: "string \<Rightarrow> string" where
  "path_head p =
     (let i = py_rfind p ''/'' + 1; head = py_slice p 0 i in
      if head \<noteq> [] \<and> \<not> list_all (\<lambda>c. c = CHR ''/'') head
      then rev (dropWhile (\<lambda>c. c = CHR ''/'') (rev head)) else head)"

definition main_dir :: "string \<Rightarrow> string \<Rightarrow> string" where
  "main_dir argv0 svr_name = path_head argv0 @ ''/../../'' @ svr_name"

text \<open>The directories in the order in which they are made, and the files.\<close>

definition project_dirs :: "string \<Rightarrow> string list" where
  "project_dirs d =
     [d, d @ ''/build'', d @ ''/include'', d @ ''/src'', d @ ''/bin'', d @ ''/conf'', d @ ''/3rd'']"

definition inc_path :: "string \<Rightarrow> string \<Rightarrow> string" where
  "inc_path d svr_name = d @ ''/include'' @ ''/'' @ svr_name @ ''.h''"

definition src_path :: "string \<Rightarrow> string \<Rightarrow> string" where
  "src_path d svr_name = d @ ''/src'' @ ''/'' @ svr_name @ ''_main.cc''"

definition main_make_path :: "string \<Rightarrow> string" where
  "main_make_path d = d @ ''/CMakeLists.txt''"

definition src_make_path :: "string \<Rightarrow> string" where
  "src_make_path d = d @ ''/src'' @ ''/CMakeLists.txt''"

text \<open>The opens of the \<open>try\<close> block, in order; the state reached and whether one failed.\<close>

fun open_all :: "fs \<Rightarrow> string list \<Rightarrow> fs \<times> bool" where
  "open_all f [] = (f, True)"
| "open_all f (p # ps) = (case open_w f p of Inl e \<Rightarrow> (f, False) | Inr f' \<Rightarrow> open_all f' ps)"

definition svr_macro :: "string \<Rightarrow> string" where
  "svr_macro svr_name = py_upper svr_name @ ''_'' @ py_upper svr_name @ ''_H_''"

definition write_project :: "string \<Rightarrow> string \<Rightarrow> fs \<Rightarrow> fs" where
  "write_project d svr_name f =
     (let f1 = file_write f (main_make_path d) (replaces cmake_main [(''svr_name'', svr_name)]);
          f2 = file_write f1 (src_make_path d) (replaces cmake_src [(''svr_name'', svr_name)]);
          f3 = file_write f2 (src_path d svr_name) (replaces simple_main_cc [(''svr_name'', svr_name)]);
          macro = svr_macro svr_name;
          f4 = file_write f3 (inc_path d svr_name) (replaces main_inc_begin [(''MACRO'', macro)])
      in file_write f4 (inc_path d svr_name) (replaces main_inc_end [(''MACRO'', macro)]))"

text \<open>\<open>main\<close>: a directory that cannot be made raises; a file that cannot be opened ends the run.\<close>

fun make_dirs :: "fs \<Rightarrow> string list \<Rightarrow> fs \<times> unit res" where
  "make_dirs f [] = (f, Inr ())"
| "make_dirs f (d # ds) = (case mkdir_wrapper f d of Inl e \<Rightarrow> (f, Inl e) | Inr f' \<Rightarrow> make_dirs f' ds)"

definition main_wizard ::
  "string \<Rightarrow> string \<Rightarrow> string \<Rightarrow> string \<Rightarrow> fs \<Rightarrow> fs \<times> unit res" where
  "main_wizard argv0 svr_name svr_type inc_type f =
     (let d = main_dir argv0 svr_name in
      case make_dirs f (project_dirs d) of
        (f1, Inl e) \<Rightarrow> (f1, Inl e)
      | (f1, Inr _) \<Rightarrow>
         (case open_all f1 [inc_path d svr_name, src_path d svr_name, main_make_path d, src_make_path d] of
            (f2, False) \<Rightarrow> (f2, Inr ())
          | (f2, True) \<Rightarrow> (write_project d svr_name f2, Inr ())))"

section \<open>What it leaves behind\<close>

lemma make_dirs_ok:
  assumes "\<And>p. p \<in> set ds \<Longrightarrow> fs_deny f p = None"
    and "\<And>p. p \<in> set ds \<Longrightarrow> fs_files f p = None"
  shows "make_dirs f ds = (f\<lparr>fs_dirs := fs_dirs f \<union> set ds\<rparr>, Inr ())"
  using assms
proof (induction ds arbitrary: f)
  case (Cons d ds)
  have "mkdir_wrapper f d = Inr (f\<lparr>fs_dirs := insert d (fs_dirs f)\<rparr>)"
    using Cons.prems by (auto simp: mkdir_wrapper_cases path_exists_def insert_absorb)
  moreover have "make_dirs (f\<lparr>fs_dirs := insert d (fs_dirs f)\<rparr>) ds =
      (f\<lparr>fs_dirs := insert d (fs_dirs f) \<union> set ds\<rparr>, Inr ())"
    by (subst Cons.IH) (use Cons.prems in auto)
  ultimately show ?case by simp
qed simp

lemma open_all_ok:
  assumes "\<And>p. p \<in> set ps \<Longrightarrow> fs_deny f p = None" "\<And>p. p \<in> set ps \<Longrightarrow> p \<notin> fs_dirs f"
  shows "open_all f ps = (f\<lparr>fs_files := (\<lambda>p. if p \<in> set ps then Some [] else fs_files f p)\<rparr>, True)"
  using assms
proof (induction ps arbitrary: f)
  case (Cons p ps)
  then show ?case by (auto simp: open_w_def fun_eq_iff)
qed simp

lemma project_paths_distinct:
  "inc_path d n \<noteq> src_path d n" "inc_path d n \<noteq> main_make_path d" "inc_path d n \<noteq> src_make_path d"
  "src_path d n \<noteq> main_make_path d" "main_make_path d \<noteq> src_make_path d"
  by (simp_all add: inc_path_def src_path_def main_make_path_def src_make_path_def)

lemma src_path_make: "src_path d n = src_make_path d \<longleftrightarrow> n @ ''_main.cc'' = ''CMakeLists.txt''"
  by (simp add: src_path_def src_make_path_def)

lemma not_main_cc: "n @ ''_main.cc'' \<noteq> ''CMakeLists.txt''"
proof
  assume "n @ ''_main.cc'' = ''CMakeLists.txt''"
  then have "last (n @ ''_main.cc'') = last ''CMakeLists.txt''" by (rule arg_cong)
  then show False by simp
qed

lemma src_path_not_make: "src_path d n \<noteq> src_make_path d"
  by (simp add: src_path_make not_main_cc)

lemmas project_paths = project_paths_distinct src_path_not_make
  project_paths_distinct [symmetric] src_path_not_make [symmetric]

lemma file_write_opened:
  "fs_files f p = Some t \<Longrightarrow> file_write f p s = f\<lparr>fs_files := (fs_files f)(p \<mapsto> t @ s)\<rparr>"
  by (simp add: file_write_def)

definition project_files :: "string \<Rightarrow> string \<Rightarrow> string list" where
  "project_files d n = [inc_path d n, src_path d n, main_make_path d, src_make_path d]"

lemma project_files_not_dirs: "p \<in> set (project_files d n) \<Longrightarrow> p \<notin> set (project_dirs d)"
  by (auto simp: project_files_def project_dirs_def inc_path_def src_path_def main_make_path_def
      src_make_path_def)

lemma write_project_files:
  assumes "\<And>p. p \<in> set (project_files d n) \<Longrightarrow> fs_files f p = Some []"
  shows "write_project d n f = f\<lparr>fs_files := (fs_files f)
    (main_make_path d \<mapsto> replaces cmake_main [(''svr_name'', n)],
     src_make_path d \<mapsto> replaces cmake_src [(''svr_name'', n)],
     src_path d n \<mapsto> replaces simple_main_cc [(''svr_name'', n)],
     inc_path d n \<mapsto> replaces main_inc_begin [(''MACRO'', svr_macro n)]
                     @ replaces main_inc_end [(''MACRO'', svr_macro n)])\<rparr>"
  using assms by (simp add: write_project_def file_write_opened project_files_def project_paths Let_def)

text \<open>
  C38: on a system that refuses nothing the wizard creates the seven directories, whether or
  not some of them exist, and leaves the two CMake files, the main source and the header with
  their texts, replacing what those files held; nothing else changes.
\<close>

theorem main_wizard_project:
  assumes "\<And>p. p \<in> set (project_dirs d) \<union> set (project_files d svr_name) \<Longrightarrow> fs_deny f p = None"
    and "\<And>p. p \<in> set (project_dirs d) \<Longrightarrow> fs_files f p = None"
    and "\<And>p. p \<in> set (project_files d svr_name) \<Longrightarrow> p \<notin> fs_dirs f"
    and "d = main_dir argv0 svr_name"
  shows "main_wizard argv0 svr_name svr_type inc_type f =
    (f\<lparr>fs_dirs := fs_dirs f \<union> set (project_dirs d),
       fs_files := (fs_files f)
         (main_make_path d \<mapsto> replaces cmake_main [(''svr_name'', svr_name)],
          src_make_path d \<mapsto> replaces cmake_src [(''svr_name'', svr_name)],
          src_path d svr_name \<mapsto> replaces simple_main_cc [(''svr_name'', svr_name)],
          inc_path d svr_name \<mapsto> replaces main_inc_begin [(''MACRO'', svr_macro svr_name)]
                                 @ replaces main_inc_end [(''MACRO'', svr_macro svr_name)])\<rparr>, Inr ())"
proof -
  let ?f1 = "f\<lparr>fs_dirs := fs_dirs f \<union> set (project_dirs d)\<rparr>"
  let ?f2 = "?f1\<lparr>fs_files := (\<lambda>p. if p \<in> set (project_files d svr_name) then Some [] else fs_files f p)\<rparr>"
  have 1: "make_dirs f (project_dirs d) = (?f1, Inr ())"
    using assms(1,2) by (intro make_dirs_ok) auto
  have 2: "open_all ?f1 (project_files d svr_name) = (?f2, True)"
    using assms(1,3) project_files_not_dirs by (subst open_all_ok) (auto cong: if_cong)
  have 3: "write_project d svr_name ?f2 = ?f2\<lparr>fs_files := (fs_files ?f2)
    (main_make_path d \<mapsto> replaces cmake_main [(''svr_name'', svr_name)],
     src_make_path d \<mapsto> replaces cmake_src [(''svr_name'', svr_name)],
     src_path d svr_name \<mapsto> replaces simple_main_cc [(''svr_name'', svr_name)],
     inc_path d svr_name \<mapsto> replaces main_inc_begin [(''MACRO'', svr_macro svr_name)]
                     @ replaces main_inc_end [(''MACRO'', svr_macro svr_name)])\<rparr>"
    by (rule write_project_files) simp
  show ?thesis
    unfolding main_wizard_def assms(4) [symmetric] Let_def 1
    using 2 3 by (auto simp: project_files_def fun_eq_iff)
qed

definition empty_fs :: fs where
  "empty_fs = \<lparr>fs_dirs = {}, fs_files = Map.empty, fs_deny = Map.empty\<rparr>"

theorem main_wizard_project_witness:
  "\<exists>f'. main_wizard ''yarf/tools/wizard2svr.py'' ''svr'' ''1'' ''2'' empty_fs = (f', Inr ()) \<and>
     ''yarf/tools/../../svr/conf'' \<in> fs_dirs f' \<and>
     fs_files f' (main_make_path ''yarf/tools/../../svr'') =
       Some (replaces cmake_main [(''svr_name'', ''svr'')])"
proof -
  define d where "d = ''yarf/tools/../../svr''"
  have d: "d = main_dir ''yarf/tools/wizard2svr.py'' ''svr''" unfolding d_def by code_simp
  have c: "''yarf/tools/../../svr/conf'' \<in> set (project_dirs d)"
    by (simp add: project_dirs_def d_def)
  note run = main_wizard_project [of d "''svr''" empty_fs, OF _ _ _ d, of "''1''" "''2''"]
  show ?thesis
    unfolding d_def [symmetric]
    by (subst run) (use c in \<open>simp_all add: empty_fs_def project_paths\<close>)
qed

lemma open_all_failed:
  "open_all f ps = (f', False) \<Longrightarrow>
     fs_dirs f' = fs_dirs f \<and> (\<exists>p \<in> set ps. \<exists>e. open_w f' p = Inl e) \<and>
     (\<forall>p. fs_files f' p = fs_files f p \<or> p \<in> set ps \<and> fs_files f' p = Some [])"
proof (induction ps arbitrary: f)
  case (Cons p ps)
  show ?case
  proof (cases "open_w f p")
    case (Inl e)
    with Cons.prems show ?thesis by auto
  next
    case (Inr g)
    then have g: "fs_dirs g = fs_dirs f" "fs_files g = (fs_files f)(p \<mapsto> [])"
      by (auto simp: open_w_def split: option.splits if_splits)
    from Inr Cons.prems have "open_all g ps = (f', False)" by simp
    from Cons.IH [OF this] g show ?thesis by (auto split: if_splits)
  qed
qed simp

text \<open>
  when the directories can be made but some project file cannot be opened, the wizard
  still ends normally, having written no text: every project file is as before or empty.
\<close>

theorem main_wizard_open_failure:
  assumes "\<And>p. p \<in> set (project_dirs d) \<Longrightarrow> fs_deny f p = None \<and> fs_files f p = None"
    and "q \<in> set (project_files d svr_name)" "fs_deny f q = Some e"
    and "d = main_dir argv0 svr_name"
  shows "\<exists>f'. main_wizard argv0 svr_name svr_type inc_type f = (f', Inr ()) \<and>
    (\<forall>p. fs_files f' p = fs_files f p \<or> p \<in> set (project_files d svr_name) \<and> fs_files f' p = Some [])"
proof -
  let ?f1 = "f\<lparr>fs_dirs := fs_dirs f \<union> set (project_dirs d)\<rparr>"
  have 1: "make_dirs f (project_dirs d) = (?f1, Inr ())"
    using assms(1) by (intro make_dirs_ok) auto
  have deny: "q \<in> set ps \<Longrightarrow> fs_deny g q = Some e \<Longrightarrow> \<not> snd (open_all g ps)" for ps g
    by (induction g ps rule: open_all.induct) (auto simp: open_w_def split: option.splits if_splits)
  obtain f2 where 2: "open_all ?f1 (project_files d svr_name) = (f2, False)"
    using deny [OF assms(2), of ?f1] assms(3) by (cases "open_all ?f1 (project_files d svr_name)") auto
  have "main_wizard argv0 svr_name svr_type inc_type f = (f2, Inr ())"
    unfolding main_wizard_def assms(4) [symmetric] Let_def 1 using 2 by (simp add: project_files_def)
  with open_all_failed [OF 2] show ?thesis by auto
qed

theorem main_wizard_open_failure_witness:
  "\<exists>f'. main_wizard ''yarf/tools/wizard2svr.py'' ''svr'' ''1'' ''2''
       (empty_fs\<lparr>fs_deny := [''yarf/tools/../../svr/CMakeLists.txt'' \<mapsto> ''denied'']\<rparr>) = (f', Inr ()) \<and>
     (\<forall>p. fs_files f' p = None \<or> fs_files f' p = Some [])"
proof -
  let ?d = "''yarf/tools/../../svr''"
  let ?f = "empty_fs\<lparr>fs_deny := [''yarf/tools/../../svr/CMakeLists.txt'' \<mapsto> ''denied'']\<rparr>"
  have d: "?d = main_dir ''yarf/tools/wizard2svr.py'' ''svr''" by code_simp
  have "\<exists>f'. main_wizard ''yarf/tools/wizard2svr.py'' ''svr'' ''1'' ''2'' ?f = (f', Inr ()) \<and>
      (\<forall>p. fs_files f' p = fs_files ?f p \<or>
         p \<in> set (project_files ?d ''svr'') \<and> fs_files f' p = Some [])"
    by (rule main_wizard_open_failure [OF _ _ _ d, of _ "main_make_path ?d" "''denied''"])
      (auto simp: empty_fs_def project_dirs_def project_files_def main_make_path_def)
  then show ?thesis by (auto simp: empty_fs_def)
qed

end
