(* ===== verification/Bin_Packer.thy ===== *)
theory Bin_Packer
  imports Prelude "HOL-Library.Word"
begin

text \<open>
  \<open>include/yarf/net/bin_packer.h\<close>: the encoder and decoder that the generated \<open>Encode\<close> and
  \<open>Decode\<close> functions call. Memory is a map from addresses to bytes; \<open>size_t\<close> values are
  naturals with the wrap-around at \<open>2^64\<close> written out; an integer value is its bit pattern
  as a natural, so the signed and unsigned overloads of one width are the same operation.
  The host is little-endian. A \<open>false\<close> return is \<open>None\<close>.
\<close>

type_synonym byte = "8 word"
type_synonym mem = "nat \<Rightarrow> byte"

section \<open>Bytes of an integer\<close>

fun le_bytes :: "nat \<Rightarrow> nat \<Rightarrow> byte list" where
  "le_bytes 0 v = []"
| "le_bytes (Suc k) v = word_of_nat v # le_bytes k (v div 256)"

fun of_le :: "byte list \<Rightarrow> nat" where
  "of_le [] = 0"
| "of_le (b # bs) = unat b + 256 * of_le bs"

text \<open>\<open>htonl\<close> and \<open>ntohl\<close>, \<open>htons\<close> and \<open>ntohs\<close> of a little-endian host reverse the bytes.\<close>

definition ntohl :: "nat \<Rightarrow> nat" where
  "ntohl v = of_le (rev (le_bytes 4 v))"

definition ntohs :: "nat \<Rightarrow> nat" where
  "ntohs v = of_le (rev (le_bytes 2 v))"

text \<open>\<open>BinEncoder::htonll\<close> and \<open>BinDecoder::ntohll\<close>.\<close>

definition htonll :: "nat \<Rightarrow> nat" where
  "htonll host =
     (let net = (ntohl (host mod 2 ^ 32) * 2 ^ 32) mod 2 ^ 64
      in (net + ntohl ((host div 2 ^ 32) mod 2 ^ 32)) mod 2 ^ 64)"

definition ntohll :: "nat \<Rightarrow> nat" where
  "ntohll net =
     (let host = (ntohl (net mod 2 ^ 32) * 2 ^ 32) mod 2 ^ 64
      in (host + ntohl ((net div 2 ^ 32) mod 2 ^ 32)) mod 2 ^ 64)"

lemma length_le_bytes [simp]: "length (le_bytes k v) = k"
  by (induction k arbitrary: v) auto

lemma unat_byte: "unat (b :: byte) < 256"
proof -
  have "unat b < 2 ^ LENGTH(8)" by (rule unsigned_less)
  then show ?thesis by simp
qed

lemma of_le_bound: "of_le bs < 256 ^ length bs"
proof (induction bs)
  case (Cons b bs)
  have "unat b < 256" by (rule unat_byte)
  with Cons show ?case by simp
qed simp

lemma of_le_le_bytes: "of_le (le_bytes k v) = v mod 256 ^ k"
proof (induction k arbitrary: v)
  case (Suc k)
  have "unat (word_of_nat v :: byte) = v mod 256" by (simp add: unat_of_nat)
  then show ?case by (simp add: Suc mod_mult2_eq)
qed simp

lemma le_bytes_of_le: "length bs = k \<Longrightarrow> le_bytes k (of_le bs) = bs"
proof (induction bs arbitrary: k)
  case (Cons b bs)
  have "unat b < 256" by (rule unat_byte)
  then have "(unat b + 256 * of_le bs) div 256 = of_le bs" by simp
  moreover have "(word_of_nat (unat b + 256 * of_le bs) :: byte) = b"
  proof -
    have "(256 :: byte) = 0" by simp
    then show ?thesis by (simp only: of_nat_add of_nat_mult of_nat_numeral of_nat_unat) simp
  qed
  ultimately show ?case using Cons by auto
qed simp

lemma le_bytes_mod: "le_bytes k (v mod 256 ^ k) = le_bytes k v"
  using le_bytes_of_le [of "le_bytes k v" k] by (simp add: of_le_le_bytes)

lemma le_bytes_append: "le_bytes (j + k) v = le_bytes j v @ le_bytes k (v div 256 ^ j)"
  by (induction j arbitrary: v) (auto simp: div_mult2_eq)

text \<open>The wire form of an integer: its bytes, the most significant first.\<close>

definition be_bytes :: "nat \<Rightarrow> nat \<Rightarrow> byte list" where
  "be_bytes k v = rev (le_bytes k v)"

definition of_be :: "byte list \<Rightarrow> nat" where
  "of_be bs = of_le (rev bs)"

lemma length_be_bytes [simp]: "length (be_bytes k v) = k"
  by (simp add: be_bytes_def)

lemma of_be_be_bytes: "v < 256 ^ k \<Longrightarrow> of_be (be_bytes k v) = v"
  by (simp add: of_be_def be_bytes_def of_le_le_bytes)

lemma le_bytes_ntohl: "le_bytes 4 (ntohl v) = be_bytes 4 v"
  by (simp add: ntohl_def be_bytes_def le_bytes_of_le)

lemma le_bytes_ntohs: "le_bytes 2 (ntohs v) = be_bytes 2 v"
  by (simp add: ntohs_def be_bytes_def le_bytes_of_le)

lemma ntohl_bound: "ntohl v < 2 ^ 32"
  using of_le_bound [of "rev (le_bytes 4 v)"] by (simp add: ntohl_def)

lemma ntohll_htonll: "ntohll = htonll"
  by (simp add: fun_eq_iff ntohll_def htonll_def)

lemma le_bytes_htonll: "le_bytes 8 (htonll v) = be_bytes 8 v"
proof -
  let ?a = "ntohl (v mod 2 ^ 32)" and ?b = "ntohl ((v div 2 ^ 32) mod 2 ^ 32)"
  have bounds: "?a < 2 ^ 32" "?b < 2 ^ 32" by (rule ntohl_bound)+
  have "?a * 2 ^ 32 + ?b < 2 ^ 64" using bounds by simp
  then have h: "htonll v = ?b + 256 ^ 4 * ?a" by (simp add: htonll_def Let_def)
  have "le_bytes 8 (htonll v) = le_bytes 4 (htonll v) @ le_bytes 4 (htonll v div 256 ^ 4)"
    using le_bytes_append [of 4 4 "htonll v"] by simp
  also have "le_bytes 4 (htonll v) = le_bytes 4 ?b"
    using le_bytes_mod [of 4 "htonll v"] bounds(2) by (simp add: h)
  also have "htonll v div 256 ^ 4 = ?a" using bounds(2) by (simp add: h)
  also have "le_bytes 4 ?b = be_bytes 4 (v div 256 ^ 4)"
    using le_bytes_mod [of 4 "v div 2 ^ 32"] by (simp add: le_bytes_ntohl be_bytes_def)
  also have "le_bytes 4 ?a = be_bytes 4 v"
    using le_bytes_mod [of 4 v] by (simp add: le_bytes_ntohl be_bytes_def)
  finally show ?thesis
    using le_bytes_append [of 4 4 v] by (simp add: be_bytes_def)
qed

section \<open>Memory\<close>

definition put_bytes :: "mem \<Rightarrow> nat \<Rightarrow> byte list \<Rightarrow> mem" where
  "put_bytes m a bs = (\<lambda>x. if a \<le> x \<and> x < a + length bs then bs ! (x - a) else m x)"

definition get_bytes :: "mem \<Rightarrow> nat \<Rightarrow> nat \<Rightarrow> byte list" where
  "get_bytes m a n = map m [a ..< a + n]"

lemma length_get_bytes [simp]: "length (get_bytes m a n) = n"
  by (simp add: get_bytes_def)

lemma put_bytes_Nil [simp]: "put_bytes m a [] = m"
  by (auto simp: put_bytes_def fun_eq_iff)

lemma put_bytes_append: "put_bytes (put_bytes m a xs) (a + length xs) ys = put_bytes m a (xs @ ys)"
  by (auto simp: put_bytes_def fun_eq_iff nth_append)

lemma put_bytes_before:
  "put_bytes (put_bytes m (a + length xs) ys) a xs = put_bytes m a (xs @ ys)"
  by (auto simp: put_bytes_def fun_eq_iff nth_append)

lemma get_put_bytes: "get_bytes (put_bytes m a bs) a (length bs) = bs"
proof (rule nth_equalityI)
  fix i assume "i < length (get_bytes (put_bytes m a bs) a (length bs))"
  then have i: "i < length bs" by simp
  then have "get_bytes (put_bytes m a bs) a (length bs) ! i = put_bytes m a bs (a + i)"
    by (simp add: get_bytes_def del: upt_Suc)
  with i show "get_bytes (put_bytes m a bs) a (length bs) ! i = bs ! i"
    by (simp add: put_bytes_def)
qed simp

lemma get_bytes_append: "get_bytes m a (j + k) = get_bytes m a j @ get_bytes m (a + j) k"
proof -
  have "[a ..< a + (j + k)] = [a ..< a + j] @ [a + j ..< a + j + k]"
    using upt_add_eq_append [of a "a + j" k] by (simp add: add.assoc)
  then show ?thesis by (simp add: get_bytes_def)
qed

lemma get_bytes_split:
  "get_bytes m a (length xs + length ys) = xs @ ys \<longleftrightarrow>
     get_bytes m a (length xs) = xs \<and> get_bytes m (a + length xs) (length ys) = ys"
  by (simp add: get_bytes_append)

lemma put_bytes_outside: "x < a \<or> a + length bs \<le> x \<Longrightarrow> put_bytes m a bs x = m x"
  by (auto simp: put_bytes_def)

section \<open>BinEncoder\<close>

record encoder =
  write_pos :: nat
  e_buffer :: nat
  e_len :: nat

definition BinEncoder :: "nat \<Rightarrow> nat \<Rightarrow> encoder" where
  "BinEncoder buffer len = \<lparr>write_pos = 0, e_buffer = buffer, e_len = len\<rparr>"

definition write_fits :: "encoder \<Rightarrow> nat \<Rightarrow> bool" where
  "write_fits e n \<longleftrightarrow> \<not> (write_pos e + n) mod 2 ^ 64 > e_len e"

definition advance_write :: "encoder \<Rightarrow> nat \<Rightarrow> encoder" where
  "advance_write e n = e\<lparr>write_pos := (write_pos e + n) mod 2 ^ 64\<rparr>"

definition SkipWritePos :: "encoder \<Rightarrow> nat \<Rightarrow> encoder option" where
  "SkipWritePos e n = (if write_fits e n then Some (advance_write e n) else None)"

text \<open>\<open>Write(const void *, size_t)\<close>; the integer overloads write the converted value.\<close>

definition Write_raw :: "encoder \<Rightarrow> mem \<Rightarrow> byte list \<Rightarrow> (encoder \<times> mem) option" where
  "Write_raw e m bs =
     (if write_fits e (length bs)
      then Some (advance_write e (length bs), put_bytes m (e_buffer e + write_pos e) bs)
      else None)"

definition Write8 :: "encoder \<Rightarrow> mem \<Rightarrow> nat \<Rightarrow> (encoder \<times> mem) option" where
  "Write8 e m v = Write_raw e m (le_bytes 1 v)"

definition Write16 :: "encoder \<Rightarrow> mem \<Rightarrow> nat \<Rightarrow> (encoder \<times> mem) option" where
  "Write16 e m v = Write_raw e m (le_bytes 2 (ntohs v))"

definition Write32 :: "encoder \<Rightarrow> mem \<Rightarrow> nat \<Rightarrow> (encoder \<times> mem) option" where
  "Write32 e m v = Write_raw e m (le_bytes 4 (ntohl v))"

definition Write64 :: "encoder \<Rightarrow> mem \<Rightarrow> nat \<Rightarrow> (encoder \<times> mem) option" where
  "Write64 e m v = Write_raw e m (le_bytes 8 (htonll v))"

section \<open>BinDecoder\<close>

record decoder =
  read_pos :: nat
  d_buffer :: nat
  d_len :: nat

definition BinDecoder :: "nat \<Rightarrow> nat \<Rightarrow> decoder" where
  "BinDecoder buffer len = \<lparr>read_pos = 0, d_buffer = buffer, d_len = len\<rparr>"

definition read_fits :: "decoder \<Rightarrow> nat \<Rightarrow> bool" where
  "read_fits d n \<longleftrightarrow> \<not> (read_pos d + n) mod 2 ^ 64 > d_len d"

definition advance_read :: "decoder \<Rightarrow> nat \<Rightarrow> decoder" where
  "advance_read d n = d\<lparr>read_pos := (read_pos d + n) mod 2 ^ 64\<rparr>"

definition SkipReadPos :: "decoder \<Rightarrow> nat \<Rightarrow> decoder option" where
  "SkipReadPos d n = (if read_fits d n then Some (advance_read d n) else None)"

definition Read_raw :: "decoder \<Rightarrow> mem \<Rightarrow> nat \<Rightarrow> (decoder \<times> byte list) option" where
  "Read_raw d m n =
     (if read_fits d n then Some (advance_read d n, get_bytes m (d_buffer d + read_pos d) n) else None)"

definition Read8 :: "decoder \<Rightarrow> mem \<Rightarrow> (decoder \<times> nat) option" where
  "Read8 d m = map_option (\<lambda>(d', bs). (d', of_le bs)) (Read_raw d m 1)"

definition Read16 :: "decoder \<Rightarrow> mem \<Rightarrow> (decoder \<times> nat) option" where
  "Read16 d m = map_option (\<lambda>(d', bs). (d', ntohs (of_le bs))) (Read_raw d m 2)"

definition Read32 :: "decoder \<Rightarrow> mem \<Rightarrow> (decoder \<times> nat) option" where
  "Read32 d m = map_option (\<lambda>(d', bs). (d', ntohl (of_le bs))) (Read_raw d m 4)"

definition Read64 :: "decoder \<Rightarrow> mem \<Rightarrow> (decoder \<times> nat) option" where
  "Read64 d m = map_option (\<lambda>(d', bs). (d', ntohll (of_le bs))) (Read_raw d m 8)"

end
