(* ===== verification/Gen_Codec.thy ===== *)
theory Gen_Codec
  imports Bin_Packer
begin

text \<open>
  The meaning of the code that \<open>tools/proto2bin.py\<close> emits: the C++ structures of the header
  templates, their \<open>set_\<close> and \<open>Add\<close> members, and the \<open>Encode\<close> and \<open>Decode\<close> functions put
  together from the encode and decode templates, one clause per template. \<open>wires\<close> is the wire
  format the decoder reads. The theorems: \<open>Encode\<close> writes the wire form and nothing
  else; \<open>Decode\<close> reads it back; and two defects, the \<open>break\<close> after the first element of a
  repeated message and the negative remaining length of a nested message.
\<close>

section \<open>Generated structures\<close>

text \<open>The integer types \<open>prototype2ctype\<close> returns for which \<open>bin_packer.h\<close> has overloads. It also returns \<open>bool\<close>
  and \<open>double\<close>, for which the packer has no overload of \<open>Read\<close>, so that structures with such members do not compile and have no
  counterpart here.\<close>

datatype sty = S32 | S64

fun width :: "sty \<Rightarrow> nat" where
  "width S32 = 4"
| "width S64 = 8"

text \<open>One constructor per field template; the number is the \<open>MAX_..._SIZE\<close> constant.\<close>

datatype gfield =
    GScalar sty
  | GString nat
  | GScalarVec sty nat
  | GStruct "gfield list"
  | GStructVec "gfield list" nat

text \<open>The data members: whole arrays with the live size beside them.\<close>

datatype gval =
    VScalar nat
  | VString "byte list" nat
  | VScalarVec "nat list" nat
  | VStruct "gval list"
  | VStructVec "gval list list" nat

text \<open>A value of the declared C++ type: arrays have their declared length, and the
  size member is at most the maximum.\<close>

fun wt_field :: "gfield \<Rightarrow> gval \<Rightarrow> bool"
and wt_fields :: "gfield list \<Rightarrow> gval list \<Rightarrow> bool" where
  "wt_field (GScalar s) (VScalar x) = (x < 256 ^ width s)"
| "wt_field (GString mx) (VString bs n) = (length bs = mx + 1 \<and> n \<le> mx)"
| "wt_field (GScalarVec s mx) (VScalarVec xs n) =
     (length xs = mx \<and> n \<le> mx \<and> list_all (\<lambda>x. x < 256 ^ width s) xs)"
| "wt_field (GStruct fs) (VStruct vs) = wt_fields fs vs"
| "wt_field (GStructVec fs mx) (VStructVec vss n) =
     (length vss = mx \<and> n \<le> mx \<and> list_all (wt_fields fs) vss)"
| "wt_field _ _ = False"
| "wt_fields [] [] = True"
| "wt_fields (f # fs) (v # vs) = (wt_field f v \<and> wt_fields fs vs)"
| "wt_fields _ _ = False"

text \<open>The maxima are \<open>uint32_t\<close> constants.\<close>

fun max_ok :: "gfield \<Rightarrow> bool" where
  "max_ok (GScalar s) = True"
| "max_ok (GString mx) = (mx < 2 ^ 32 - 1)"
| "max_ok (GScalarVec s mx) = (mx < 2 ^ 32)"
| "max_ok (GStruct fs) = list_all max_ok fs"
| "max_ok (GStructVec fs mx) = (mx < 2 ^ 32 \<and> list_all max_ok fs)"

section \<open>Setters\<close>

text \<open>\<open>strnlen\<close> and \<open>strncpy\<close> on the bytes at the argument.\<close>

definition strnlen :: "byte list \<Rightarrow> nat \<Rightarrow> nat" where
  "strnlen input mx = length (takeWhile (\<lambda>b. b \<noteq> 0) (take mx input))"

definition strncpy :: "byte list \<Rightarrow> byte list \<Rightarrow> nat \<Rightarrow> byte list" where
  "strncpy dst src n =
     (let s = takeWhile (\<lambda>b. b \<noteq> 0) (take n src)
      in s @ replicate (n - length s) 0 @ drop n dst)"

text \<open>\<open>set_f(const char*, uint32_t)\<close> and \<open>set_f(const char*)\<close> of the string template; \<open>None\<close> as the
  input is the null pointer, \<open>None\<close> as the result is \<open>false\<close>. The last byte stored is the
  character \<open>'0'\<close>, 48.\<close>

definition set_string_len :: "nat \<Rightarrow> gval \<Rightarrow> byte list option \<Rightarrow> nat \<Rightarrow> gval option" where
  "set_string_len mx v input len =
     (case (input, v) of
        (Some src, VString dst n) \<Rightarrow>
          if len \<ge> mx + 1 then None
          else Some (VString ((strncpy dst src len)[len := 48]) len)
      | _ \<Rightarrow> None)"

definition set_string :: "nat \<Rightarrow> gval \<Rightarrow> byte list option \<Rightarrow> gval option" where
  "set_string mx v input =
     (case (input, v) of
        (Some src, VString dst n) \<Rightarrow>
          let unreachable_len = mx + 1; cur_len = strnlen src unreachable_len
          in if cur_len \<ge> unreachable_len then None
             else Some (VString ((strncpy dst src cur_len)[cur_len := 48]) cur_len)
      | _ \<Rightarrow> None)"

text \<open>\<open>Add\<close> of the repeated field template.\<close>

definition add_elem :: "nat \<Rightarrow> gval \<Rightarrow> gval \<Rightarrow> gval option" where
  "add_elem mx v x =
     (case (v, x) of
        (VScalarVec xs n, VScalar y) \<Rightarrow>
          if n \<ge> mx then None else Some (VScalarVec (xs[n := y]) (n + 1))
      | (VStructVec vss n, VStruct ys) \<Rightarrow>
          if n \<ge> mx then None else Some (VStructVec (vss[n := ys]) (n + 1))
      | _ \<Rightarrow> None)"

section \<open>Encode\<close>

text \<open>Conversions to a 32-bit \<open>int\<close> and from \<open>int\<close> to \<open>size_t\<close>.\<close>

definition to_int32 :: "int \<Rightarrow> int" where
  "to_int32 x = (x + 2 ^ 31) mod 2 ^ 32 - 2 ^ 31"

definition to_size_t :: "int \<Rightarrow> nat" where
  "to_size_t x = nat (x mod 2 ^ 64)"

definition write_scalar :: "sty \<Rightarrow> nat \<Rightarrow> encoder \<Rightarrow> mem \<Rightarrow> (encoder \<times> mem) option" where
  "write_scalar s x e m = (case s of S32 \<Rightarrow> Write32 e m x | S64 \<Rightarrow> Write64 e m x)"

text \<open>The result of an encode step: the memory, written to even when the step returns
  \<open>false\<close>, and the packer when it does not.\<close>

definition wr :: "mem \<Rightarrow> (encoder \<times> mem) option \<Rightarrow> mem \<times> encoder option" where
  "wr m r = (case r of None \<Rightarrow> (m, None) | Some (e, m') \<Rightarrow> (m', Some e))"

definition seq_enc ::
  "mem \<times> encoder option \<Rightarrow> (encoder \<Rightarrow> mem \<Rightarrow> mem \<times> encoder option) \<Rightarrow> mem \<times> encoder option" where
  "seq_enc r k = (case r of (m, None) \<Rightarrow> (m, None) | (m, Some e) \<Rightarrow> k e m)"

fun write_scalars :: "sty \<Rightarrow> nat list \<Rightarrow> encoder \<Rightarrow> mem \<Rightarrow> mem \<times> encoder option" where
  "write_scalars s [] e m = (m, Some e)"
| "write_scalars s (x # xs) e m = seq_enc (wr m (write_scalar s x e m)) (write_scalars s xs)"

text \<open>\<open>sub_pos\<close>, \<open>sub_len\<close>, the nested \<open>Encode\<close>, then the length and the skip.\<close>

definition encode_sub ::
  "(nat \<Rightarrow> int \<Rightarrow> mem \<Rightarrow> mem \<times> int option) \<Rightarrow> nat \<Rightarrow> int \<Rightarrow> encoder \<Rightarrow> mem \<Rightarrow> mem \<times> encoder option" where
  "encode_sub enc data len e m =
     (let sub_pos = to_int32 (int (write_pos e) + 4);
          sub_len = to_int32 (len - sub_pos)
      in case enc (nat (int data + sub_pos)) sub_len m of
           (m1, None) \<Rightarrow> (m1, None)
         | (m1, Some sub) \<Rightarrow>
             seq_enc (wr m1 (Write32 e m1 (nat (sub mod 2 ^ 32))))
               (\<lambda>e2 m2. (m2, SkipWritePos e2 (to_size_t sub))))"

definition finish_encode :: "mem \<times> encoder option \<Rightarrow> mem \<times> int option" where
  "finish_encode r = (case r of (m, None) \<Rightarrow> (m, None)
                       | (m, Some e) \<Rightarrow> (m, Some (to_int32 (int (write_pos e)))))"

text \<open>\<open>cc_encode_begin\<close> and \<open>cc_encode_end\<close> around the fields.\<close>

definition run_encode ::
  "(nat \<Rightarrow> int \<Rightarrow> encoder \<Rightarrow> mem \<Rightarrow> mem \<times> encoder option) \<Rightarrow> nat \<Rightarrow> int \<Rightarrow> mem \<Rightarrow> mem \<times> int option" where
  "run_encode body data len m =
     (if data = 0 then (m, None)
      else finish_encode (body data len (BinEncoder data (to_size_t len)) m))"

fun encode_field :: "gfield \<Rightarrow> gval \<Rightarrow> nat \<Rightarrow> int \<Rightarrow> encoder \<Rightarrow> mem \<Rightarrow> mem \<times> encoder option"
and encode_fields :: "gfield list \<Rightarrow> gval list \<Rightarrow> nat \<Rightarrow> int \<Rightarrow> encoder \<Rightarrow> mem \<Rightarrow> mem \<times> encoder option" where
  "encode_field (GScalar s) (VScalar x) data len e m = wr m (write_scalar s x e m)"
| "encode_field (GString mx) (VString bs n) data len e m =
     (if n > mx then (m, None)
      else seq_enc (wr m (Write32 e m n)) (\<lambda>e1 m1. wr m1 (Write_raw e1 m1 (take n bs))))"
| "encode_field (GScalarVec s mx) (VScalarVec xs n) data len e m =
     (if n > mx then (m, None)
      else seq_enc (wr m (Write32 e m n)) (write_scalars s (take n xs)))"
| "encode_field (GStruct fs) (VStruct vs) data len e m =
     encode_sub (run_encode (encode_fields fs vs)) data len e m"
| "encode_field (GStructVec fs mx) (VStructVec vss n) data len e m =
     (if n > mx then (m, None)
      else seq_enc (wr m (Write32 e m n))
             (\<lambda>e1 m1. if 0 < n then encode_sub (run_encode (encode_fields fs (hd vss))) data len e1 m1
                      else (m1, Some e1)))"
| "encode_field _ _ data len e m = (m, None)"
| "encode_fields (f # fs) (v # vs) data len e m =
     seq_enc (encode_field f v data len e m) (encode_fields fs vs data len)"
| "encode_fields _ _ data len e m = (m, Some e)"

definition Encode :: "gfield list \<Rightarrow> gval list \<Rightarrow> nat \<Rightarrow> int \<Rightarrow> mem \<Rightarrow> mem \<times> int option" where
  "Encode fs vs = run_encode (encode_fields fs vs)"

section \<open>Decode\<close>

text \<open>\<open>true\<close>, \<open>false\<close>, or a copy past the end of the destination array.\<close>

datatype 'a dres = DOk 'a | DFalse | DOverrun

definition bindD :: "'a dres \<Rightarrow> ('a \<Rightarrow> 'b dres) \<Rightarrow> 'b dres" where
  "bindD r k = (case r of DOk x \<Rightarrow> k x | DFalse \<Rightarrow> DFalse | DOverrun \<Rightarrow> DOverrun)"

definition rd :: "'a option \<Rightarrow> 'a dres" where
  "rd r = (case r of None \<Rightarrow> DFalse | Some x \<Rightarrow> DOk x)"

definition read_scalar :: "sty \<Rightarrow> decoder \<Rightarrow> mem \<Rightarrow> (decoder \<times> nat) option" where
  "read_scalar s d m = (case s of S32 \<Rightarrow> Read32 d m | S64 \<Rightarrow> Read64 d m)"

fun read_scalars :: "sty \<Rightarrow> nat list \<Rightarrow> decoder \<Rightarrow> mem \<Rightarrow> (decoder \<times> nat list) dres" where
  "read_scalars s [] d m = DOk (d, [])"
| "read_scalars s (x # xs) d m =
     bindD (rd (read_scalar s d m)) (\<lambda>(d1, y).
     bindD (read_scalars s xs d1 m) (\<lambda>(d2, ys). DOk (d2, y # ys)))"

definition decode_sub ::
  "(nat \<Rightarrow> int \<Rightarrow> mem \<Rightarrow> 'a dres) \<Rightarrow> nat \<Rightarrow> decoder \<Rightarrow> mem \<Rightarrow> (decoder \<times> 'a) dres" where
  "decode_sub dec data d m =
     bindD (rd (Read32 d m)) (\<lambda>(d1, sub_len).
     bindD (dec (data + read_pos d1) (to_int32 (int sub_len)) m) (\<lambda>v.
     bindD (rd (SkipReadPos d1 sub_len)) (\<lambda>d2. DOk (d2, v))))"

fun decode_elems ::
  "('a \<Rightarrow> nat \<Rightarrow> int \<Rightarrow> mem \<Rightarrow> 'a dres) \<Rightarrow> 'a list \<Rightarrow> nat \<Rightarrow> decoder \<Rightarrow> mem \<Rightarrow> (decoder \<times> 'a list) dres" where
  "decode_elems dec [] data d m = DOk (d, [])"
| "decode_elems dec (x # xs) data d m =
     bindD (decode_sub (dec x) data d m) (\<lambda>(d1, y).
     bindD (decode_elems dec xs data d1 m) (\<lambda>(d2, ys). DOk (d2, y # ys)))"

definition run_decode ::
  "(nat \<Rightarrow> decoder \<Rightarrow> mem \<Rightarrow> (decoder \<times> 'a) dres) \<Rightarrow> nat \<Rightarrow> int \<Rightarrow> mem \<Rightarrow> 'a dres" where
  "run_decode body data len m =
     (if data = 0 then DFalse
      else bindD (body data (BinDecoder data (to_size_t len)) m) (\<lambda>(d, v). DOk v))"

text \<open>The members are overwritten in place, so the old value is an argument.\<close>

fun decode_field :: "gfield \<Rightarrow> gval \<Rightarrow> nat \<Rightarrow> decoder \<Rightarrow> mem \<Rightarrow> (decoder \<times> gval) dres"
and decode_fields :: "gfield list \<Rightarrow> gval list \<Rightarrow> nat \<Rightarrow> decoder \<Rightarrow> mem \<Rightarrow> (decoder \<times> gval list) dres" where
  "decode_field (GScalar s) (VScalar x) data d m =
     bindD (rd (read_scalar s d m)) (\<lambda>(d1, y). DOk (d1, VScalar y))"
| "decode_field (GString mx) (VString bs n) data d m =
     bindD (rd (Read32 d m)) (\<lambda>(d1, k).
     bindD (rd (Read_raw d1 m k)) (\<lambda>(d2, cs).
       if k > mx + 1 then DOverrun else DOk (d2, VString (cs @ drop k bs) k)))"
| "decode_field (GScalarVec s mx) (VScalarVec xs n) data d m =
     bindD (rd (Read32 d m)) (\<lambda>(d1, k).
       if k > mx then DFalse
       else bindD (read_scalars s (take k xs) d1 m) (\<lambda>(d2, ys).
              DOk (d2, VScalarVec (ys @ drop k xs) k)))"
| "decode_field (GStruct fs) (VStruct vs) data d m =
     bindD (decode_sub (run_decode (decode_fields fs vs)) data d m) (\<lambda>(d1, ws). DOk (d1, VStruct ws))"
| "decode_field (GStructVec fs mx) (VStructVec vss n) data d m =
     bindD (rd (Read32 d m)) (\<lambda>(d1, k).
       if k > mx then DFalse
       else bindD (decode_elems (\<lambda>vs. run_decode (decode_fields fs vs)) (take k vss) data d1 m)
              (\<lambda>(d2, wss). DOk (d2, VStructVec (wss @ drop k vss) k)))"
| "decode_field _ _ data d m = DFalse"
| "decode_fields (f # fs) (v # vs) data d m =
     bindD (decode_field f v data d m) (\<lambda>(d1, w).
     bindD (decode_fields fs vs data d1 m) (\<lambda>(d2, ws). DOk (d2, w # ws)))"
| "decode_fields _ _ data d m = DOk (d, [])"

definition Decode :: "gfield list \<Rightarrow> gval list \<Rightarrow> nat \<Rightarrow> int \<Rightarrow> mem \<Rightarrow> gval list dres" where
  "Decode fs vs = run_decode (decode_fields fs vs)"

section \<open>Wire format and live values\<close>

definition frame :: "byte list \<Rightarrow> byte list" where
  "frame w = be_bytes 4 (length w) @ w"

fun wire_field :: "gfield \<Rightarrow> gval \<Rightarrow> byte list"
and wires :: "gfield list \<Rightarrow> gval list \<Rightarrow> byte list" where
  "wire_field (GScalar s) (VScalar x) = be_bytes (width s) x"
| "wire_field (GString mx) (VString bs n) = be_bytes 4 n @ take n bs"
| "wire_field (GScalarVec s mx) (VScalarVec xs n) =
     be_bytes 4 n @ concat (map (be_bytes (width s)) (take n xs))"
| "wire_field (GStruct fs) (VStruct vs) = frame (wires fs vs)"
| "wire_field (GStructVec fs mx) (VStructVec vss n) =
     be_bytes 4 n @ concat (map (\<lambda>vs. frame (wires fs vs)) (take n vss))"
| "wire_field _ _ = []"
| "wires (f # fs) (v # vs) = wire_field f v @ wires fs vs"
| "wires _ _ = []"

text \<open>What a reader of the structure sees: the arrays up to their live size.\<close>

datatype aval =
    AInt nat
  | ABytes "byte list"
  | AInts "nat list"
  | AMsg "aval list"
  | AMsgs "aval list list"

primrec live :: "gval \<Rightarrow> aval" where
  "live (VScalar x) = AInt x"
| "live (VString bs n) = ABytes (take n bs)"
| "live (VScalarVec xs n) = AInts (take n xs)"
| "live (VStruct vs) = AMsg (map live vs)"
| "live (VStructVec vss n) = AMsgs (take n (map (map live) vss))"

text \<open>No repeated message field holds more than one element.\<close>

primrec single :: "gval \<Rightarrow> bool" where
  "single (VScalar x) = True"
| "single (VString bs n) = True"
| "single (VScalarVec xs n) = True"
| "single (VStruct vs) = list_all id (map single vs)"
| "single (VStructVec vss n) = (n \<le> 1 \<and> list_all (list_all id) (map (map single) vss))"

end
