(* ===== verification/Codec_Props.thy ===== *)
theory Codec_Props
  imports Gen_Codec
begin

text \<open>
  Correctness of the generated \<open>Encode\<close> and \<open>Decode\<close>: \<open>enc_spec\<close> and \<open>dec_spec\<close> say that a
  piece of generated code writes, respectively reads, a given byte string at the packer's
  position; they are closed under sequencing and under nesting, which gives the theorems
  for whole messages by induction on the field types.
\<close>

named_theorems codec_simps \<open>packer steps and result plumbing\<close>

lemmas [codec_simps] = wr_def seq_enc_def finish_encode_def bindD_def rd_def

section \<open>Integers\<close>

text \<open>A length argument that leaves room for \<open>n\<close> bytes, as the packer sees it: a negative
  length is converted to a huge \<open>size_t\<close> and leaves room for everything.\<close>

definition fits :: "int \<Rightarrow> nat \<Rightarrow> bool" where
  "fits len n \<longleftrightarrow> (if len < 0 then int n - len < 2 ^ 31 else int n \<le> len \<and> len < 2 ^ 31)"

lemma fits_mono: "fits len n \<Longrightarrow> k \<le> n \<Longrightarrow> fits len k"
  by (auto simp: fits_def split: if_splits)

lemma fits_bound: "fits len n \<Longrightarrow> n < 2 ^ 31"
  by (auto simp: fits_def split: if_splits)

lemma fits_size_t: assumes "fits len n" shows "n \<le> to_size_t len"
proof (cases "len < 0")
  case True
  then have "- (2 ^ 31) < len" using assms by (simp add: fits_def)
  with True have "len mod 2 ^ 64 = len + 2 ^ 64"
    using mod_pos_pos_trivial [of "len + 2 ^ 64" "2 ^ 64"] by simp
  with True assms show ?thesis by (simp add: to_size_t_def fits_def)
next
  case False
  then show ?thesis using assms by (auto simp: to_size_t_def fits_def nat_le_iff le_nat_iff)
qed

lemma to_int32_id: "- (2 ^ 31) \<le> x \<Longrightarrow> x < 2 ^ 31 \<Longrightarrow> to_int32 x = x"
  by (simp add: to_int32_def)

lemma fits_sub: "fits len (p + 4 + n) \<Longrightarrow>
    to_int32 (int p + 4) = int p + 4 \<and> to_int32 (len - (int p + 4)) = len - (int p + 4) \<and>
    fits (len - (int p + 4)) n"
  by (auto simp: fits_def to_int32_id split: if_splits)

section \<open>Encoding\<close>

definition enc_spec ::
  "(nat \<Rightarrow> int \<Rightarrow> encoder \<Rightarrow> mem \<Rightarrow> mem \<times> encoder option) \<Rightarrow> byte list \<Rightarrow> bool" where
  "enc_spec body w \<longleftrightarrow>
     (\<forall>data len e m. data \<noteq> 0 \<longrightarrow> e_buffer e = data \<longrightarrow> e_len e = to_size_t len \<longrightarrow>
        fits len (write_pos e + length w) \<longrightarrow>
        body data len e m =
          (put_bytes m (data + write_pos e) w, Some (e\<lparr>write_pos := write_pos e + length w\<rparr>)))"

lemma enc_specD:
  "enc_spec body w \<Longrightarrow> data \<noteq> 0 \<Longrightarrow> e_buffer e = data \<Longrightarrow> e_len e = to_size_t len \<Longrightarrow>
   fits len (write_pos e + length w) \<Longrightarrow>
   body data len e m =
     (put_bytes m (data + write_pos e) w, Some (e\<lparr>write_pos := write_pos e + length w\<rparr>))"
  by (simp add: enc_spec_def)

lemma write_fits_fits:
  "e_len e = to_size_t len \<Longrightarrow> fits len (write_pos e + n) \<Longrightarrow>
   write_fits e n \<and> advance_write e n = e\<lparr>write_pos := write_pos e + n\<rparr>"
  using fits_size_t [of len "write_pos e + n"] fits_bound [of len "write_pos e + n"]
  by (simp add: write_fits_def advance_write_def)

lemma enc_raw [inv_intros]: "enc_spec (\<lambda>data len e m. wr m (Write_raw e m w)) w"
  by (simp add: enc_spec_def write_fits_fits Write_raw_def codec_simps)

lemma Write32_raw: "Write32 e m v = Write_raw e m (be_bytes 4 v)"
  by (simp add: Write32_def le_bytes_ntohl)

lemma Write64_raw: "Write64 e m v = Write_raw e m (be_bytes 8 v)"
  by (simp add: Write64_def le_bytes_htonll)

lemma write_scalar_raw: "write_scalar s x e m = Write_raw e m (be_bytes (width s) x)"
  by (cases s) (simp_all add: write_scalar_def Write32_raw Write64_raw)

lemma enc_skip [inv_intros]: "enc_spec (\<lambda>data len e m. (m, Some e)) []"
  by (simp add: enc_spec_def)

lemma enc_seq [inv_intros]:
  assumes "enc_spec b1 w1" "enc_spec b2 w2"
  shows "enc_spec (\<lambda>data len e m. seq_enc (b1 data len e m) (b2 data len)) (w1 @ w2)"
  unfolding enc_spec_def
proof (intro allI impI)
  fix data len m and e :: encoder
  assume a: "data \<noteq> 0" "e_buffer e = data" "e_len e = to_size_t len"
    and f: "fits len (write_pos e + length (w1 @ w2))"
  have f1: "fits len (write_pos e + length w1)" by (rule fits_mono [OF f]) simp
  let ?e1 = "e\<lparr>write_pos := write_pos e + length w1\<rparr>"
  have "b2 data len ?e1 (put_bytes m (data + write_pos e) w1) =
      (put_bytes (put_bytes m (data + write_pos e) w1) (data + write_pos ?e1) w2,
       Some (?e1\<lparr>write_pos := write_pos ?e1 + length w2\<rparr>))"
    by (rule enc_specD [OF assms(2) a(1)]) (use a f in \<open>simp_all add: add.assoc\<close>)
  then show "seq_enc (b1 data len e m) (b2 data len) =
      (put_bytes m (data + write_pos e) (w1 @ w2),
       Some (e\<lparr>write_pos := write_pos e + length (w1 @ w2)\<rparr>))"
    using enc_specD [OF assms(1) a f1, of m] put_bytes_append [of m "data + write_pos e" w1 w2]
    by (simp add: codec_simps add.assoc)
qed

lemma enc_scalars [inv_intros]:
  "enc_spec (\<lambda>data len. write_scalars s xs) (concat (map (be_bytes (width s)) xs))"
proof (induction xs)
  case Nil
  then show ?case by (simp add: enc_spec_def)
next
  case (Cons x xs)
  have "enc_spec (\<lambda>data len e m. seq_enc (wr m (Write_raw e m (be_bytes (width s) x))) (write_scalars s xs))
      (be_bytes (width s) x @ concat (map (be_bytes (width s)) xs))"
    by (rule enc_seq [OF enc_raw Cons])
  then show ?case by (simp add: enc_spec_def write_scalar_raw)
qed

lemma run_encode_spec:
  assumes "enc_spec body w" "data \<noteq> 0" "fits len (length w)"
  shows "run_encode body data len m = (put_bytes m data w, Some (int (length w)))"
proof -
  have "body data len (BinEncoder data (to_size_t len)) m =
     (put_bytes m data w, Some ((BinEncoder data (to_size_t len))\<lparr>write_pos := length w\<rparr>))"
    using enc_specD [OF assms(1,2), of "BinEncoder data (to_size_t len)" len m] assms(3)
    by (simp add: BinEncoder_def)
  moreover have "to_int32 (int (length w)) = int (length w)"
    using fits_bound [OF assms(3)] by (simp add: to_int32_id)
  ultimately show ?thesis using assms(2) by (simp add: run_encode_def codec_simps)
qed

lemma enc_sub [inv_intros]:
  assumes "enc_spec body w"
  shows "enc_spec (encode_sub (run_encode body)) (frame w)"
  unfolding enc_spec_def
proof (intro allI impI)
  fix data len m and e :: encoder
  assume a: "data \<noteq> 0" "e_buffer e = data" "e_len e = to_size_t len"
    and f: "fits len (write_pos e + length (frame w))"
  let ?p = "write_pos e" and ?h = "be_bytes 4 (length w)"
  have f': "fits len (?p + 4 + length w)" using f by (simp add: frame_def add.assoc)
  note sub = fits_sub [OF f']
  have run: "run_encode body (data + ?p + 4) (len - (int ?p + 4)) m =
      (put_bytes m (data + ?p + 4) w, Some (int (length w)))"
    by (rule run_encode_spec [OF assms]) (use a sub in auto)
  have f4: "fits len (?p + 4)" by (rule fits_mono [OF f']) simp
  let ?e4 = "e\<lparr>write_pos := ?p + 4\<rparr>"
  have w4: "write_fits e 4 \<and> advance_write e 4 = ?e4"
    by (rule write_fits_fits [OF a(3) f4])
  have skip: "write_fits ?e4 (length w) \<and>
      advance_write ?e4 (length w) = ?e4\<lparr>write_pos := write_pos ?e4 + length w\<rparr>"
    by (rule write_fits_fits [of _ len]) (use a f' in \<open>simp_all add: add.assoc\<close>)
  have small: "length w < 2 ^ 31" using fits_bound [OF f'] by simp
  then have "int (length w) mod 2 ^ 32 = int (length w)" "int (length w) mod 2 ^ 64 = int (length w)"
    by simp_all
  then have sz: "nat (int (length w) mod 4294967296) = length w" "to_size_t (int (length w)) = length w"
    by (simp_all add: to_size_t_def)
  have mem: "put_bytes (put_bytes m (data + ?p + 4) w) (data + ?p) ?h = put_bytes m (data + ?p) (frame w)"
    using put_bytes_before [of m "data + ?p" ?h w] by (simp add: frame_def)
  have addr: "nat (int data + (int ?p + 4)) = data + ?p + 4" by simp
  show "encode_sub (run_encode body) data len e m =
      (put_bytes m (data + ?p) (frame w), Some (e\<lparr>write_pos := ?p + length (frame w)\<rparr>))"
    using sub run w4 skip mem a(2)
    by (simp add: encode_sub_def Let_def addr sz Write32_raw Write_raw_def SkipWritePos_def codec_simps
        frame_def add.assoc)
qed

text \<open>Whole fields and messages, by induction on the field type.\<close>

lemma single_simps [simp]:
  "single (VStruct vs) = list_all single vs"
  "single (VStructVec vss n) = (n \<le> 1 \<and> list_all (list_all single) vss)"
  by (simp_all add: list.pred_map comp_def id_def)

declare single.simps(4,5) [simp del]

lemma enc_fields_from:
  assumes "\<And>f v. f \<in> set fs \<Longrightarrow> wt_field f v \<Longrightarrow> single v \<Longrightarrow>
             enc_spec (encode_field f v) (wire_field f v)"
    "wt_fields fs vs" "list_all single vs"
  shows "enc_spec (encode_fields fs vs) (wires fs vs)"
  using assms
proof (induction fs arbitrary: vs)
  case Nil
  then show ?case by (cases vs) (simp_all add: enc_spec_def)
next
  case (Cons f fs)
  then obtain v vs' where vs: "vs = v # vs'" by (cases vs) auto
  have "enc_spec (encode_field f v) (wire_field f v)" "enc_spec (encode_fields fs vs') (wires fs vs')"
    using Cons by (auto simp: vs)
  then have "enc_spec (\<lambda>data len e m. seq_enc (encode_field f v data len e m) (encode_fields fs vs' data len))
      (wire_field f v @ wires fs vs')" by (rule enc_seq)
  then show ?case by (simp add: vs enc_spec_def)
qed




lemma enc_vec:
  assumes n: "n \<le> mx" "length vss = mx"
    and hd: "vss \<noteq> [] \<Longrightarrow> enc_spec (encode_fields fs (hd vss)) (wires fs (hd vss))"
  shows "enc_spec (encode_field (GStructVec fs mx) (VStructVec vss n))
           (be_bytes 4 n @ concat (map (\<lambda>vs. frame (wires fs vs)) (take (min n 1) vss)))"
proof (cases "n = 0")
  case True
  have "enc_spec (\<lambda>data len e m. seq_enc (wr m (Write_raw e m (be_bytes 4 n))) (\<lambda>e m. (m, Some e)))
      (be_bytes 4 n @ [])" by (rule enc_seq [OF enc_raw enc_skip])
  then show ?thesis using True n by (simp add: enc_spec_def Write32_raw)
next
  case False
  with n obtain vs vss' where vss: "vss = vs # vss'" by (cases vss) auto
  have "enc_spec (\<lambda>data len e m. seq_enc (wr m (Write_raw e m (be_bytes 4 n)))
             (encode_sub (run_encode (encode_fields fs vs)) data len))
      (be_bytes 4 n @ frame (wires fs vs))"
    by (rule enc_seq [OF enc_raw enc_sub]) (use hd vss in simp)
  then show ?thesis using False n vss by (simp add: enc_spec_def Write32_raw)
qed

lemma enc_field: "wt_field f v \<Longrightarrow> single v \<Longrightarrow> enc_spec (encode_field f v) (wire_field f v)"
proof (induction f arbitrary: v)
  case (GScalar s)
  then show ?case
    by (cases v) (use enc_raw [of "be_bytes (width s) (case v of VScalar x \<Rightarrow> x)"] in
        \<open>simp_all add: enc_spec_def write_scalar_raw\<close>)
next
  case (GString mx)
  then obtain bs n where v: "v = VString bs n" "n \<le> mx" by (cases v) auto
  have "enc_spec (\<lambda>data len e m. seq_enc (wr m (Write_raw e m (be_bytes 4 n)))
          (\<lambda>e m. wr m (Write_raw e m (take n bs)))) (be_bytes 4 n @ take n bs)"
    by (rule enc_seq [OF enc_raw enc_raw])
  then show ?case using v by (simp add: enc_spec_def Write32_raw)
next
  case (GScalarVec s mx)
  then obtain xs n where v: "v = VScalarVec xs n" "n \<le> mx" by (cases v) auto
  have "enc_spec (\<lambda>data len e m. seq_enc (wr m (Write_raw e m (be_bytes 4 n)))
          (write_scalars s (take n xs))) (be_bytes 4 n @ concat (map (be_bytes (width s)) (take n xs)))"
    by (rule enc_seq [OF enc_raw enc_scalars])
  then show ?case using v by (simp add: enc_spec_def Write32_raw)
next
  case (GStruct fs)
  then obtain vs where v: "v = VStruct vs" "wt_fields fs vs" "list_all single vs" by (cases v) auto
  have "enc_spec (encode_fields fs vs) (wires fs vs)"
    by (rule enc_fields_from [OF GStruct(1) v(2,3)])
  from enc_sub [OF this] show ?case by (simp add: v enc_spec_def)
next
  case (GStructVec fs mx)
  then obtain vss n where v: "v = VStructVec vss n" "n \<le> mx" "length vss = mx" "n \<le> 1"
      "list_all (wt_fields fs) vss" "list_all (list_all single) vss" by (cases v) auto
  have "enc_spec (encode_fields fs (hd vss)) (wires fs (hd vss))" if "vss \<noteq> []"
    by (rule enc_fields_from [OF GStructVec(1)]) (use v that in \<open>auto simp: list_all_iff\<close>)
  then have "enc_spec (encode_field (GStructVec fs mx) (VStructVec vss n))
     (be_bytes 4 n @ concat (map (\<lambda>vs. frame (wires fs vs)) (take (min n 1) vss)))"
    by (rule enc_vec [OF v(2,3)])
  moreover have "min n 1 = n" using v(4) by simp
  ultimately show ?case by (simp only: v(1) wire_field.simps)
qed

lemma enc_message:
  "wt_fields fs vs \<Longrightarrow> list_all single vs \<Longrightarrow> enc_spec (encode_fields fs vs) (wires fs vs)"
  by (rule enc_fields_from) (auto intro: enc_field)

section \<open>Decoding\<close>

definition dec_spec ::
  "(nat \<Rightarrow> decoder \<Rightarrow> mem \<Rightarrow> (decoder \<times> 'a) dres) \<Rightarrow> byte list \<Rightarrow> 'a \<Rightarrow> bool" where
  "dec_spec body w v \<longleftrightarrow>
     (\<forall>data len d m. data \<noteq> 0 \<longrightarrow> d_buffer d = data \<longrightarrow> d_len d = len \<longrightarrow> len < 2 ^ 31 \<longrightarrow>
        read_pos d + length w \<le> len \<longrightarrow> get_bytes m (data + read_pos d) (length w) = w \<longrightarrow>
        body data d m = DOk (d\<lparr>read_pos := read_pos d + length w\<rparr>, v))"

lemma dec_specD:
  "dec_spec body w v \<Longrightarrow> data \<noteq> 0 \<Longrightarrow> d_buffer d = data \<Longrightarrow> d_len d < 2 ^ 31 \<Longrightarrow>
   read_pos d + length w \<le> d_len d \<Longrightarrow> get_bytes m (data + read_pos d) (length w) = w \<Longrightarrow>
   body data d m = DOk (d\<lparr>read_pos := read_pos d + length w\<rparr>, v)"
  by (simp add: dec_spec_def)

lemma dec_spec_ext:
  "dec_spec b w v \<Longrightarrow> (\<And>data d m. b' data d m = b data d m) \<Longrightarrow> dec_spec b' w v"
  by (simp add: dec_spec_def)

lemma dec_ret [inv_intros]: "dec_spec (\<lambda>data d m. DOk (d, v)) [] v"
  by (simp add: dec_spec_def)

lemma dec_bind [inv_intros]:
  assumes "dec_spec b1 w1 x" "dec_spec (b2 x) w2 y"
  shows "dec_spec (\<lambda>data d m. bindD (b1 data d m) (\<lambda>(d1, z). b2 z data d1 m)) (w1 @ w2) y"
  unfolding dec_spec_def
proof (intro allI impI)
  fix data len m and d :: decoder
  assume a: "data \<noteq> 0" "d_buffer d = data" "d_len d = len" "len < 2 ^ 31"
    and f: "read_pos d + length (w1 @ w2) \<le> len"
    and g: "get_bytes m (data + read_pos d) (length (w1 @ w2)) = w1 @ w2"
  have g12: "get_bytes m (data + read_pos d) (length w1) = w1"
     "get_bytes m (data + (read_pos d + length w1)) (length w2) = w2"
    using g get_bytes_split [of m "data + read_pos d" w1 w2] by (simp_all add: add.assoc)
  let ?d1 = "d\<lparr>read_pos := read_pos d + length w1\<rparr>"
  have "b1 data d m = DOk (?d1, x)"
    by (rule dec_specD [OF assms(1) a(1)]) (use a f g12 in simp_all)
  moreover have "b2 x data ?d1 m = DOk (?d1\<lparr>read_pos := read_pos ?d1 + length w2\<rparr>, y)"
    by (rule dec_specD [OF assms(2) a(1)]) (use a f g12 in simp_all)
  ultimately show "bindD (b1 data d m) (\<lambda>(d1, z). b2 z data d1 m) =
      DOk (d\<lparr>read_pos := read_pos d + length (w1 @ w2)\<rparr>, y)"
    by (simp add: codec_simps add.assoc)
qed

lemma dec_map [inv_intros]:
  assumes "dec_spec b w x"
  shows "dec_spec (\<lambda>data d m. bindD (b data d m) (\<lambda>(d1, z). DOk (d1, f z))) w (f x)"
  using dec_bind [OF assms, of "\<lambda>z data d m. DOk (d, f z)" "[]" "f x"] by (simp add: dec_ret)

lemma dec_raw [inv_intros]: "dec_spec (\<lambda>data d m. rd (Read_raw d m (length w))) w w"
  by (auto simp: dec_spec_def Read_raw_def read_fits_def advance_read_def codec_simps)

lemma ntohl_of_le: "length bs = 4 \<Longrightarrow> ntohl (of_le bs) = of_be bs"
  by (simp add: ntohl_def of_be_def le_bytes_of_le)

lemma ntohll_of_le: assumes "length bs = 8" shows "ntohll (of_le bs) = of_be bs"
proof -
  have "htonll (of_le bs) = htonll (of_le bs) mod 256 ^ 8" by (simp add: htonll_def Let_def)
  also have "\<dots> = of_le (be_bytes 8 (of_le bs))"
    by (simp only: of_le_le_bytes [symmetric] le_bytes_htonll)
  finally show ?thesis using assms by (simp add: ntohll_htonll be_bytes_def of_be_def le_bytes_of_le)
qed

lemma read_scalar_raw:
  "read_scalar s d m = map_option (\<lambda>(d1, bs). (d1, of_be bs)) (Read_raw d m (width s))"
  by (cases s) (simp_all add: read_scalar_def Read32_def Read64_def Read_raw_def ntohl_of_le ntohll_of_le)

lemma rd_read_scalar:
  "rd (read_scalar s d m) =
     bindD (rd (Read_raw d m (width s))) (\<lambda>(d1, bs). DOk (d1, of_be bs))"
  by (simp add: read_scalar_raw codec_simps split: option.splits)

lemma dec_scalar [inv_intros]:
  assumes "x < 256 ^ width s"
  shows "dec_spec (\<lambda>data d m. rd (read_scalar s d m)) (be_bytes (width s) x) x"
  using dec_map [OF dec_raw [of "be_bytes (width s) x"], of of_be]
  by (simp add: rd_read_scalar of_be_be_bytes [OF assms])

lemma dec_word [inv_intros]:
  "n < 2 ^ 32 \<Longrightarrow> dec_spec (\<lambda>data d m. rd (Read32 d m)) (be_bytes 4 n) n"
  using dec_scalar [of n S32] by (simp add: read_scalar_def)

lemma dec_scalars:
  "list_all (\<lambda>x. x < 256 ^ width s) xs \<Longrightarrow> length ys = length xs \<Longrightarrow>
   dec_spec (\<lambda>data. read_scalars s ys) (concat (map (be_bytes (width s)) xs)) xs"
proof (induction xs arbitrary: ys)
  case Nil
  then show ?case by (simp add: dec_spec_def)
next
  case (Cons x xs)
  then obtain y ys' where ys: "ys = y # ys'" by (cases ys) auto
  have "dec_spec (\<lambda>data. read_scalars s ys') (concat (map (be_bytes (width s)) xs)) xs"
    using Cons ys by simp
  from dec_bind [OF dec_scalar dec_map [OF this], of x s "(#)"] show ?case
    using Cons.prems by (simp add: ys)
qed

lemma dec_sub [inv_intros]:
  assumes "dec_spec body w v"
  shows "dec_spec (decode_sub (run_decode body)) (frame w) v"
  unfolding dec_spec_def
proof (intro allI impI)
  fix data len m and d :: decoder
  assume a: "data \<noteq> 0" "d_buffer d = data" "d_len d = len" "len < 2 ^ 31"
    and f: "read_pos d + length (frame w) \<le> len"
    and g: "get_bytes m (data + read_pos d) (length (frame w)) = frame w"
  let ?p = "read_pos d" and ?d1 = "d\<lparr>read_pos := read_pos d + 4\<rparr>"
  have n: "length w < 2 ^ 31" using f a by (simp add: frame_def)
  have g12: "get_bytes m (data + ?p) 4 = be_bytes 4 (length w)"
     "get_bytes m (data + ?p + 4) (length w) = w"
    using g get_bytes_split [of m "data + ?p" "be_bytes 4 (length w)" w] by (simp_all add: frame_def)
  have n32: "length w < 2 ^ 32" using n by simp
  have "rd (Read32 d m) = DOk (d\<lparr>read_pos := ?p + length (be_bytes 4 (length w))\<rparr>, length w)"
    by (rule dec_specD [OF dec_word [OF n32] a(1)]) (use a f g12 in \<open>simp_all add: frame_def\<close>)
  moreover have "body (data + ?p + 4) (BinDecoder (data + ?p + 4) (length w)) m =
      DOk ((BinDecoder (data + ?p + 4) (length w))\<lparr>read_pos := 0 + length w\<rparr>, v)"
    using dec_specD [OF assms, of "data + ?p + 4" "BinDecoder (data + ?p + 4) (length w)" m] g12 n
    by (simp add: BinDecoder_def)
  then have "run_decode body (data + ?p + 4) (to_int32 (int (length w))) m = DOk v"
    using n by (simp add: run_decode_def to_int32_id to_size_t_def codec_simps)
  moreover have "SkipReadPos ?d1 (length w) = Some (?d1\<lparr>read_pos := ?p + 4 + length w\<rparr>)"
    using a f by (simp add: SkipReadPos_def read_fits_def advance_read_def frame_def)
  ultimately show "decode_sub (run_decode body) data d m =
      DOk (d\<lparr>read_pos := ?p + length (frame w)\<rparr>, v)"
    by (simp add: decode_sub_def codec_simps frame_def add.assoc)
qed

text \<open>What decoding a field leaves in the structure: a value of the declared type with the
  live part that was sent.\<close>

definition reads_back :: "gfield \<Rightarrow> gval \<Rightarrow> gval \<Rightarrow> bool" where
  "reads_back f old v \<longleftrightarrow>
     (\<exists>v'. dec_spec (decode_field f old) (wire_field f v) v' \<and> wt_field f v' \<and> live v' = live v)"

lemma reads_backI:
  "dec_spec (decode_field f old) (wire_field f v) v' \<Longrightarrow> wt_field f v' \<Longrightarrow> live v' = live v \<Longrightarrow>
   reads_back f old v"
  by (auto simp: reads_back_def)

lemma dec_fields_from:
  assumes "\<And>f v old. f \<in> set fs \<Longrightarrow> wt_field f v \<Longrightarrow> wt_field f old \<Longrightarrow> reads_back f old v"
    "wt_fields fs vs" "wt_fields fs olds"
  shows "\<exists>vs'. dec_spec (decode_fields fs olds) (wires fs vs) vs' \<and> wt_fields fs vs' \<and>
               map live vs' = map live vs"
  using assms
proof (induction fs arbitrary: vs olds)
  case Nil
  then show ?case by (cases vs; cases olds) (auto simp: dec_spec_def intro!: exI [of _ "[]"])
next
  case (Cons f fs)
  obtain v vs1 where vs: "vs = v # vs1" using Cons.prems by (cases vs) auto
  obtain old olds1 where olds: "olds = old # olds1" using Cons.prems by (cases olds) auto
  obtain v' where v': "dec_spec (decode_field f old) (wire_field f v) v'" "wt_field f v'" "live v' = live v"
    using Cons.prems unfolding vs olds reads_back_def by fastforce
  obtain vs' where vs': "dec_spec (decode_fields fs olds1) (wires fs vs1) vs'" "wt_fields fs vs'"
      "map live vs' = map live vs1"
    using Cons.IH [of vs1 olds1] Cons.prems unfolding vs olds by auto
  have "dec_spec (decode_fields (f # fs) olds) (wires (f # fs) vs) (v' # vs')"
    using dec_spec_ext [OF dec_bind [OF v'(1) dec_map [OF vs'(1)], of "(#)"], of "decode_fields (f # fs) olds"]
    by (simp add: vs olds)
  then show ?case using v' vs' by (auto simp: vs intro!: exI [of _ "v' # vs'"])
qed

lemma dec_elems_from:
  assumes "\<And>vs old. wt_fields fs vs \<Longrightarrow> wt_fields fs old \<Longrightarrow>
       \<exists>vs'. dec_spec (decode_fields fs old) (wires fs vs) vs' \<and> wt_fields fs vs' \<and>
             map live vs' = map live vs"
    "list_all (wt_fields fs) vss" "list_all (wt_fields fs) olds" "length olds = length vss"
  shows "\<exists>vss'. dec_spec (decode_elems (\<lambda>vs. run_decode (decode_fields fs vs)) olds)
                  (concat (map (\<lambda>vs. frame (wires fs vs)) vss)) vss' \<and>
                list_all (wt_fields fs) vss' \<and> map (map live) vss' = map (map live) vss"
  using assms(2-)
proof (induction vss arbitrary: olds)
  case Nil
  then show ?case by (auto simp: dec_spec_def intro!: exI [of _ "[]"])
next
  case (Cons vs vss)
  obtain old olds1 where olds: "olds = old # olds1" using Cons.prems by (cases olds) auto
  obtain vs' where vs': "dec_spec (decode_fields fs old) (wires fs vs) vs'" "wt_fields fs vs'"
      "map live vs' = map live vs"
    using assms(1) [of vs old] Cons.prems by (auto simp: olds)
  obtain vss' where vss': "dec_spec (decode_elems (\<lambda>vs. run_decode (decode_fields fs vs)) olds1)
        (concat (map (\<lambda>vs. frame (wires fs vs)) vss)) vss'"
      "list_all (wt_fields fs) vss'" "map (map live) vss' = map (map live) vss"
    using Cons.IH [of olds1] Cons.prems by (auto simp: olds)
  have "dec_spec (decode_elems (\<lambda>vs. run_decode (decode_fields fs vs)) olds)
     (concat (map (\<lambda>vs. frame (wires fs vs)) (vs # vss))) (vs' # vss')"
    using dec_spec_ext [OF dec_bind [OF dec_sub [OF vs'(1)] dec_map [OF vss'(1)], of "(#)"],
        of "decode_elems (\<lambda>vs. run_decode (decode_fields fs vs)) olds"]
    by (simp add: olds)
  then show ?case using vs' vss' by (auto intro!: exI [of _ "vs' # vss'"])
qed

text \<open>A checked count is read, then the body.\<close>

lemma dec_counted:
  assumes "n \<le> mx" "n < 2 ^ 32" "dec_spec (b n) w x"
  shows "dec_spec (\<lambda>data d m. bindD (rd (Read32 d m)) (\<lambda>(d1, k).
            if k > mx then DFalse else bindD (b k data d1 m) (\<lambda>(d2, ys). DOk (d2, g k ys))))
          (be_bytes 4 n @ w) (g n x)"
  by (rule dec_bind [OF dec_word [OF assms(2)]])
     (use assms(1) dec_map [OF assms(3), of "g n"] in \<open>simp add: linorder_not_less\<close>)

lemma dec_field:
  "wt_field f v \<Longrightarrow> wt_field f old \<Longrightarrow> max_ok f \<Longrightarrow> reads_back f old v"
proof (induction f arbitrary: v old)
  case (GScalar s)
  then obtain x y where v: "v = VScalar x" "old = VScalar y" "x < 256 ^ width s"
    by (cases v; cases old) auto
  have "dec_spec (decode_field (GScalar s) old) (wire_field (GScalar s) v) (VScalar x)"
    using dec_spec_ext [OF dec_map [OF dec_scalar [OF v(3)], of VScalar], of "decode_field (GScalar s) old"]
    by (simp add: v)
  then show ?case by (rule reads_backI) (use v in auto)
next
  case (GString mx)
  then obtain bs n bs0 n0 where v: "v = VString bs n" "old = VString bs0 n0" "n \<le> mx" "n < 2 ^ 32"
      "length bs = mx + 1" "length bs0 = mx + 1" by (cases v; cases old) auto
  let ?b2 = "\<lambda>k data d m. bindD (rd (Read_raw d m k)) (\<lambda>(d2, cs).
          if k > mx + 1 then DOverrun else DOk (d2, VString (cs @ drop k bs0) k))"
  have "dec_spec (?b2 n) (take n bs) (VString (take n bs @ drop n bs0) n)"
    using dec_map [OF dec_raw [of "take n bs"], of "\<lambda>cs. VString (cs @ drop n bs0) n"] v(3,5)
    by (simp add: min_def)
  from dec_spec_ext [OF dec_bind [where ?b2.0 = ?b2, OF dec_word [OF v(4)] this], of "decode_field (GString mx) old"]
  have "dec_spec (decode_field (GString mx) old) (wire_field (GString mx) v)
     (VString (take n bs @ drop n bs0) n)" by (simp add: v)
  then show ?case by (rule reads_backI) (use v in auto)
next
  case (GScalarVec s mx)
  then obtain xs n xs0 n0 where v: "v = VScalarVec xs n" "old = VScalarVec xs0 n0" "n \<le> mx" "n < 2 ^ 32"
      "length xs = mx" "length xs0 = mx" "list_all (\<lambda>x. x < 256 ^ width s) xs"
      "list_all (\<lambda>x. x < 256 ^ width s) xs0" by (cases v; cases old) auto
  have "dec_spec (\<lambda>data. read_scalars s (take n xs0)) (concat (map (be_bytes (width s)) (take n xs))) (take n xs)"
    by (rule dec_scalars) (use v in \<open>auto simp: list_all_iff dest: in_set_takeD\<close>)
  from dec_spec_ext [OF dec_counted [where b = "\<lambda>k data. read_scalars s (take k xs0)", OF v(3,4) this,
      of "\<lambda>k ys. VScalarVec (ys @ drop k xs0) k"], of "decode_field (GScalarVec s mx) old"]
  have "dec_spec (decode_field (GScalarVec s mx) old) (wire_field (GScalarVec s mx) v)
     (VScalarVec (take n xs @ drop n xs0) n)" by (simp add: v)
  then show ?case
    by (rule reads_backI) (use v in \<open>auto simp: list_all_iff dest: in_set_takeD in_set_dropD\<close>)
next
  case (GStruct fs)
  then obtain vs vs0 where v: "v = VStruct vs" "old = VStruct vs0" "wt_fields fs vs" "wt_fields fs vs0"
    by (cases v; cases old) auto
  obtain vs' where vs': "dec_spec (decode_fields fs vs0) (wires fs vs) vs'" "wt_fields fs vs'"
      "map live vs' = map live vs"
    using dec_fields_from [OF GStruct.IH v(3,4)] GStruct.prems(3) by (auto simp: list_all_iff)
  have "dec_spec (decode_field (GStruct fs) old) (wire_field (GStruct fs) v) (VStruct vs')"
    using dec_spec_ext [OF dec_map [OF dec_sub [OF vs'(1)], of VStruct], of "decode_field (GStruct fs) old"]
    by (simp add: v)
  then show ?case by (rule reads_backI) (use v vs' in auto)
next
  case (GStructVec fs mx)
  then obtain vss n vss0 n0 where v: "v = VStructVec vss n" "old = VStructVec vss0 n0" "n \<le> mx"
      "n < 2 ^ 32" "length vss = mx" "length vss0 = mx" "list_all (wt_fields fs) vss"
      "list_all (wt_fields fs) vss0" by (cases v; cases old) auto
  have el: "\<exists>vs'. dec_spec (decode_fields fs old) (wires fs vs) vs' \<and> wt_fields fs vs' \<and>
      map live vs' = map live vs" if "wt_fields fs vs" "wt_fields fs old" for vs old
    using dec_fields_from [OF GStructVec.IH that] GStructVec.prems(3) by (auto simp: list_all_iff)
  obtain vss' where vss': "dec_spec (decode_elems (\<lambda>vs. run_decode (decode_fields fs vs)) (take n vss0))
        (concat (map (\<lambda>vs. frame (wires fs vs)) (take n vss))) vss'"
      "list_all (wt_fields fs) vss'" "map (map live) vss' = map (map live) (take n vss)"
    using dec_elems_from [OF el, of "take n vss" "take n vss0"] v
    by (auto simp: list_all_iff dest: in_set_takeD)
  have len: "length vss' = n" using arg_cong [OF vss'(3), of length] v by simp
  from dec_spec_ext [OF dec_counted [where b = "\<lambda>k. decode_elems (\<lambda>vs. run_decode (decode_fields fs vs)) (take k vss0)",
      OF v(3,4) vss'(1), of "\<lambda>k ys. VStructVec (ys @ drop k vss0) k"],
      of "decode_field (GStructVec fs mx) old"]
  have "dec_spec (decode_field (GStructVec fs mx) old) (wire_field (GStructVec fs mx) v)
     (VStructVec (vss' @ drop n vss0) n)" by (simp add: v)
  then show ?case
    by (rule reads_backI) (use v vss' len in \<open>auto simp: list_all_iff take_map dest: in_set_dropD\<close>)
qed

lemma dec_message:
  "wt_fields fs vs \<Longrightarrow> wt_fields fs olds \<Longrightarrow> list_all max_ok fs \<Longrightarrow>
   \<exists>vs'. dec_spec (decode_fields fs olds) (wires fs vs) vs' \<and> wt_fields fs vs' \<and>
         map live vs' = map live vs"
  by (rule dec_fields_from) (auto simp: list_all_iff intro: dec_field)

section \<open>Encode and Decode\<close>

lemma Encode_message:
  "wt_fields fs vs \<Longrightarrow> list_all single vs \<Longrightarrow> data \<noteq> 0 \<Longrightarrow> fits len (length (wires fs vs)) \<Longrightarrow>
   Encode fs vs data len m = (put_bytes m data (wires fs vs), Some (int (length (wires fs vs))))"
  unfolding Encode_def by (rule run_encode_spec [OF enc_message])

lemma Decode_message:
  assumes "wt_fields fs vs" "wt_fields fs olds" "list_all max_ok fs" "data \<noteq> 0"
    "length (wires fs vs) \<le> len" "len < 2 ^ 31" "get_bytes m data (length (wires fs vs)) = wires fs vs"
  shows "\<exists>vs'. Decode fs olds data (int len) m = DOk vs' \<and> wt_fields fs vs' \<and>
               map live vs' = map live vs"
proof -
  obtain vs' where vs': "dec_spec (decode_fields fs olds) (wires fs vs) vs'" "wt_fields fs vs'"
      "map live vs' = map live vs" using dec_message [OF assms(1-3)] by blast
  have sz: "to_size_t (int len) = len" using assms(6) by (simp add: to_size_t_def)
  have "decode_fields fs olds data (BinDecoder data len) m =
     DOk ((BinDecoder data len)\<lparr>read_pos := read_pos (BinDecoder data len) + length (wires fs vs)\<rparr>, vs')"
    by (rule dec_specD [OF vs'(1) assms(4)]) (use assms in \<open>simp_all add: BinDecoder_def\<close>)
  then have "Decode fs olds data (int len) m = DOk vs'"
    using assms(4) by (simp add: Decode_def run_decode_def sz bindD_def)
  with vs' show ?thesis by blast
qed

text \<open>C3: The generated \<open>Encode\<close> with a buffer of \<open>len\<close> bytes that is long enough writes exactly the wire
  form of the message at the start of the buffer, leaves every other byte of memory alone,
  and returns the number of bytes written, provided no repeated message field,
  at any depth, has more than one element.\<close>

theorem Encode_writes_wire:
  assumes "wt_fields fs vs" "list_all single vs" "data \<noteq> 0"
    "length (wires fs vs) \<le> len" "len < 2 ^ 31"
  shows "Encode fs vs data (int len) m =
           (put_bytes m data (wires fs vs), Some (int (length (wires fs vs))))"
  by (rule Encode_message [OF assms(1-3)]) (use assms(4,5) in \<open>simp add: fits_def\<close>)

theorem Encode_writes_wire_witness:
  "Encode [GScalar S32, GString 3] [VScalar 7, VString [65, 66, 0, 0] 2] 100 (int 16) (\<lambda>x. 0) =
     (put_bytes (\<lambda>x. 0) 100 [0, 0, 0, 7, 0, 0, 0, 2, 65, 66], Some 10)"
proof -
  have w: "wires [GScalar S32, GString 3] [VScalar 7, VString [65, 66, 0, 0] 2] =
      [0, 0, 0, 7, 0, 0, 0, 2, 65, 66]"
    by code_simp
  show ?thesis
    using Encode_writes_wire [of "[GScalar S32, GString 3]" "[VScalar 7, VString [65, 66, 0, 0] 2]" 100 16
        "\<lambda>x. 0"] unfolding w by simp
qed

text \<open>C2: Round trip: whatever a successful \<open>Encode\<close> of a message left in the buffer, where no repeated message field,
  at any depth, has more than one element, \<open>Decode\<close> of the number of bytes it returned succeeds on any object of the
  structure, keeps the object well-typed, and its live fields are those that were encoded.\<close>

theorem Decode_Encode:
  assumes "wt_fields fs vs" "list_all single vs" "wt_fields fs olds" "list_all max_ok fs"
    "data \<noteq> 0" "length (wires fs vs) \<le> len" "len < 2 ^ 31"
    "Encode fs vs data (int len) m = (m', Some n)"
  shows "\<exists>vs'. Decode fs olds data n m' = DOk vs' \<and> wt_fields fs vs' \<and> map live vs' = map live vs"
proof -
  have "Encode fs vs data (int len) m = (put_bytes m data (wires fs vs), Some (int (length (wires fs vs))))"
    by (rule Encode_message [OF assms(1,2,5)]) (use assms(6,7) in \<open>simp add: fits_def\<close>)
  then have e: "m' = put_bytes m data (wires fs vs)" "n = int (length (wires fs vs))"
    using assms(8) by simp_all
  show ?thesis unfolding e
    by (rule Decode_message [OF assms(1,3,4,5)]) (use assms(6,7) in \<open>simp_all add: get_put_bytes\<close>)
qed

theorem Decode_Encode_witness:
  "\<exists>vs'. Decode [GScalarVec S64 2] [VScalarVec [9, 9] 0] 100 (int 20)
            (put_bytes (\<lambda>x. 0) 100 (wires [GScalarVec S64 2] [VScalarVec [5, 6] 2])) = DOk vs' \<and>
         wt_fields [GScalarVec S64 2] vs' \<and> map live vs' = [AInts [5, 6]]"
proof -
  let ?fs = "[GScalarVec S64 2]" and ?vs = "[VScalarVec [5, 6] 2]"
  have len: "length (wires ?fs ?vs) = 20" by simp
  have "Encode ?fs ?vs 100 (int 20) (\<lambda>x. 0) = (put_bytes (\<lambda>x. 0) 100 (wires ?fs ?vs), Some (int 20))"
    using Encode_message [of ?fs ?vs 100 "int 20" "\<lambda>x. 0"] unfolding len by (simp add: fits_def)
  then have "\<exists>vs'. Decode ?fs [VScalarVec [9, 9] 0] 100 (int 20) (put_bytes (\<lambda>x. 0) 100 (wires ?fs ?vs)) =
      DOk vs' \<and> wt_fields ?fs vs' \<and> map live vs' = map live ?vs"
    by (rule Decode_Encode [rotated -1]) (simp_all add: len del: wires.simps)
  then show ?thesis by simp
qed

text \<open>\<open>Decode\<close> reads every message of the wire format, repeated message fields of any
  admissible size included.\<close>

theorem Decode_reads_wire:
  assumes "wt_fields fs vs" "wt_fields fs olds" "list_all max_ok fs" "data \<noteq> 0"
    "length (wires fs vs) \<le> len" "len < 2 ^ 31" "get_bytes m data (length (wires fs vs)) = wires fs vs"
  shows "\<exists>vs'. Decode fs olds data (int len) m = DOk vs' \<and> wt_fields fs vs' \<and>
               map live vs' = map live vs"
  by (rule Decode_message [OF assms])

theorem Decode_reads_wire_witness:
  "\<exists>vs'. Decode [GStructVec [GScalar S32] 2] [VStructVec [[VScalar 0], [VScalar 0]] 0] 100 (int 20)
            (put_bytes (\<lambda>x. 0) 100 (wires [GStructVec [GScalar S32] 2] [VStructVec [[VScalar 1], [VScalar 2]] 2]))
          = DOk vs' \<and>
         wt_fields [GStructVec [GScalar S32] 2] vs' \<and> map live vs' = [AMsgs [[AInt 1], [AInt 2]]]"
proof -
  let ?w = "wires [GStructVec [GScalar S32] 2] [VStructVec [[VScalar 1], [VScalar 2]] 2]"
  have "length ?w = 20" by (simp add: frame_def)
  then show ?thesis
    using Decode_reads_wire [of "[GStructVec [GScalar S32] 2]" "[VStructVec [[VScalar 1], [VScalar 2]] 2]"
      "[VStructVec [[VScalar 0], [VScalar 0]] 0]" 100 20 "put_bytes (\<lambda>x. 0) 100 ?w"]
      get_put_bytes [of "\<lambda>x. 0" 100 ?w]
    by simp
qed

section \<open>Defects\<close>







text \<open>C28: A nested message in a buffer that is too short for its length word: the remaining length
  becomes negative, is converted to a huge \<open>size_t\<close>, and the nested \<open>Encode\<close> writes its
  whole wire form behind the end of the buffer before the call returns \<open>false\<close>.\<close>

theorem Encode_struct_overflow:
  assumes "wt_fields fs vs" "list_all single vs" "data \<noteq> 0" "len < 4"
    "length (wires fs vs) + 4 < 2 ^ 31"
  shows "Encode [GStruct fs] [VStruct vs] data (int len) m =
           (put_bytes m (data + 4) (wires fs vs), None)"
proof -
  have f: "fits (int len - 4) (length (wires fs vs))" using assms(4,5) by (simp add: fits_def)
  have "run_encode (encode_fields fs vs) (data + 4) (int len - 4) m =
     (put_bytes m (data + 4) (wires fs vs), Some (int (length (wires fs vs))))"
    by (rule run_encode_spec [OF enc_message [OF assms(1,2)] _ f]) simp
  moreover have "to_int32 4 = 4" "to_int32 (int len - 4) = int len - 4"
    using assms(4) by (simp_all add: to_int32_id)
  moreover have "\<not> write_fits (BinEncoder data len) 4" using assms(4)
    by (simp add: write_fits_def BinEncoder_def)
  moreover have "to_size_t (int len) = len" using assms(4) by (simp add: to_size_t_def)
  moreover have "nat (int data + 4) = data + 4" by simp
  ultimately show ?thesis using assms(3)
    by (simp add: Encode_def run_encode_def encode_sub_def Write32_raw Write_raw_def codec_simps
        BinEncoder_def)
qed

theorem Encode_struct_overflow_witness:
  "Encode [GStruct [GScalar S32]] [VStruct [VScalar 7]] 100 (int 0) (\<lambda>x. 0) =
     (put_bytes (\<lambda>x. 0) 104 (wires [GScalar S32] [VScalar 7]), None)"
  using Encode_struct_overflow [of "[GScalar S32]" "[VScalar 7]" 100 0 "\<lambda>x. 0"] by simp

text \<open>C33: The string decode template has no check against the maximum: a received size of more than
  the array's \<open>MAX + 1\<close> bytes, with that many bytes present, is copied past the end of the
  member.\<close>

theorem Decode_string_overrun:
  assumes "n < 2 ^ 31 - 4" "mx + 1 < n" "length bs = n" "data \<noteq> 0"
    "get_bytes m data (4 + n) = be_bytes 4 n @ bs"
  shows "Decode [GString mx] [VString old k] data (int (4 + n)) m = DOverrun"
proof -
  let ?d = "BinDecoder data (4 + n)"
  have g: "get_bytes m data 4 = be_bytes 4 n"
    using assms(3,5) get_bytes_split [of m data "be_bytes 4 n" bs] by simp
  have n: "n < 2 ^ 32" using assms(1) by simp
  have "rd (Read32 ?d m) = DOk (?d\<lparr>read_pos := read_pos ?d + length (be_bytes 4 n)\<rparr>, n)"
    by (rule dec_specD [OF dec_word [OF n] assms(4)]) (use g assms(1) in \<open>simp_all add: BinDecoder_def\<close>)
  then have "rd (Read32 ?d m) = DOk (?d\<lparr>read_pos := 4\<rparr>, n)" by (simp add: BinDecoder_def)
  moreover have "to_size_t (int (4 + n)) = 4 + n" using assms(1) by (simp add: to_size_t_def)
  ultimately show ?thesis using assms(1,2,4)
    by (simp add: Decode_def run_decode_def bindD_def Read_raw_def read_fits_def rd_def BinDecoder_def)
qed

theorem Decode_string_overrun_witness:
  "Decode [GString 1] [VString [0, 0] 0] 100 (int (4 + 3))
     (put_bytes (\<lambda>x. 0) 100 (be_bytes 4 3 @ [65, 65, 65])) = DOverrun"
proof -
  have "get_bytes (put_bytes (\<lambda>x. 0) 100 (be_bytes 4 3 @ [65, 65, 65])) 100 (4 + 3) =
      be_bytes 4 3 @ [65, 65, 65]"
    using get_put_bytes [of "\<lambda>x. 0" 100 "be_bytes 4 3 @ [65, 65, 65]"] by simp
  then show ?thesis
    by (rule Decode_string_overrun [rotated -1]) simp_all
qed

section \<open>Setters\<close>

lemma takeWhile_nul: "0 \<notin> set s \<Longrightarrow> takeWhile (\<lambda>b. b \<noteq> 0) (s @ 0 # rest) = (s :: byte list)"
  by (induction s) auto

lemma takeWhile_id: "0 \<notin> set s \<Longrightarrow> takeWhile (\<lambda>b. b \<noteq> 0) s = (s :: byte list)"
  by (induction s) auto

lemma strnlen_short:
  assumes "0 \<notin> set s" "length s < mx" shows "strnlen (s @ 0 # rest) mx = length s"
proof -
  obtain r where "take mx (s @ 0 # rest) = s @ 0 # r"
    using assms(2) by (cases "mx - length s") auto
  then show ?thesis using assms(1) by (simp add: strnlen_def takeWhile_nul)
qed

lemma strncpy_short: "0 \<notin> set s \<Longrightarrow> strncpy dst (s @ 0 # rest) (length s) = s @ drop (length s) dst"
  by (simp add: strncpy_def Let_def takeWhile_id)

text \<open>\<open>set_<field>(input)\<close> on a NUL-terminated input of at most \<open>MAX\<close> bytes stores
  exactly these bytes, keeps the structure well-typed and returns \<open>true\<close>; the byte behind them
  becomes the digit \<open>'0'\<close> (48), not the terminator, so a later string function that
  relies on a terminator does not stop there. A longer input is refused.\<close>

theorem set_string_spec:
  assumes "wt_field (GString mx) v" "0 \<notin> set s"
  shows "if length s \<le> mx
         then \<exists>bs. set_string mx v (Some (s @ 0 # rest)) = Some (VString bs (length s)) \<and>
                wt_field (GString mx) (VString bs (length s)) \<and> take (length s) bs = s \<and>
                bs ! length s = 48
         else set_string mx v (Some (s @ 0 # rest)) = None"
proof -
  obtain dst n where v: "v = VString dst n" "length dst = mx + 1" using assms(1) by (cases v) auto
  have "strnlen (s @ 0 # rest) (mx + 1) = mx + 1" if "mx < length s"
  proof -
    have "takeWhile (\<lambda>b. b \<noteq> 0) (take (mx + 1) s) = take (mx + 1) s"
      using assms(2) by (intro takeWhile_id) (auto dest: in_set_takeD)
    then show ?thesis using that by (simp add: strnlen_def del: takeWhile_eq_all_conv)
  qed
  then show ?thesis using v assms(2)
    by (simp add: set_string_def strnlen_short strncpy_short Let_def)
qed

theorem set_string_spec_witness:
  "(\<exists>bs. set_string 3 (VString [0, 0, 0, 0] 0) (Some ([65, 66] @ 0 # [])) = Some (VString bs 2) \<and>
        take 2 bs = [65, 66] \<and> bs ! 2 = 48) \<and>
   set_string 1 (VString [0, 0] 0) (Some ([65, 66] @ 0 # [])) = None"
proof -
  have two: "length [65, 66 :: byte] = 2" and nz: "0 \<notin> set [65, 66 :: byte]" by simp_all
  have wt: "wt_field (GString 3) (VString [0, 0, 0, 0] 0)" "wt_field (GString 1) (VString [0, 0] 0)"
    by simp_all
  show ?thesis
    using set_string_spec [OF wt(1) nz, of "[]"] set_string_spec [OF wt(2) nz, of "[]"]
    unfolding two by auto
qed

text \<open>\<open>Add<Field>(input)\<close> appends one element to the live part of a repeated field and keeps the
  structure well-typed, and refuses exactly when the field is full.\<close>

theorem add_elem_spec:
  assumes "wt_field (GStructVec fs mx) (VStructVec vss n)" "wt_fields fs vs"
  shows "add_elem mx (VStructVec vss n) (VStruct vs) =
           (if n = mx then None else Some (VStructVec (vss[n := vs]) (n + 1))) \<and>
         (n \<noteq> mx \<longrightarrow> wt_field (GStructVec fs mx) (VStructVec (vss[n := vs]) (n + 1)) \<and>
                     live (VStructVec (vss[n := vs]) (n + 1)) =
                       AMsgs (map (map live) (take n vss) @ [map live vs]))"
  using assms
  by (auto simp: add_elem_def list_all_iff take_map take_Suc_conv_app_nth dest: set_update_subsetI [THEN subsetD]
      dest!: subsetD [OF set_update_subset_insert])

theorem add_elem_spec_witness:
  "add_elem 1 (VStructVec [[VScalar 0]] 0) (VStruct [VScalar 5]) = Some (VStructVec [[VScalar 5]] 1)"
  using add_elem_spec [of "[GScalar S32]" 1 "[[VScalar 0]]" 0 "[VScalar 5]"] by simp

end
