(* ===== verification/Packer_Props.thy ===== *)
theory Packer_Props
  imports Bin_Packer
begin

text \<open>
  The packer as a component of its own: the operations of \<open>BinEncoder\<close> and \<open>BinDecoder\<close> that generated code does not call,
  the steps of an encoder, and sequences of writes and reads. Shown: an encoder used with sizes below \<open>2^63\<close> never writes
  outside its buffer; a sequence of values is written exactly when it fits and is read back by the same sequence of reads;
  and where the size check wraps around.
\<close>

section \<open>Further operations\<close>

definition Reset_encoder :: "encoder \<Rightarrow> nat \<Rightarrow> nat \<Rightarrow> encoder" where
  "Reset_encoder e buffer len = e\<lparr>write_pos := 0, e_buffer := buffer, e_len := len\<rparr>"

definition SetWritePos :: "encoder \<Rightarrow> nat \<Rightarrow> encoder" where
  "SetWritePos e pos = e\<lparr>write_pos := pos\<rparr>"

definition Reset_decoder :: "decoder \<Rightarrow> nat \<Rightarrow> nat \<Rightarrow> decoder" where
  "Reset_decoder d buffer len = d\<lparr>read_pos := 0, d_buffer := buffer, d_len := len\<rparr>"

definition SetReadPos :: "decoder \<Rightarrow> nat \<Rightarrow> decoder" where
  "SetReadPos d pos = d\<lparr>read_pos := pos\<rparr>"

text \<open>\<open>Read(const void **, size_t)\<close> returns the address instead of a copy.\<close>

definition Read_ptr :: "decoder \<Rightarrow> nat \<Rightarrow> (decoder \<times> nat) option" where
  "Read_ptr d n = (if read_fits d n then Some (advance_read d n, d_buffer d + read_pos d) else None)"

text \<open>The integer overloads with a conversion flag of 0 keep the byte order of the host.\<close>

definition Write_host :: "nat \<Rightarrow> encoder \<Rightarrow> mem \<Rightarrow> nat \<Rightarrow> (encoder \<times> mem) option" where
  "Write_host k e m v = Write_raw e m (le_bytes k v)"

definition Read_host :: "nat \<Rightarrow> decoder \<Rightarrow> mem \<Rightarrow> (decoder \<times> nat) option" where
  "Read_host k d m = map_option (\<lambda>(d', bs). (d', of_le bs)) (Read_raw d m k)"

section \<open>Steps of an encoder\<close>

text \<open>A step with a size below \<open>2^63\<close>, the largest size of an object; all \<open>Write\<close> overloads are \<open>Write_raw\<close> on some bytes.\<close>

inductive enc_step :: "encoder \<times> mem \<Rightarrow> encoder \<times> mem \<Rightarrow> bool" where
  skip_step: "SkipWritePos e n = Some e' \<Longrightarrow> n < 2 ^ 63 \<Longrightarrow> enc_step (e, m) (e', m)"
| write_step: "Write_raw e m bs = Some (e', m') \<Longrightarrow> length bs < 2 ^ 63 \<Longrightarrow> enc_step (e, m) (e', m')"
| rewind_step: "pos \<le> write_pos e \<Longrightarrow> enc_step (e, m) (SetWritePos e pos, m)"

inductive_cases enc_stepE: "enc_step (e, m) (e', m')"

definition enc_inv :: "nat \<Rightarrow> nat \<Rightarrow> mem \<Rightarrow> encoder \<times> mem \<Rightarrow> bool" where
  "enc_inv buffer len m0 = (\<lambda>(e, m). e_buffer e = buffer \<and> e_len e = len \<and> write_pos e \<le> len \<and>
     (\<forall>a. a < buffer \<or> buffer + len \<le> a \<longrightarrow> m a = m0 a))"

lemma fits_inside: "write_pos e \<le> e_len e \<Longrightarrow> e_len e < 2 ^ 63 \<Longrightarrow> n < 2 ^ 63 \<Longrightarrow>
    (write_fits e n \<longleftrightarrow> write_pos e + n \<le> e_len e) \<and> (write_pos e + n) mod 2 ^ 64 = write_pos e + n"
  by (simp add: write_fits_def not_less)

lemma enc_inv_step:
  assumes "enc_step s s'" "enc_inv buffer len m0 s" "len < 2 ^ 63"
  shows "enc_inv buffer len m0 s'"
  using assms
proof cases
  case (skip_step e n e' m)
  then show ?thesis using assms(2,3) fits_inside [of e n]
    by (auto simp: SkipWritePos_def advance_write_def enc_inv_def split: if_splits)
next
  case (write_step e m bs e' m')
  have i: "e_buffer e = buffer" "e_len e = len" "write_pos e \<le> len" "\<And>a. a < buffer \<or> buffer + len \<le> a \<Longrightarrow> m a = m0 a"
    using assms(2) write_step(1) by (auto simp: enc_inv_def)
  have w: "write_pos e + length bs \<le> len" "e' = advance_write e (length bs)" "m' = put_bytes m (buffer + write_pos e) bs"
    using write_step(3,4) fits_inside [of e "length bs"] i assms(3) by (auto simp: Write_raw_def split: if_splits)
  have "m' a = m0 a" if "a < buffer \<or> buffer + len \<le> a" for a
    using that i(4) [of a] w(1) put_bytes_outside [of a "buffer + write_pos e" bs m] w(3) by auto
  then show ?thesis using write_step(2) i w fits_inside [of e "length bs"] assms(3) write_step(4)
    by (auto simp: enc_inv_def advance_write_def)
next
  case (rewind_step pos e m)
  then show ?thesis using assms(2) by (auto simp: enc_inv_def SetWritePos_def)
qed

text \<open>C29: Whatever an encoder on a buffer of less than \<open>2^63\<close> bytes is asked to do, with writes and skips of less than \<open>2^63\<close> bytes and
  with rewinding, its position stays within the buffer and no byte outside the buffer changes.\<close>

theorem encoder_stays_inside:
  assumes "enc_step\<^sup>*\<^sup>* (BinEncoder buffer len, m0) (e, m)" "len < 2 ^ 63"
  shows "write_pos e \<le> len \<and> (\<forall>a. a < buffer \<or> buffer + len \<le> a \<longrightarrow> m a = m0 a)"
proof -
  have "enc_inv buffer len m0 (e, m)" using assms(1)
  proof (induction rule: rtranclp_induct)
    case base
    show ?case by (simp add: enc_inv_def BinEncoder_def)
  next
    case (step s s')
    then show ?case using enc_inv_step assms(2) by blast
  qed
  then show ?thesis by (simp add: enc_inv_def)
qed

theorem encoder_stays_inside_witness:
  "\<exists>e m. enc_step\<^sup>*\<^sup>* (BinEncoder 100 8, \<lambda>_. 0) (e, m) \<and> write_pos e = 6 \<and> m 99 = 0 \<and> m 108 = 0"
proof -
  have "\<exists>e m. Write_raw (BinEncoder 100 8) (\<lambda>_. 0) [1, 2, 3, 4, 5, 6] = Some (e, m) \<and> write_pos e = 6"
    by (simp add: Write_raw_def write_fits_def BinEncoder_def advance_write_def)
  then obtain e m where w: "Write_raw (BinEncoder 100 8) (\<lambda>_. 0) [1, 2, 3, 4, 5, 6] = Some (e, m)" "write_pos e = 6" by blast
  have "length [1, 2, 3, 4, 5, 6 :: byte] = 6" by simp
  then have s: "enc_step\<^sup>*\<^sup>* (BinEncoder 100 8, \<lambda>_. 0) (e, m)" by (intro r_into_rtranclp write_step [OF w(1)]) (simp only:, simp)
  show ?thesis by (intro exI [of _ e] exI [of _ m]) (use encoder_stays_inside [OF s] s w(2) in auto)
qed

section \<open>Sequences of values\<close>

datatype item = I8 nat | I16 nat | I32 nat | I64 nat | Raw "byte list"

fun item_bytes :: "item \<Rightarrow> byte list" where
  "item_bytes (I8 v) = be_bytes 1 v"
| "item_bytes (I16 v) = be_bytes 2 v"
| "item_bytes (I32 v) = be_bytes 4 v"
| "item_bytes (I64 v) = be_bytes 8 v"
| "item_bytes (Raw bs) = bs"

fun item_ok :: "item \<Rightarrow> bool" where
  "item_ok (I8 v) = (v < 256)"
| "item_ok (I16 v) = (v < 256 ^ 2)"
| "item_ok (I32 v) = (v < 256 ^ 4)"
| "item_ok (I64 v) = (v < 256 ^ 8)"
| "item_ok (Raw bs) = True"

fun write_item :: "item \<Rightarrow> encoder \<Rightarrow> mem \<Rightarrow> (encoder \<times> mem) option" where
  "write_item (I8 v) e m = Write8 e m v"
| "write_item (I16 v) e m = Write16 e m v"
| "write_item (I32 v) e m = Write32 e m v"
| "write_item (I64 v) e m = Write64 e m v"
| "write_item (Raw bs) e m = Write_raw e m bs"

fun write_items :: "item list \<Rightarrow> encoder \<Rightarrow> mem \<Rightarrow> (encoder \<times> mem) option" where
  "write_items [] e m = Some (e, m)"
| "write_items (x # xs) e m = (case write_item x e m of None \<Rightarrow> None | Some (e', m') \<Rightarrow> write_items xs e' m')"

text \<open>The read that belongs to an item.\<close>

fun read_item :: "item \<Rightarrow> decoder \<Rightarrow> mem \<Rightarrow> (decoder \<times> item) option" where
  "read_item (I8 _) d m = map_option (\<lambda>(d', v). (d', I8 v)) (Read8 d m)"
| "read_item (I16 _) d m = map_option (\<lambda>(d', v). (d', I16 v)) (Read16 d m)"
| "read_item (I32 _) d m = map_option (\<lambda>(d', v). (d', I32 v)) (Read32 d m)"
| "read_item (I64 _) d m = map_option (\<lambda>(d', v). (d', I64 v)) (Read64 d m)"
| "read_item (Raw bs) d m = map_option (\<lambda>(d', cs). (d', Raw cs)) (Read_raw d m (length bs))"

fun read_items :: "item list \<Rightarrow> decoder \<Rightarrow> mem \<Rightarrow> (decoder \<times> item list) option" where
  "read_items [] d m = Some (d, [])"
| "read_items (x # xs) d m =
     (case read_item x d m of
        None \<Rightarrow> None
      | Some (d', y) \<Rightarrow> map_option (\<lambda>(d'', ys). (d'', y # ys)) (read_items xs d' m))"

definition items_bytes :: "item list \<Rightarrow> byte list" where
  "items_bytes xs = concat (map item_bytes xs)"

lemma write_item_raw: "write_item x e m = Write_raw e m (item_bytes x)"
  by (cases x) (simp_all add: Write8_def Write16_def Write32_def Write64_def le_bytes_ntohs le_bytes_ntohl le_bytes_htonll be_bytes_def)

lemma write_items_spec:
  assumes "write_pos e \<le> e_len e" "e_len e < 2 ^ 63" "length (items_bytes xs) < 2 ^ 63"
  shows "write_items xs e m =
    (if write_pos e + length (items_bytes xs) \<le> e_len e
     then Some (e\<lparr>write_pos := write_pos e + length (items_bytes xs)\<rparr>, put_bytes m (e_buffer e + write_pos e) (items_bytes xs)) else None)"
  using assms
proof (induction xs arbitrary: e m)
  case (Cons x xs)
  let ?n = "length (item_bytes x)"
  have b: "items_bytes (x # xs) = item_bytes x @ items_bytes xs" by (simp add: items_bytes_def)
  have n: "?n < 2 ^ 63" "length (items_bytes xs) < 2 ^ 63" using Cons.prems(3) by (simp_all add: b)
  note f = fits_inside [OF Cons.prems(1,2) n(1)]
  show ?case
  proof (cases "write_pos e + ?n \<le> e_len e")
    case True
    let ?e = "e\<lparr>write_pos := write_pos e + ?n\<rparr>" and ?m = "put_bytes m (e_buffer e + write_pos e) (item_bytes x)"
    have "write_item x e m = Some (?e, ?m)" using True f by (simp add: write_item_raw Write_raw_def advance_write_def)
    then show ?thesis using Cons.IH [of ?e ?m] Cons.prems(2) n(2) True
      put_bytes_append [of m "e_buffer e + write_pos e" "item_bytes x" "items_bytes xs"]
      by (simp add: b add.assoc)
  next
    case False
    then show ?thesis using f by (simp add: write_item_raw Write_raw_def b)
  qed
qed (simp add: items_bytes_def)

lemma read_fits_inside: "read_pos d \<le> d_len d \<Longrightarrow> d_len d < 2 ^ 63 \<Longrightarrow> n < 2 ^ 63 \<Longrightarrow>
    (read_fits d n \<longleftrightarrow> read_pos d + n \<le> d_len d) \<and> (read_pos d + n) mod 2 ^ 64 = read_pos d + n"
  by (simp add: read_fits_def not_less)

lemma ntohs_bytes: "ntohs (of_le bs) = of_be bs" if "length bs = 2"
  using that by (simp add: ntohs_def of_be_def le_bytes_of_le)

lemma ntohl_bytes: "ntohl (of_le bs) = of_be bs" if "length bs = 4"
  using that by (simp add: ntohl_def of_be_def le_bytes_of_le)

lemma ntohll_bytes:
  assumes "length bs = 8"
  shows "ntohll (of_le bs) = of_be bs"
proof -
  have "ntohll (of_le bs) < 2 ^ 64" by (simp add: ntohll_def Let_def)
  then have "ntohll (of_le bs) = of_le (le_bytes 8 (htonll (of_le bs)))" by (simp add: of_le_le_bytes ntohll_htonll)
  also have "\<dots> = of_be bs" using assms by (simp add: le_bytes_htonll be_bytes_def of_be_def le_bytes_of_le)
  finally show ?thesis .
qed

lemma read_item_spec:
  assumes "read_fits d (length (item_bytes x))" "item_ok x"
    and "get_bytes m (d_buffer d + read_pos d) (length (item_bytes x)) = item_bytes x"
  shows "read_item x d m = Some (advance_read d (length (item_bytes x)), x)"
proof -
  have r: "Read_raw d m (length (item_bytes x)) = Some (advance_read d (length (item_bytes x)), item_bytes x)"
    using assms(1,3) by (simp add: Read_raw_def)
  show ?thesis using r assms(2)
    by (cases x) (simp_all add: Read8_def Read16_def Read32_def Read64_def ntohs_bytes ntohl_bytes ntohll_bytes of_be_be_bytes,
      simp add: be_bytes_def unat_of_nat)
qed

lemma read_items_spec:
  assumes "read_pos d + length (items_bytes xs) \<le> d_len d" "d_len d < 2 ^ 63" "list_all item_ok xs"
    and "get_bytes m (d_buffer d + read_pos d) (length (items_bytes xs)) = items_bytes xs"
  shows "read_items xs d m = Some (d\<lparr>read_pos := read_pos d + length (items_bytes xs)\<rparr>, xs)"
  using assms
proof (induction xs arbitrary: d)
  case (Cons x xs)
  let ?n = "length (item_bytes x)"
  have b: "items_bytes (x # xs) = item_bytes x @ items_bytes xs" by (simp add: items_bytes_def)
  have g: "get_bytes m (d_buffer d + read_pos d) ?n = item_bytes x"
      "get_bytes m (d_buffer d + read_pos d + ?n) (length (items_bytes xs)) = items_bytes xs"
    using Cons.prems(4) by (simp_all add: b get_bytes_split)
  have f: "read_fits d ?n" "(read_pos d + ?n) mod 2 ^ 64 = read_pos d + ?n"
    using read_fits_inside [of d ?n] Cons.prems(1,2) by (simp_all add: b)
  have "read_item x d m = Some (d\<lparr>read_pos := read_pos d + ?n\<rparr>, x)"
    using read_item_spec [OF f(1) _ g(1)] Cons.prems(3) f(2) by (simp add: advance_read_def)
  then show ?case using Cons.IH [of "d\<lparr>read_pos := read_pos d + ?n\<rparr>"] Cons.prems g(2) by (simp add: b add.assoc)
qed (simp add: items_bytes_def)

text \<open>C30: A sequence of integers and byte blocks is written exactly when it fits into the buffer, most significant bytes first, and
  a decoder over the same buffer reads the same sequence back and ends where the encoder ended.\<close>

theorem packer_roundtrip:
  assumes "list_all item_ok xs" "len < 2 ^ 63" "length (items_bytes xs) < 2 ^ 63"
  shows "if length (items_bytes xs) \<le> len
    then \<exists>e m' d. write_items xs (BinEncoder buffer len) m = Some (e, m') \<and> m' = put_bytes m buffer (items_bytes xs) \<and>
      read_items xs (BinDecoder buffer len) m' = Some (d, xs) \<and> read_pos d = write_pos e \<and> write_pos e = length (items_bytes xs)
    else write_items xs (BinEncoder buffer len) m = None"
proof -
  let ?m = "put_bytes m buffer (items_bytes xs)"
  have w: "write_items xs (BinEncoder buffer len) m =
      (if length (items_bytes xs) \<le> len then Some ((BinEncoder buffer len)\<lparr>write_pos := length (items_bytes xs)\<rparr>, ?m) else None)"
    using write_items_spec [of "BinEncoder buffer len" xs m] assms(2,3) by (simp add: BinEncoder_def)
  have "read_items xs (BinDecoder buffer len) ?m = Some ((BinDecoder buffer len)\<lparr>read_pos := length (items_bytes xs)\<rparr>, xs)"
    if "length (items_bytes xs) \<le> len"
    using read_items_spec [of "BinDecoder buffer len" xs ?m] assms that by (simp add: BinDecoder_def get_put_bytes)
  then show ?thesis using w by (simp add: BinDecoder_def)
qed

theorem packer_roundtrip_witness:
  "\<exists>e m d. write_items [I8 7, I32 1000, Raw [1, 2]] (BinEncoder 100 8) (\<lambda>_. 0) = Some (e, m) \<and>
     read_items [I8 7, I32 1000, Raw [1, 2]] (BinDecoder 100 8) m = Some (d, [I8 7, I32 1000, Raw [1, 2]])"
proof -
  have "length (items_bytes [I8 7, I32 1000, Raw [1, 2]]) = 7" by (simp add: items_bytes_def)
  then show ?thesis using packer_roundtrip [of "[I8 7, I32 1000, Raw [1, 2]]" 8 100 "\<lambda>_. 0"] by auto
qed

text \<open>The size check is made modulo \<open>2^64\<close>: a size that wraps around is accepted and moves the position backwards.\<close>

theorem SkipWritePos_wraps:
  assumes "k \<le> write_pos e" "0 < k" "write_pos e \<le> e_len e" "e_len e < 2 ^ 63"
  shows "SkipWritePos e (2 ^ 64 - k) = Some (e\<lparr>write_pos := write_pos e - k\<rparr>)"
proof -
  have "write_pos e + (2 ^ 64 - k) = write_pos e - k + 2 ^ 64" using assms by simp
  then have "(write_pos e + (2 ^ 64 - k)) mod 2 ^ 64 = (write_pos e - k) mod 2 ^ 64" by (simp only: mod_add_self2)
  also have "\<dots> = write_pos e - k" using assms by (intro mod_less) simp
  finally have w: "(write_pos e + (2 ^ 64 - k)) mod 2 ^ 64 = write_pos e - k" .
  have "write_fits e (2 ^ 64 - k)" using assms unfolding write_fits_def w by simp
  then show ?thesis unfolding SkipWritePos_def advance_write_def w by simp
qed

end
