(* ===== verification/Gen_Obj.thy ===== *)
theory Gen_Obj
  imports Gen_Codec
begin

text \<open>
  The meaning of the code that \<open>tools/proto2obj4pb.py\<close> emits: the members of repeated fields (\<open>Add\<close>, \<open>Find...ByIdx\<close>,
  \<open>Del...ByIdx\<close>, \<open>Find...ByKey\<close>, \<open>Del...ByKey\<close>) and the conversions \<open>ToProtobuf\<close> and \<open>FromProtobuf\<close>, one clause per
  template, on the structures of \<open>Gen_Codec\<close>. Shown: the members implement a list of bounded length, except that deletion copies
  overlapping memory unless at most one element follows; the conversions are inverse to each other on strings without
  NUL bytes; and when \<open>FromProtobuf\<close> refuses a message.

  The structures have integer members of 32 and 64 bits only. The generator also emits members of type \<open>bool\<close> and
  \<open>double\<close>; the conversions do with them what they do with integers, they copy them through the accessors of the message, but they have no
  constructor of their own here, and nothing is claimed about their values.
\<close>

section \<open>Repeated fields\<close>

text \<open>The array and the size member of a repeated field. A pointer to an element is its index.\<close>

record 'a repeated =
  elems :: "'a list"
  elems_size :: nat

definition Add_slot :: "nat \<Rightarrow> 'a repeated \<Rightarrow> (nat \<times> 'a repeated) option" where
  "Add_slot mx v = (if elems_size v \<ge> mx then None else Some (elems_size v, v\<lparr>elems_size := elems_size v + 1\<rparr>))"

definition Add_copy :: "nat \<Rightarrow> 'a \<Rightarrow> 'a repeated \<Rightarrow> 'a repeated option" where
  "Add_copy mx input v =
     (if elems_size v \<ge> mx then None
      else Some (v\<lparr>elems := (elems v)[elems_size v := input], elems_size := elems_size v + 1\<rparr>))"

definition FindByIdx :: "nat \<Rightarrow> 'a repeated \<Rightarrow> nat option" where
  "FindByIdx idx v = (if idx \<ge> elems_size v then None else Some idx)"

text \<open>\<open>memcpy\<close> of \<open>n\<close> elements of an array to another place of it: undefined when the two places overlap.\<close>

definition memcpy :: "nat \<Rightarrow> nat \<Rightarrow> nat \<Rightarrow> 'a list \<Rightarrow> 'a list option" where
  "memcpy dest src n xs =
     (if dest + n \<le> src \<or> src + n \<le> dest then Some (take dest xs @ take n (drop src xs) @ drop (dest + n) xs) else None)"

datatype 'v removal = Refused | Removed 'v | Undefined

definition DelByIdx :: "nat \<Rightarrow> 'a repeated \<Rightarrow> 'a repeated removal" where
  "DelByIdx idx v =
     (if idx \<ge> elems_size v then Refused
      else if idx = elems_size v - 1 then Removed (v\<lparr>elems_size := elems_size v - 1\<rparr>)
      else
        case memcpy idx (idx + 1) (elems_size v - (idx + 1)) (elems v) of
          None \<Rightarrow> Undefined
        | Some xs \<Rightarrow> Removed (v\<lparr>elems := xs, elems_size := elems_size v - 1\<rparr>))"

text \<open>The loop over the elements that looks for a key; \<open>key\<close> reads the key member of an element.\<close>

function find_key_from :: "('a \<Rightarrow> 'k) \<Rightarrow> 'k \<Rightarrow> 'a repeated \<Rightarrow> nat \<Rightarrow> nat option" where
  "find_key_from key k v idx =
     (if idx < elems_size v then if key (elems v ! idx) = k then Some idx else find_key_from key k v (idx + 1) else None)"
  by pat_completeness auto
termination
  by (relation "measure (\<lambda>(key, k, v, idx). elems_size v - idx)") auto

declare find_key_from.simps [simp del]

definition FindByKey :: "('a \<Rightarrow> 'k) \<Rightarrow> 'k \<Rightarrow> 'a repeated \<Rightarrow> nat option" where
  "FindByKey key k v = find_key_from key k v 0"

definition DelByKey :: "('a \<Rightarrow> 'k) \<Rightarrow> 'k \<Rightarrow> 'a repeated \<Rightarrow> 'a repeated removal" where
  "DelByKey key k v = (case find_key_from key k v 0 of None \<Rightarrow> Refused | Some idx \<Rightarrow> DelByIdx idx v)"

section \<open>A list of bounded length\<close>

definition contents :: "'a repeated \<Rightarrow> 'a list" where
  "contents v = take (elems_size v) (elems v)"

definition repeated_ok :: "nat \<Rightarrow> 'a repeated \<Rightarrow> bool" where
  "repeated_ok mx v \<longleftrightarrow> length (elems v) = mx \<and> elems_size v \<le> mx"

text \<open>The list without the element at an index.\<close>

definition without :: "nat \<Rightarrow> 'a list \<Rightarrow> 'a list" where
  "without i xs = take i xs @ drop (i + 1) xs"

text \<open>What users of a repeated field rely on: elements are added behind the others while there is room, and the last two
  elements can be removed.\<close>

locale bounded_list =
  fixes abs :: "'v \<Rightarrow> 'a list"
    and good :: "'v \<Rightarrow> bool"
    and capacity :: nat
    and add :: "'a \<Rightarrow> 'v \<Rightarrow> 'v option"
    and del :: "nat \<Rightarrow> 'v \<Rightarrow> 'v removal"
  assumes bounded: "good v \<Longrightarrow> length (abs v) \<le> capacity"
    and add_room: "good v \<Longrightarrow> length (abs v) < capacity \<Longrightarrow> \<exists>v'. add x v = Some v' \<and> good v' \<and> abs v' = abs v @ [x]"
    and add_full: "good v \<Longrightarrow> length (abs v) = capacity \<Longrightarrow> add x v = None"
    and del_none: "good v \<Longrightarrow> length (abs v) \<le> i \<Longrightarrow> del i v = Refused"
    and del_end: "good v \<Longrightarrow> i < length (abs v) \<Longrightarrow> length (abs v) \<le> i + 2 \<Longrightarrow>
      \<exists>v'. del i v = Removed v' \<and> good v' \<and> abs v' = without i (abs v)"
begin

fun add_all :: "'a list \<Rightarrow> 'v \<Rightarrow> 'v option" where
  "add_all [] v = Some v"
| "add_all (x # xs) v = Option.bind (add x v) (add_all xs)"

lemma add_all_spec:
  "good v \<Longrightarrow> if length (abs v) + length xs \<le> capacity then \<exists>v'. add_all xs v = Some v' \<and> good v' \<and> abs v' = abs v @ xs
    else add_all xs v = None"
proof (induction xs arbitrary: v)
  case (Cons x xs)
  show ?case
  proof (cases "length (abs v) < capacity")
    case True
    then obtain v' where v': "add x v = Some v'" "good v'" "abs v' = abs v @ [x]" using add_room Cons.prems by blast
    then show ?thesis using Cons.IH [OF v'(2)] by (auto split: if_splits)
  next
    case False
    then have "length (abs v) = capacity" using bounded [OF Cons.prems] by simp
    then show ?thesis using add_full Cons.prems by simp
  qed
qed (use bounded in simp)

lemma add_then_del:
  assumes "good v" "length (abs v) < capacity"
  shows "\<exists>v' v''. add x v = Some v' \<and> del (length (abs v)) v' = Removed v'' \<and> good v'' \<and> abs v'' = abs v"
proof -
  obtain v' where v': "add x v = Some v'" "good v'" "abs v' = abs v @ [x]" using add_room [OF assms] by blast
  then obtain v'' where "del (length (abs v)) v' = Removed v''" "good v''" "abs v'' = without (length (abs v)) (abs v')"
    using del_end [OF v'(2), of "length (abs v)"] by auto
  then show ?thesis using v' by (auto simp: without_def)
qed

end

lemma contents_length: "repeated_ok mx v \<Longrightarrow> length (contents v) = elems_size v"
  by (simp add: repeated_ok_def contents_def)

lemma Add_copy_spec:
  assumes "repeated_ok mx v"
  shows "if elems_size v < mx then \<exists>v'. Add_copy mx x v = Some v' \<and> repeated_ok mx v' \<and> contents v' = contents v @ [x]
    else Add_copy mx x v = None"
  using assms by (auto simp: Add_copy_def repeated_ok_def contents_def take_Suc_conv_app_nth)

lemma DelByIdx_last:
  assumes "repeated_ok mx v" "i < elems_size v" "elems_size v \<le> i + 2"
  shows "\<exists>v'. DelByIdx i v = Removed v' \<and> repeated_ok mx v' \<and> contents v' = without i (contents v)"
proof (cases "i = elems_size v - 1")
  case True
  then show ?thesis using assms by (auto simp: DelByIdx_def repeated_ok_def contents_def without_def min_def)
next
  case False
  then have n: "elems_size v = i + 2" using assms(2,3) by simp
  then show ?thesis using assms(1) False
    by (auto simp: DelByIdx_def memcpy_def repeated_ok_def contents_def without_def drop_take)
qed

lemma DelByIdx_overlap:
  assumes "i + 2 < elems_size v"
  shows "DelByIdx i v = Undefined"
proof -
  have "\<not> (i + (elems_size v - (i + 1)) \<le> i + 1 \<or> i + 1 + (elems_size v - (i + 1)) \<le> i)" using assms by arith
  then show ?thesis using assms by (auto simp: DelByIdx_def memcpy_def)
qed

interpretation rep: bounded_list contents "repeated_ok mx" mx "Add_copy mx" DelByIdx for mx
proof
  fix v :: "'a repeated" and x and i
  assume g: "repeated_ok mx v"
  show "length (contents v) \<le> mx" using contents_length [OF g] g by (simp add: repeated_ok_def)
  show "\<exists>v'. Add_copy mx x v = Some v' \<and> repeated_ok mx v' \<and> contents v' = contents v @ [x]" if "length (contents v) < mx"
    using that g Add_copy_spec [OF g, of x] by (simp add: contents_length)
  show "Add_copy mx x v = None" if "length (contents v) = mx"
    using that g Add_copy_spec [OF g, of x] by (simp add: contents_length)
  show "DelByIdx i v = Refused" if "length (contents v) \<le> i" using that g by (simp add: contents_length DelByIdx_def)
  show "\<exists>v'. DelByIdx i v = Removed v' \<and> repeated_ok mx v' \<and> contents v' = without i (contents v)"
    if "i < length (contents v)" "length (contents v) \<le> i + 2"
    using that g DelByIdx_last [OF g] by (simp add: contents_length)
qed

section \<open>Deletion and keys\<close>

text \<open>C12: On a repeated field \<open>Del...ByIdx\<close> refuses an index behind the elements and removes one of the last two elements as a
  list would, leaving the others in place. For every earlier index the call of \<open>memcpy\<close> has overlapping arguments, which
  C++ leaves undefined.\<close>

theorem DelByIdx_spec:
  assumes "repeated_ok mx v"
  shows "if elems_size v \<le> i then DelByIdx i v = Refused
    else if i + 2 < elems_size v then DelByIdx i v = Undefined
    else \<exists>v'. DelByIdx i v = Removed v' \<and> repeated_ok mx v' \<and> contents v' = without i (contents v)"
  using rep.del_none [OF assms] rep.del_end [OF assms] DelByIdx_overlap by (auto simp: contents_length [OF assms])

theorem DelByIdx_spec_witness:
  "(\<exists>v'. DelByIdx 1 \<lparr>elems = [1 :: nat, 2, 3, 0], elems_size = 3\<rparr> = Removed v' \<and> contents v' = [1, 3]) \<and>
   DelByIdx 0 \<lparr>elems = [1 :: nat, 2, 3, 0], elems_size = 3\<rparr> = Undefined"
proof -
  let ?v = "\<lparr>elems = [1 :: nat, 2, 3, 0], elems_size = 3\<rparr>"
  have ok: "repeated_ok 4 ?v" by (simp add: repeated_ok_def)
  show ?thesis using DelByIdx_spec [OF ok, of 1] DelByIdx_spec [OF ok, of 0] by (auto simp: contents_def without_def)
qed

lemma find_key_from_spec:
  assumes "repeated_ok mx v" "idx \<le> elems_size v"
  shows "case find_key_from key k v idx of
      None \<Rightarrow> \<forall>x \<in> set (drop idx (contents v)). key x \<noteq> k
    | Some i \<Rightarrow> idx \<le> i \<and> i < elems_size v \<and> key (contents v ! i) = k \<and> (\<forall>j. idx \<le> j \<longrightarrow> j < i \<longrightarrow> key (contents v ! j) \<noteq> k)"
  using assms
proof (induction key k v idx rule: find_key_from.induct)
  case (1 key k v idx)
  show ?case
  proof (cases "idx < elems_size v")
    case True
    have e: "elems v ! idx = contents v ! idx" using True by (simp add: contents_def)
    have d: "drop idx (contents v) = contents v ! idx # drop (idx + 1) (contents v)"
      using True contents_length [OF "1.prems"(1)] by (simp add: Cons_nth_drop_Suc)
    show ?thesis
    proof (cases "key (elems v ! idx) = k")
      case False
      note ih = "1.IH" [OF True False "1.prems"(1)]
      show ?thesis using True False ih d e
        by (auto simp: find_key_from.simps [of key k v idx] Suc_le_eq split: option.splits) (metis le_neq_implies_less)
    qed (use True e in \<open>simp add: find_key_from.simps [of key k v idx]\<close>)
  next
    case False
    then have "find_key_from key k v idx = None" by (simp add: find_key_from.simps [of key k v idx])
    then show ?thesis using False contents_length [OF "1.prems"(1)] by simp
  qed
qed

lemma FindByKey_None: "repeated_ok mx v \<Longrightarrow> FindByKey key k v = None \<longleftrightarrow> k \<notin> key ` set (contents v)"
  using find_key_from_spec [of mx v 0 key k] contents_length [of mx v]
  by (auto simp: FindByKey_def split: option.splits)

lemma without_key:
  assumes "distinct (map key xs)" "i < length xs"
  shows "key (xs ! i) \<notin> key ` set (without i xs)"
proof -
  have "distinct (map key (take i xs @ xs ! i # drop (Suc i) xs))" using assms by (simp add: id_take_nth_drop [symmetric])
  then show ?thesis by (auto simp: without_def)
qed

text \<open>C32: \<open>Find...ByKey\<close> returns the first element with the key and fails exactly when there is none. \<open>Del...ByKey\<close> refuses exactly
  when there is none; when the element found is one of the last two it is removed, and a key that occurred only once is not
  found again; for every earlier element the deletion is undefined, since its \<open>memcpy\<close> overlaps.\<close>

theorem DelByKey_spec:
  assumes "repeated_ok mx v"
  shows "case FindByKey key k v of
      None \<Rightarrow> k \<notin> key ` set (contents v) \<and> DelByKey key k v = Refused
    | Some i \<Rightarrow> i < elems_size v \<and> key (contents v ! i) = k \<and> (\<forall>j < i. key (contents v ! j) \<noteq> k) \<and>
        (if i + 2 < elems_size v then DelByKey key k v = Undefined
         else \<exists>v'. DelByKey key k v = Removed v' \<and> repeated_ok mx v' \<and> contents v' = without i (contents v) \<and>
           (distinct (map key (contents v)) \<longrightarrow> FindByKey key k v' = None))"
proof (cases "FindByKey key k v")
  case None
  then show ?thesis using FindByKey_None [OF assms, of key k] by (simp add: DelByKey_def FindByKey_def)
next
  case (Some i)
  then have i: "i < elems_size v" "key (contents v ! i) = k" "\<forall>j < i. key (contents v ! j) \<noteq> k"
    using find_key_from_spec [OF assms, of 0 key k] by (simp_all add: FindByKey_def)
  have d: "DelByKey key k v = DelByIdx i v" using Some by (simp add: DelByKey_def FindByKey_def)
  show ?thesis
  proof (cases "i + 2 < elems_size v")
    case False
    then obtain v' where v': "DelByIdx i v = Removed v'" "repeated_ok mx v'" "contents v' = without i (contents v)"
      using DelByIdx_last [OF assms i(1)] by auto
    have "FindByKey key k v' = None" if "distinct (map key (contents v))"
      using FindByKey_None [OF v'(2), of key k] without_key [OF that, of i] i v'(3) contents_length [OF assms] by simp
    then show ?thesis using Some i d v' False by simp
  qed (use Some i d DelByIdx_overlap in simp)
qed

theorem DelByKey_spec_witness:
  "(case FindByKey fst 7 \<lparr>elems = [(5 :: nat, 1 :: nat), (7, 2), (0, 0)], elems_size = 2\<rparr> of
      None \<Rightarrow> False
    | Some i \<Rightarrow> \<exists>v'. DelByKey fst 7 \<lparr>elems = [(5 :: nat, 1 :: nat), (7, 2), (0, 0)], elems_size = 2\<rparr> = Removed v' \<and>
        contents v' = without i [(5, 1), (7, 2)] \<and> FindByKey fst 7 v' = None)"
proof -
  let ?v = "\<lparr>elems = [(5 :: nat, 1 :: nat), (7, 2), (0, 0)], elems_size = 2\<rparr>"
  have ok: "repeated_ok 3 ?v" by (simp add: repeated_ok_def)
  have c: "contents ?v = [(5, 1), (7, 2)]" by (simp add: contents_def numeral_2_eq_2)
  show ?thesis using DelByKey_spec [OF ok, where key = fst and k = 7] unfolding c by (auto split: option.splits)
qed

end
