(* ===== verification/Obj_Convert.thy ===== *)
theory Obj_Convert
  imports Gen_Obj Codec_Props
begin

text \<open>
  The conversions \<open>ToProtobuf\<close> and \<open>FromProtobuf\<close> that \<open>tools/proto2obj4pb.py\<close> emits, one clause per template. The message
  classes of protobuf are code outside the repository: their accessors are an argument, \<open>pb_api\<close>, and \<open>pb_laws\<close> states
  what their documentation promises. Shown: a structure converted into an empty message is read back; \<open>FromProtobuf\<close> refuses a
  message exactly when a repeated field is too long, keeps the structure well-typed in any case, and drops a string that is
  too long without notice.
\<close>

section \<open>Accessors of a message\<close>

text \<open>The accessors generated by \<open>protoc\<close> for a field, which is named by its position: \<open>set_f\<close>, \<open>f()\<close>, \<open>add_f\<close>, \<open>f_size\<close>,
  \<open>f(idx)\<close>. \<open>mutable_f\<close> returns a pointer to the nested message, so that what is done through it is a read, a change and a write
  (\<open>pb_msg\<close>, \<open>pb_put_msg\<close>); the message that \<open>add_f()\<close> returns is \<open>pb_new_msg\<close>, and \<open>pb_add_msg\<close> puts it
  behind the others.\<close>

record 'm pb_api =
  pb_set :: "nat \<Rightarrow> nat \<Rightarrow> 'm \<Rightarrow> 'm"
  pb_get :: "nat \<Rightarrow> 'm \<Rightarrow> nat"
  pb_set_bytes :: "nat \<Rightarrow> byte list \<Rightarrow> 'm \<Rightarrow> 'm"
  pb_bytes :: "nat \<Rightarrow> 'm \<Rightarrow> byte list"
  pb_add :: "nat \<Rightarrow> nat \<Rightarrow> 'm \<Rightarrow> 'm"
  pb_elem :: "nat \<Rightarrow> nat \<Rightarrow> 'm \<Rightarrow> nat"
  pb_size :: "nat \<Rightarrow> 'm \<Rightarrow> nat"
  pb_msg :: "nat \<Rightarrow> 'm \<Rightarrow> 'm"
  pb_put_msg :: "nat \<Rightarrow> 'm \<Rightarrow> 'm \<Rightarrow> 'm"
  pb_new_msg :: "nat \<Rightarrow> 'm \<Rightarrow> 'm"
  pb_add_msg :: "nat \<Rightarrow> 'm \<Rightarrow> 'm \<Rightarrow> 'm"
  pb_elem_msg :: "nat \<Rightarrow> nat \<Rightarrow> 'm \<Rightarrow> 'm"

section \<open>ToProtobuf\<close>

fun to_elems :: "'m pb_api \<Rightarrow> (gval list \<Rightarrow> 'm \<Rightarrow> 'm option) \<Rightarrow> nat \<Rightarrow> gval list list \<Rightarrow> 'm \<Rightarrow> 'm option" where
  "to_elems api conv i [] m = Some m"
| "to_elems api conv i (vs # vss) m =
     (case conv vs (pb_new_msg api i m) of
        None \<Rightarrow> None
      | Some s \<Rightarrow> to_elems api conv i vss (pb_add_msg api i s m))"

text \<open>\<open>None\<close> is the result \<open>false\<close>.\<close>

fun to_field :: "'m pb_api \<Rightarrow> nat \<Rightarrow> gfield \<Rightarrow> gval \<Rightarrow> 'm \<Rightarrow> 'm option"
and to_fields :: "'m pb_api \<Rightarrow> nat \<Rightarrow> gfield list \<Rightarrow> gval list \<Rightarrow> 'm \<Rightarrow> 'm option" where
  "to_field api i (GScalar s) (VScalar x) m = Some (pb_set api i x m)"
| "to_field api i (GString mx) (VString bs n) m = Some (pb_set_bytes api i (take n bs) m)"
| "to_field api i (GScalarVec s mx) (VScalarVec xs n) m = Some (fold (pb_add api i) (take n xs) m)"
| "to_field api i (GStruct fs) (VStruct vs) m =
     (case to_fields api 0 fs vs (pb_msg api i m) of None \<Rightarrow> None | Some s \<Rightarrow> Some (pb_put_msg api i s m))"
| "to_field api i (GStructVec fs mx) (VStructVec vss n) m = to_elems api (to_fields api 0 fs) i (take n vss) m"
| "to_field api i _ _ m = None"
| "to_fields api i (f # fs) (v # vs) m =
     (case to_field api i f v m of None \<Rightarrow> None | Some m' \<Rightarrow> to_fields api (i + 1) fs vs m')"
| "to_fields api i _ _ m = Some m"

definition ToProtobuf :: "'m pb_api \<Rightarrow> gfield list \<Rightarrow> gval list \<Rightarrow> 'm option \<Rightarrow> 'm option" where
  "ToProtobuf api fs vs target = (case target of None \<Rightarrow> None | Some m \<Rightarrow> to_fields api 0 fs vs m)"

section \<open>FromProtobuf\<close>

text \<open>Sizes are converted to \<open>uint32_t\<close>.\<close>

definition u32 :: "nat \<Rightarrow> nat" where
  "u32 n = n mod 2 ^ 32"

fun from_elems :: "(gval list \<Rightarrow> 'm \<Rightarrow> bool \<times> gval list) \<Rightarrow> 'm list \<Rightarrow> gval list list \<Rightarrow> bool \<times> gval list list" where
  "from_elems conv (s # ss) (vs # vss) =
     (case conv vs s of
        (False, vs') \<Rightarrow> (False, vs' # vss)
      | (True, vs') \<Rightarrow> (case from_elems conv ss vss of (ok, vss') \<Rightarrow> (ok, vs' # vss')))"
| "from_elems conv _ vss = (True, vss)"

text \<open>The result and the structure, which is changed also when the result is \<open>false\<close>. The result of \<open>set_f\<close> is not looked at.
  An assignment converts to the type of the member, which is that of the accessor.\<close>

fun from_field :: "'m pb_api \<Rightarrow> nat \<Rightarrow> gfield \<Rightarrow> 'm \<Rightarrow> gval \<Rightarrow> bool \<times> gval"
and from_fields :: "'m pb_api \<Rightarrow> nat \<Rightarrow> gfield list \<Rightarrow> 'm \<Rightarrow> gval list \<Rightarrow> bool \<times> gval list" where
  "from_field api i (GScalar s) m (VScalar x) = (True, VScalar (pb_get api i m mod 256 ^ width s))"
| "from_field api i (GString mx) m (VString bs n) =
     (case set_string_len mx (VString bs n) (Some (pb_bytes api i m @ [0])) (u32 (length (pb_bytes api i m))) of
        None \<Rightarrow> (True, VString bs n)
      | Some v \<Rightarrow> (True, v))"
| "from_field api i (GScalarVec s mx) m (VScalarVec xs n) =
     (let k = u32 (pb_size api i m)
      in if k > mx then (False, VScalarVec xs n)
         else (True, VScalarVec (map (\<lambda>idx. pb_elem api i idx m mod 256 ^ width s) [0..<k] @ drop k xs) k))"
| "from_field api i (GStruct fs) m (VStruct vs) =
     (case from_fields api 0 fs (pb_msg api i m) vs of (ok, vs') \<Rightarrow> (ok, VStruct vs'))"
| "from_field api i (GStructVec fs mx) m (VStructVec vss n) =
     (let k = u32 (pb_size api i m)
      in if k > mx then (False, VStructVec vss n)
         else case from_elems (\<lambda>vs s. from_fields api 0 fs s vs) (map (\<lambda>idx. pb_elem_msg api i idx m) [0..<k]) vss of
                (ok, vss') \<Rightarrow> (ok, VStructVec vss' k))"
| "from_field api i _ m v = (False, v)"
| "from_fields api i (f # fs) m (v # vs) =
     (case from_field api i f m v of
        (False, v') \<Rightarrow> (False, v' # vs)
      | (True, v') \<Rightarrow> (case from_fields api (i + 1) fs m vs of (ok, vs') \<Rightarrow> (ok, v' # vs')))"
| "from_fields api i _ m vs = (True, vs)"

definition FromProtobuf :: "'m pb_api \<Rightarrow> gfield list \<Rightarrow> 'm \<Rightarrow> gval list \<Rightarrow> bool \<times> gval list" where
  "FromProtobuf api fs input vs = from_fields api 0 fs input vs"

text \<open>The overload that parses a buffer; \<open>parse\<close> is \<open>ParseFromArray\<close> on a new message.\<close>

definition FromProtobuf_buf ::
  "(byte list \<Rightarrow> 'm option) \<Rightarrow> 'm pb_api \<Rightarrow> gfield list \<Rightarrow> byte list \<Rightarrow> gval list \<Rightarrow> bool \<times> gval list" where
  "FromProtobuf_buf parse api fs buf vs =
     (case parse buf of None \<Rightarrow> (False, vs) | Some input \<Rightarrow> FromProtobuf api fs input vs)"

section \<open>What protobuf promises\<close>

text \<open>What a field of a message holds.\<close>

datatype 'm pb_value = PUnset | PScalar nat | PBytes "byte list" | PScalars "nat list" | PMsg 'm | PMsgs "'m list"

fun scalars_of :: "'m pb_value \<Rightarrow> nat list" where
  "scalars_of (PScalars xs) = xs"
| "scalars_of _ = []"

fun msgs_of :: "'m pb_value \<Rightarrow> 'm list" where
  "msgs_of (PMsgs ms) = ms"
| "msgs_of _ = []"

text \<open>Setters and adders change one field, getters return what was stored, a nested message that was never set and a newly added one
  are empty.\<close>

definition pb_laws :: "'m pb_api \<Rightarrow> ('m \<Rightarrow> nat \<Rightarrow> 'm pb_value) \<Rightarrow> bool" where
  "pb_laws api fld \<longleftrightarrow>
     (\<forall>i x m. fld (pb_set api i x m) = (fld m)(i := PScalar x)) \<and>
     (\<forall>i x m. fld m i = PScalar x \<longrightarrow> pb_get api i m = x) \<and>
     (\<forall>i b m. fld (pb_set_bytes api i b m) = (fld m)(i := PBytes b)) \<and>
     (\<forall>i b m. fld m i = PBytes b \<longrightarrow> pb_bytes api i m = b) \<and>
     (\<forall>i x m. fld (pb_add api i x m) = (fld m)(i := PScalars (scalars_of (fld m i) @ [x]))) \<and>
     (\<forall>i k m. k < length (scalars_of (fld m i)) \<longrightarrow> pb_elem api i k m = scalars_of (fld m i) ! k) \<and>
     (\<forall>i m. pb_size api i m = length (scalars_of (fld m i)) + length (msgs_of (fld m i))) \<and>
     (\<forall>i s m. fld m i = PMsg s \<longrightarrow> pb_msg api i m = s) \<and>
     (\<forall>i m. fld m i = PUnset \<longrightarrow> fld (pb_msg api i m) = (\<lambda>_. PUnset)) \<and>
     (\<forall>i s m. fld (pb_put_msg api i s m) = (fld m)(i := PMsg s)) \<and>
     (\<forall>i m. fld (pb_new_msg api i m) = (\<lambda>_. PUnset)) \<and>
     (\<forall>i s m. fld (pb_add_msg api i s m) = (fld m)(i := PMsgs (msgs_of (fld m i) @ [s]))) \<and>
     (\<forall>i k m. k < length (msgs_of (fld m i)) \<longrightarrow> pb_elem_msg api i k m = msgs_of (fld m i) ! k)"

lemma pb_laws_rules:
  assumes "pb_laws api fld"
  shows "fld (pb_set api i x m) = (fld m)(i := PScalar x)"
    and "fld m i = PScalar x \<Longrightarrow> pb_get api i m = x"
    and "fld (pb_set_bytes api i b m) = (fld m)(i := PBytes b)"
    and "fld m i = PBytes b \<Longrightarrow> pb_bytes api i m = b"
    and "fld (pb_add api i x m) = (fld m)(i := PScalars (scalars_of (fld m i) @ [x]))"
    and "k < length (scalars_of (fld m i)) \<Longrightarrow> pb_elem api i k m = scalars_of (fld m i) ! k"
    and "pb_size api i m = length (scalars_of (fld m i)) + length (msgs_of (fld m i))"
    and "fld m i = PMsg s \<Longrightarrow> pb_msg api i m = s"
    and "fld m i = PUnset \<Longrightarrow> fld (pb_msg api i m) = (\<lambda>_. PUnset)"
    and "fld (pb_put_msg api i s m) = (fld m)(i := PMsg s)"
    and "fld (pb_new_msg api i m) = (\<lambda>_. PUnset)"
    and "fld (pb_add_msg api i s m) = (fld m)(i := PMsgs (msgs_of (fld m i) @ [s]))"
    and "k < length (msgs_of (fld m i)) \<Longrightarrow> pb_elem_msg api i k m = msgs_of (fld m i) ! k"
  using assms unfolding pb_laws_def by simp_all

section \<open>A converted structure\<close>

text \<open>A message holds the live part of a structure.\<close>

fun holds_field :: "('m \<Rightarrow> nat \<Rightarrow> 'm pb_value) \<Rightarrow> gfield \<Rightarrow> 'm pb_value \<Rightarrow> gval \<Rightarrow> bool"
and holds_fields :: "('m \<Rightarrow> nat \<Rightarrow> 'm pb_value) \<Rightarrow> nat \<Rightarrow> gfield list \<Rightarrow> 'm \<Rightarrow> gval list \<Rightarrow> bool" where
  "holds_field fld (GScalar s) p (VScalar x) = (p = PScalar x)"
| "holds_field fld (GString mx) p (VString bs n) = (p = PBytes (take n bs))"
| "holds_field fld (GScalarVec s mx) p (VScalarVec xs n) = (scalars_of p = take n xs \<and> msgs_of p = [])"
| "holds_field fld (GStruct fs) p (VStruct vs) = (\<exists>s. p = PMsg s \<and> holds_fields fld 0 fs s vs)"
| "holds_field fld (GStructVec fs mx) p (VStructVec vss n) =
     (list_all2 (\<lambda>s vs. holds_fields fld 0 fs s vs) (msgs_of p) (take n vss) \<and> scalars_of p = [])"
| "holds_field fld _ p v = False"
| "holds_fields fld i (f # fs) m (v # vs) = (holds_field fld f (fld m i) v \<and> holds_fields fld (i + 1) fs m vs)"
| "holds_fields fld i [] m [] = True"
| "holds_fields fld i _ m _ = False"

lemma fold_pb_add:
  assumes "pb_laws api fld" "fld m i = PUnset \<or> (\<exists>ys. fld m i = PScalars ys)"
  shows "\<exists>p. fld (fold (pb_add api i) xs m) = (fld m)(i := p) \<and> scalars_of p = scalars_of (fld m i) @ xs \<and> msgs_of p = []"
  using assms(2)
proof (induction xs arbitrary: m)
  case Nil
  then show ?case by (intro exI [of _ "fld m i"]) auto
next
  case (Cons x xs)
  have "\<exists>ys. fld (pb_add api i x m) i = PScalars ys" by (simp add: pb_laws_rules(5) [OF assms(1)])
  then obtain p where "fld (fold (pb_add api i) xs (pb_add api i x m)) = (fld (pb_add api i x m))(i := p)"
      "scalars_of p = scalars_of (fld (pb_add api i x m) i) @ xs" "msgs_of p = []"
    using Cons.IH [of "pb_add api i x m"] by blast
  then show ?case by (intro exI [of _ p]) (simp add: pb_laws_rules(5) [OF assms(1)])
qed

lemma to_elems_holds:
  assumes l: "pb_laws api fld" and conv: "\<And>vs m. vs \<in> set vss \<Longrightarrow> fld m = (\<lambda>_. PUnset) \<Longrightarrow> \<exists>s. conv vs m = Some s \<and> P s vs"
    and "fld m i = PUnset \<or> (\<exists>ms. fld m i = PMsgs ms)"
  shows "\<exists>m' p ss. to_elems api conv i vss m = Some m' \<and> fld m' = (fld m)(i := p) \<and>
    msgs_of p = msgs_of (fld m i) @ ss \<and> list_all2 P ss vss \<and> scalars_of p = []"
  using assms(2,3)
proof (induction vss arbitrary: m)
  case Nil
  then show ?case by (intro exI [of _ m] exI [of _ "fld m i"]) auto
next
  case (Cons vs vss)
  obtain s where s: "conv vs (pb_new_msg api i m) = Some s" "P s vs"
    using Cons.prems(1) [of vs "pb_new_msg api i m"] by (auto simp: pb_laws_rules(11) [OF l])
  let ?m = "pb_add_msg api i s m"
  have m: "\<exists>ms. fld ?m i = PMsgs ms" by (simp add: pb_laws_rules(12) [OF l])
  have c: "\<And>vs m. vs \<in> set vss \<Longrightarrow> fld m = (\<lambda>_. PUnset) \<Longrightarrow> \<exists>s. conv vs m = Some s \<and> P s vs" using Cons.prems(1) by simp
  obtain m' p ss where m': "to_elems api conv i vss ?m = Some m'" "fld m' = (fld ?m)(i := p)"
      "msgs_of p = msgs_of (fld ?m i) @ ss" "list_all2 P ss vss" "scalars_of p = []"
    using Cons.IH [OF c disjI2 [OF m]] by blast
  then show ?case using s by (intro exI [of _ m'] exI [of _ p] exI [of _ "s # ss"]) (auto simp: pb_laws_rules(12) [OF l])
qed

text \<open>Converting a field into an unset one stores it there and leaves the other fields alone.\<close>

definition converts :: "'m pb_api \<Rightarrow> ('m \<Rightarrow> nat \<Rightarrow> 'm pb_value) \<Rightarrow> gfield \<Rightarrow> bool" where
  "converts api fld f \<longleftrightarrow> (\<forall>v m i. wt_field f v \<longrightarrow> fld m i = PUnset \<longrightarrow>
     (\<exists>m' p. to_field api i f v m = Some m' \<and> fld m' = (fld m)(i := p) \<and> holds_field fld f p v))"

lemma holds_fields_cong:
  "(\<And>j. i \<le> j \<Longrightarrow> fld m j = fld m' j) \<Longrightarrow> holds_fields fld i fs m vs = holds_fields fld i fs m' vs"
proof (induction fs arbitrary: i vs)
  case (Cons f fs)
  then show ?case by (cases vs) auto
next
  case Nil
  then show ?case by (cases vs) simp_all
qed

lemma to_fields_from:
  assumes "\<And>f. f \<in> set fs \<Longrightarrow> converts api fld f" "wt_fields fs vs" "\<And>j. i \<le> j \<Longrightarrow> fld m j = PUnset"
  shows "\<exists>m'. to_fields api i fs vs m = Some m' \<and> holds_fields fld i fs m' vs \<and> (\<forall>j < i. fld m' j = fld m j)"
  using assms
proof (induction fs arbitrary: i vs m)
  case (Cons f fs)
  then obtain v vs' where vs: "vs = v # vs'" "wt_field f v" "wt_fields fs vs'" by (cases vs) auto
  obtain m1 p where m1: "to_field api i f v m = Some m1" "fld m1 = (fld m)(i := p)" "holds_field fld f p v"
    using Cons.prems(1) [of f] Cons.prems(3) [of i] vs(2) unfolding converts_def by (meson le_refl list.set_intros(1))
  have "\<exists>m'. to_fields api (i + 1) fs vs' m1 = Some m' \<and> holds_fields fld (i + 1) fs m' vs' \<and> (\<forall>j < i + 1. fld m' j = fld m1 j)"
    by (rule Cons.IH) (use Cons.prems vs m1(2) in auto)
  then show ?case using vs m1 by auto
next
  case Nil
  then show ?case by (cases vs) simp_all
qed

lemma to_field_converts:
  assumes "pb_laws api fld"
  shows "converts api fld f"
proof (induction f)
  case (GScalar s)
  show ?case using pb_laws_rules(1) [OF assms] by (auto simp: converts_def elim!: wt_field.elims)
next
  case (GString mx)
  show ?case using pb_laws_rules(3) [OF assms] by (auto simp: converts_def elim!: wt_field.elims)
next
  case (GScalarVec s mx)
  show ?case unfolding converts_def
  proof (intro allI impI)
    fix v and m and i assume "wt_field (GScalarVec s mx) v" and u: "fld m i = PUnset"
    then obtain xs n where v: "v = VScalarVec xs n" by (cases v) auto
    show "\<exists>m' p. to_field api i (GScalarVec s mx) v m = Some m' \<and> fld m' = (fld m)(i := p) \<and> holds_field fld (GScalarVec s mx) p v"
      using fold_pb_add [OF assms, of m i "take n xs"] u v by auto
  qed
next
  case (GStruct fs)
  show ?case unfolding converts_def
  proof (intro allI impI)
    fix v and m and i assume "wt_field (GStruct fs) v" and u: "fld m i = PUnset"
    then obtain vs where v: "v = VStruct vs" "wt_fields fs vs" by (cases v) auto
    obtain s where "to_fields api 0 fs vs (pb_msg api i m) = Some s" "holds_fields fld 0 fs s vs"
      using to_fields_from [of fs api fld vs 0 "pb_msg api i m"] GStruct v(2) pb_laws_rules(9) [OF assms u] by auto
    then show "\<exists>m' p. to_field api i (GStruct fs) v m = Some m' \<and> fld m' = (fld m)(i := p) \<and> holds_field fld (GStruct fs) p v"
      using v(1) pb_laws_rules(10) [OF assms] by auto
  qed
next
  case (GStructVec fs mx)
  show ?case unfolding converts_def
  proof (intro allI impI)
    fix v and m and i assume "wt_field (GStructVec fs mx) v" and u: "fld m i = PUnset"
    then obtain vss n where v: "v = VStructVec vss n" "list_all (wt_fields fs) vss" by (cases v) auto
    have "\<exists>s. to_fields api 0 fs vs m0 = Some s \<and> holds_fields fld 0 fs s vs"
      if "vs \<in> set (take n vss)" "fld m0 = (\<lambda>_. PUnset)" for vs m0
      using to_fields_from [of fs api fld vs 0 m0] GStructVec v(2) that by (auto simp: list_all_iff dest: in_set_takeD)
    then show "\<exists>m' p. to_field api i (GStructVec fs mx) v m = Some m' \<and> fld m' = (fld m)(i := p) \<and> holds_field fld (GStructVec fs mx) p v"
      using to_elems_holds [OF assms, of "take n vss" "to_fields api 0 fs" "\<lambda>s vs. holds_fields fld 0 fs s vs" m i] u v(1) by auto
  qed
qed

section \<open>A message read back\<close>

text \<open>The live bytes of strings are not 0: \<open>strncpy\<close> stops at a NUL byte.\<close>

primrec no_nul :: "gval \<Rightarrow> bool" where
  "no_nul (VScalar x) = True"
| "no_nul (VString bs n) = (0 \<notin> set (take n bs))"
| "no_nul (VScalarVec xs n) = True"
| "no_nul (VStruct vs) = list_all id (map no_nul vs)"
| "no_nul (VStructVec vss n) = list_all (list_all id) (take n (map (map no_nul) vss))"

definition restores :: "'m pb_api \<Rightarrow> ('m \<Rightarrow> nat \<Rightarrow> 'm pb_value) \<Rightarrow> gfield \<Rightarrow> bool" where
  "restores api fld f \<longleftrightarrow> (\<forall>v u m i. wt_field f v \<longrightarrow> wt_field f u \<longrightarrow> no_nul v \<longrightarrow> holds_field fld f (fld m i) v \<longrightarrow>
     (\<exists>u'. from_field api i f m u = (True, u') \<and> wt_field f u' \<and> live u' = live v))"

lemma restoresD:
  "restores api fld f \<Longrightarrow> wt_field f v \<Longrightarrow> wt_field f u \<Longrightarrow> no_nul v \<Longrightarrow> holds_field fld f (fld m i) v \<Longrightarrow>
    \<exists>u'. from_field api i f m u = (True, u') \<and> wt_field f u' \<and> live u' = live v"
  unfolding restores_def by blast

lemma from_fields_back:
  assumes "\<And>f. f \<in> set fs \<Longrightarrow> restores api fld f" "wt_fields fs vs" "wt_fields fs us" "list_all no_nul vs"
    and "holds_fields fld i fs m vs"
  shows "\<exists>us'. from_fields api i fs m us = (True, us') \<and> wt_fields fs us' \<and> map live us' = map live vs"
  using assms
proof (induction fs arbitrary: i vs us)
  case (Cons f fs)
  then obtain v vs' u us1 where vs: "vs = v # vs'" "us = u # us1" "wt_field f v" "wt_fields fs vs'" "wt_field f u" "wt_fields fs us1"
    by (cases vs; cases us) auto
  obtain u' where u': "from_field api i f m u = (True, u')" "wt_field f u'" "live u' = live v"
    using restoresD [OF Cons.prems(1) vs(3,5), of m i] Cons.prems(4,5) vs(1) by auto
  obtain us' where "from_fields api (i + 1) fs m us1 = (True, us')" "wt_fields fs us'" "map live us' = map live vs'"
    using Cons.IH [of vs' us1 "i + 1"] Cons.prems vs by auto
  then show ?case using vs u' by simp
next
  case Nil
  then show ?case by (cases vs; cases us) simp_all
qed

lemma from_elems_back:
  assumes "\<And>vs us s. vs \<in> set vss \<Longrightarrow> Q us \<Longrightarrow> P s vs \<Longrightarrow> \<exists>us'. conv us s = (True, us') \<and> Q us' \<and> map live us' = map live vs"
    and "list_all2 P ss vss" "length vss \<le> length uss" "list_all Q uss"
  shows "\<exists>uss'. from_elems conv ss uss = (True, uss') \<and> length uss' = length uss \<and> list_all Q uss' \<and>
    map (map live) (take (length vss) uss') = map (map live) vss"
  using assms
proof (induction vss arbitrary: ss uss)
  case Nil
  then show ?case by (cases uss) auto
next
  case (Cons vs vss)
  obtain s ss1 us uss1 where x: "ss = s # ss1" "uss = us # uss1" "P s vs" "list_all2 P ss1 vss" "Q us" "list_all Q uss1" "length vss \<le> length uss1"
    using Cons.prems(2-4) by (cases uss) (auto simp: list_all2_Cons2)
  obtain us' where us': "conv us s = (True, us')" "Q us'" "map live us' = map live vs" using Cons.prems(1) [of vs us s] x by auto
  have "\<exists>uss'. from_elems conv ss1 uss1 = (True, uss') \<and> length uss' = length uss1 \<and> list_all Q uss' \<and>
      map (map live) (take (length vss) uss') = map (map live) vss"
    by (rule Cons.IH) (use Cons.prems(1) x in auto)
  then show ?case using x us' by auto
qed

lemma from_field_restores:
  assumes l: "pb_laws api fld" and "max_ok f"
  shows "restores api fld f"
  using assms(2)
proof (induction f)
  case (GScalar s)
  show ?case using pb_laws_rules(2) [OF l] by (auto simp: restores_def elim!: wt_field.elims)
next
  case (GString mx)
  show ?case unfolding restores_def
  proof (intro allI impI)
    fix v u m i assume a: "wt_field (GString mx) v" "wt_field (GString mx) u" "no_nul v" "holds_field fld (GString mx) (fld m i) v"
    obtain bs n bs0 n0 where v: "v = VString bs n" "u = VString bs0 n0" "length bs = mx + 1" "n \<le> mx" "length bs0 = mx + 1"
      using a(1,2) by (cases v; cases u) auto
    let ?b = "take n bs"
    have b: "pb_bytes api i m = ?b" "length ?b = n" "0 \<notin> set ?b"
      using a v pb_laws_rules(4) [OF l] by auto
    have "u32 n = n" using GString v(4) by (simp add: u32_def)
    then have "from_field api i (GString mx) m u = (True, VString ((strncpy bs0 (?b @ [0]) (length ?b))[n := 48]) n)"
      using v b by (simp add: set_string_len_def)
    moreover have "(strncpy bs0 (?b @ [0]) (length ?b))[n := 48] = (?b @ drop n bs0)[n := 48]"
      using strncpy_short [OF b(3), of bs0 "[]"] b(2) by simp
    ultimately show "\<exists>u'. from_field api i (GString mx) m u = (True, u') \<and> wt_field (GString mx) u' \<and> live u' = live v"
      using v b by simp
  qed
next
  case (GScalarVec s mx)
  show ?case unfolding restores_def
  proof (intro allI impI)
    fix v u m i assume a: "wt_field (GScalarVec s mx) v" "wt_field (GScalarVec s mx) u" "holds_field fld (GScalarVec s mx) (fld m i) v"
    obtain xs n xs0 n0 where v: "v = VScalarVec xs n" "u = VScalarVec xs0 n0" "length xs = mx" "n \<le> mx" "length xs0 = mx"
        "list_all (\<lambda>x. x < 256 ^ width s) xs" "list_all (\<lambda>x. x < 256 ^ width s) xs0"
      using a(1,2) by (cases v; cases u) auto
    have h: "scalars_of (fld m i) = take n xs" "msgs_of (fld m i) = []" using a(3) v(1) by simp_all
    have k: "u32 (pb_size api i m) = n" using h v(3,4) GScalarVec by (simp add: pb_laws_rules(7) [OF l] u32_def)
    have e: "map (\<lambda>idx. pb_elem api i idx m mod 256 ^ width s) [0..<n] = take n xs"
    proof (rule nth_equalityI)
      fix k assume "k < length (map (\<lambda>idx. pb_elem api i idx m mod 256 ^ width s) [0..<n])"
      then have k: "k < n" "k < length (scalars_of (fld m i))" "xs ! k < 256 ^ width s"
        using h v(3,4,6) by (simp_all add: list_all_length)
      then show "map (\<lambda>idx. pb_elem api i idx m mod 256 ^ width s) [0..<n] ! k = take n xs ! k"
        using pb_laws_rules(6) [OF l k(2)] h(1) by simp
    qed (use v(3,4) in simp)
    show "\<exists>u'. from_field api i (GScalarVec s mx) m u = (True, u') \<and> wt_field (GScalarVec s mx) u' \<and> live u' = live v"
      using v e k by (auto simp: Let_def list_all_iff dest: in_set_takeD in_set_dropD)
  qed
next
  case (GStruct fs)
  show ?case unfolding restores_def
  proof (intro allI impI)
    fix v u m i assume a: "wt_field (GStruct fs) v" "wt_field (GStruct fs) u" "no_nul v" "holds_field fld (GStruct fs) (fld m i) v"
    obtain vs us where v: "v = VStruct vs" "u = VStruct us" "wt_fields fs vs" "wt_fields fs us" using a(1,2) by (cases v; cases u) auto
    obtain s where s: "fld m i = PMsg s" "holds_fields fld 0 fs s vs" using a(4) v(1) by auto
    obtain us' where "from_fields api 0 fs s us = (True, us')" "wt_fields fs us'" "map live us' = map live vs"
      using from_fields_back [of fs api fld vs us 0 s] GStruct v s a(3) by (auto simp: list_all_iff)
    then show "\<exists>u'. from_field api i (GStruct fs) m u = (True, u') \<and> wt_field (GStruct fs) u' \<and> live u' = live v"
      using v s pb_laws_rules(8) [OF l] by auto
  qed
next
  case (GStructVec fs mx)
  show ?case unfolding restores_def
  proof (intro allI impI)
    fix v u m i assume a: "wt_field (GStructVec fs mx) v" "wt_field (GStructVec fs mx) u" "no_nul v" "holds_field fld (GStructVec fs mx) (fld m i) v"
    obtain vss n uss n0 where v: "v = VStructVec vss n" "u = VStructVec uss n0" "length vss = mx" "n \<le> mx" "length uss = mx"
        "list_all (wt_fields fs) vss" "list_all (wt_fields fs) uss"
      using a(1,2) by (cases v; cases u) auto
    let ?ss = "msgs_of (fld m i)"
    have h: "list_all2 (\<lambda>s vs. holds_fields fld 0 fs s vs) ?ss (take n vss)" "scalars_of (fld m i) = []" using a(4) v(1) by simp_all
    have len: "length ?ss = n" using list_all2_lengthD [OF h(1)] v(3,4) by simp
    have k: "u32 (pb_size api i m) = n" using h len v(4) GStructVec.prems by (simp add: pb_laws_rules(7) [OF l] u32_def)
    have e: "map (\<lambda>idx. pb_elem_msg api i idx m) [0..<n] = ?ss"
      using len by (intro nth_equalityI) (simp_all add: pb_laws_rules(13) [OF l])
    have "\<exists>us'. from_fields api 0 fs s us = (True, us') \<and> wt_fields fs us' \<and> map live us' = map live vs"
      if "vs \<in> set (take n vss)" "wt_fields fs us" "holds_fields fld 0 fs s vs" for vs us s
      by (rule from_fields_back) (use GStructVec that a(3) v in \<open>auto simp: list_all_iff take_map dest: in_set_takeD\<close>)
    then obtain uss' where u': "from_elems (\<lambda>vs s. from_fields api 0 fs s vs) ?ss uss = (True, uss')" "length uss' = length uss"
        "list_all (wt_fields fs) uss'" "map (map live) (take (length (take n vss)) uss') = map (map live) (take n vss)"
      using from_elems_back [of "take n vss" "wt_fields fs" "\<lambda>s vs. holds_fields fld 0 fs s vs" "\<lambda>vs s. from_fields api 0 fs s vs" ?ss uss] h(1) v
      by auto
    then show "\<exists>u'. from_field api i (GStructVec fs mx) m u = (True, u') \<and> wt_field (GStructVec fs mx) u' \<and> live u' = live v"
      using v k e by (simp add: Let_def take_map)
  qed
qed

section \<open>Protobuf messages as association lists\<close>

text \<open>An implementation of the accessors that keeps the promises.\<close>

datatype plain_msg = Plain "(nat \<times> plain_msg pb_value) list"

fun plain_field :: "plain_msg \<Rightarrow> nat \<Rightarrow> plain_msg pb_value" where
  "plain_field (Plain xs) i = (case map_of xs i of None \<Rightarrow> PUnset | Some p \<Rightarrow> p)"

fun plain_set :: "nat \<Rightarrow> plain_msg pb_value \<Rightarrow> plain_msg \<Rightarrow> plain_msg" where
  "plain_set i p (Plain xs) = Plain ((i, p) # xs)"

definition plain_api :: "plain_msg pb_api" where
  "plain_api =
     \<lparr>pb_set = (\<lambda>i x. plain_set i (PScalar x)),
      pb_get = (\<lambda>i m. case plain_field m i of PScalar x \<Rightarrow> x | _ \<Rightarrow> 0),
      pb_set_bytes = (\<lambda>i b. plain_set i (PBytes b)),
      pb_bytes = (\<lambda>i m. case plain_field m i of PBytes b \<Rightarrow> b | _ \<Rightarrow> []),
      pb_add = (\<lambda>i x m. plain_set i (PScalars (scalars_of (plain_field m i) @ [x])) m),
      pb_elem = (\<lambda>i k m. scalars_of (plain_field m i) ! k),
      pb_size = (\<lambda>i m. length (scalars_of (plain_field m i)) + length (msgs_of (plain_field m i))),
      pb_msg = (\<lambda>i m. case plain_field m i of PMsg s \<Rightarrow> s | _ \<Rightarrow> Plain []),
      pb_put_msg = (\<lambda>i s. plain_set i (PMsg s)),
      pb_new_msg = (\<lambda>i m. Plain []),
      pb_add_msg = (\<lambda>i s m. plain_set i (PMsgs (msgs_of (plain_field m i) @ [s])) m),
      pb_elem_msg = (\<lambda>i k m. msgs_of (plain_field m i) ! k)\<rparr>"

lemma plain_field_set: "plain_field (plain_set i p m) = (plain_field m)(i := p)"
  by (cases m) auto

lemma plain_laws: "pb_laws plain_api plain_field"
  unfolding pb_laws_def plain_api_def by (auto simp: plain_field_set)

section \<open>Theorems\<close>

text \<open>C11: Round trip: a well-typed structure whose strings hold no NUL byte, converted into an empty message, is read back by
  \<open>FromProtobuf\<close> into any object of the structure, which stays well-typed and has the live fields of the original.\<close>

theorem FromProtobuf_ToProtobuf:
  assumes "pb_laws api fld" "wt_fields fs vs" "list_all no_nul vs" "list_all max_ok fs" "wt_fields fs us" "fld target = (\<lambda>_. PUnset)"
  shows "\<exists>m us'. ToProtobuf api fs vs (Some target) = Some m \<and> FromProtobuf api fs m us = (True, us') \<and>
    wt_fields fs us' \<and> map live us' = map live vs"
proof -
  obtain m where m: "to_fields api 0 fs vs target = Some m" "holds_fields fld 0 fs m vs"
    using to_fields_from [of fs api fld vs 0 target] to_field_converts [OF assms(1)] assms(2,6) by auto
  have "restores api fld f" if "f \<in> set fs" for f
    using from_field_restores [OF assms(1)] assms(4) that by (simp add: list_all_iff)
  then show ?thesis
    using from_fields_back [OF _ assms(2,5,3) m(2)] m(1) by (auto simp: ToProtobuf_def FromProtobuf_def)
qed

theorem FromProtobuf_ToProtobuf_witness:
  "\<exists>m us'. ToProtobuf plain_api [GScalar S32, GString 2, GStructVec [GScalar S64] 2]
       [VScalar 7, VString [65, 66, 48] 2, VStructVec [[VScalar 1], [VScalar 2]] 2] (Some (Plain [])) = Some m \<and>
     FromProtobuf plain_api [GScalar S32, GString 2, GStructVec [GScalar S64] 2] m
       [VScalar 0, VString [0, 0, 0] 0, VStructVec [[VScalar 0], [VScalar 0]] 0] = (True, us') \<and>
     map live us' = [AInt 7, ABytes [65, 66], AMsgs [[AInt 1], [AInt 2]]]"
proof -
  let ?fs = "[GScalar S32, GString 2, GStructVec [GScalar S64] 2]"
  let ?vs = "[VScalar 7, VString [65, 66, 48] 2, VStructVec [[VScalar 1], [VScalar 2]] 2]"
  let ?us = "[VScalar 0, VString [0, 0, 0] 0, VStructVec [[VScalar 0], [VScalar 0]] 0]"
  have "wt_fields ?fs ?vs" "list_all no_nul ?vs" "list_all max_ok ?fs" "wt_fields ?fs ?us" by simp_all
  from FromProtobuf_ToProtobuf [OF plain_laws this, of "Plain []"] show ?thesis by (auto simp: fun_eq_iff)
qed

section \<open>Refused messages\<close>

fun accepts_field :: "'m pb_api \<Rightarrow> nat \<Rightarrow> gfield \<Rightarrow> 'm \<Rightarrow> bool"
and accepts_fields :: "'m pb_api \<Rightarrow> nat \<Rightarrow> gfield list \<Rightarrow> 'm \<Rightarrow> bool" where
  "accepts_field api i (GScalar s) m = True"
| "accepts_field api i (GString mx) m = True"
| "accepts_field api i (GScalarVec s mx) m = (u32 (pb_size api i m) \<le> mx)"
| "accepts_field api i (GStruct fs) m = accepts_fields api 0 fs (pb_msg api i m)"
| "accepts_field api i (GStructVec fs mx) m =
     (u32 (pb_size api i m) \<le> mx \<and>
      list_all (accepts_fields api 0 fs) (map (\<lambda>idx. pb_elem_msg api i idx m) [0..<u32 (pb_size api i m)]))"
| "accepts_fields api i (f # fs) m = (accepts_field api i f m \<and> accepts_fields api (i + 1) fs m)"
| "accepts_fields api i [] m = True"

definition checked :: "'m pb_api \<Rightarrow> gfield \<Rightarrow> bool" where
  "checked api f \<longleftrightarrow> (\<forall>u m i. wt_field f u \<longrightarrow>
     fst (from_field api i f m u) = accepts_field api i f m \<and> wt_field f (snd (from_field api i f m u)))"

lemma from_fields_checked:
  assumes "\<And>f. f \<in> set fs \<Longrightarrow> checked api f" "wt_fields fs us"
  shows "fst (from_fields api i fs m us) = accepts_fields api i fs m \<and> wt_fields fs (snd (from_fields api i fs m us))"
  using assms
proof (induction fs arbitrary: i us)
  case (Cons f fs)
  then obtain u us' where us: "us = u # us'" "wt_field f u" "wt_fields fs us'" by (cases us) auto
  obtain ok u' where u': "from_field api i f m u = (ok, u')" by (cases "from_field api i f m u")
  have h: "ok = accepts_field api i f m" "wt_field f u'" using Cons.prems(1) [of f] us(2) u' unfolding checked_def by (metis fst_conv list.set_intros(1) snd_conv)+
  have "fst (from_fields api (i + 1) fs m us') = accepts_fields api (i + 1) fs m \<and> wt_fields fs (snd (from_fields api (i + 1) fs m us'))"
    by (rule Cons.IH) (use Cons.prems us in auto)
  then show ?case using us u' h by (cases ok) (auto split: prod.splits)
next
  case Nil
  then show ?case by (cases us) simp_all
qed

lemma from_elems_checked:
  assumes "\<And>us s. Q us \<Longrightarrow> fst (conv us s) = A s \<and> Q (snd (conv us s))" "length ss \<le> length uss" "list_all Q uss"
  shows "fst (from_elems conv ss uss) = list_all A ss \<and> list_all Q (snd (from_elems conv ss uss)) \<and>
    length (snd (from_elems conv ss uss)) = length uss"
  using assms(2,3)
proof (induction ss arbitrary: uss)
  case (Cons s ss)
  then obtain us uss' where u: "uss = us # uss'" "Q us" "list_all Q uss'" "length ss \<le> length uss'" by (cases uss) auto
  obtain ok us' where "conv us s = (ok, us')" by (cases "conv us s")
  then show ?case using assms(1) [OF u(2), of s] Cons.IH [OF u(4,3)] u by (cases ok) (auto split: prod.splits)
qed (cases uss; simp)

lemma from_field_checked: "checked api f"
proof (induction f)
  case (GString mx)
  have "length (strncpy dst src n) = length dst" if "n \<le> length dst" for dst src :: "byte list" and n
  proof -
    have "length (takeWhile (\<lambda>b. b \<noteq> 0) (take n src)) \<le> n" by (rule order.trans [OF length_takeWhile_le]) simp
    then show ?thesis using that by (simp add: strncpy_def Let_def)
  qed
  then show ?case unfolding checked_def by (auto simp: set_string_len_def elim!: wt_field.elims)
next
  case (GStruct fs)
  show ?case unfolding checked_def
  proof (intro allI impI)
    fix u m i assume "wt_field (GStruct fs) u"
    then obtain us where u: "u = VStruct us" "wt_fields fs us" by (cases u) auto
    show "fst (from_field api i (GStruct fs) m u) = accepts_field api i (GStruct fs) m \<and> wt_field (GStruct fs) (snd (from_field api i (GStruct fs) m u))"
      using from_fields_checked [OF GStruct u(2), of 0 "pb_msg api i m"] u(1) by (auto split: prod.splits)
  qed
next
  case (GStructVec fs mx)
  show ?case unfolding checked_def
  proof (intro allI impI)
    fix u m i assume "wt_field (GStructVec fs mx) u"
    then obtain uss n where u: "u = VStructVec uss n" "length uss = mx" "n \<le> mx" "list_all (wt_fields fs) uss" by (cases u) auto
    let ?k = "u32 (pb_size api i m)"
    let ?ss = "map (\<lambda>idx. pb_elem_msg api i idx m) [0..<?k]"
    show "fst (from_field api i (GStructVec fs mx) m u) = accepts_field api i (GStructVec fs mx) m \<and>
        wt_field (GStructVec fs mx) (snd (from_field api i (GStructVec fs mx) m u))"
    proof (cases "?k > mx")
      case False
      then have "length ?ss \<le> length uss" using u(2) by simp
      note el = from_elems_checked [of "wt_fields fs" "\<lambda>vs s. from_fields api 0 fs s vs", OF from_fields_checked [OF GStructVec] this u(4)]
      then show ?thesis using u False by (auto simp: Let_def split: prod.splits)
    qed (use u in \<open>simp add: Let_def\<close>)
  qed
next
  case (GScalarVec s mx)
  show ?case unfolding checked_def
  proof (intro allI impI)
    fix u m i assume "wt_field (GScalarVec s mx) u"
    then obtain xs n where u: "u = VScalarVec xs n" "length xs = mx" "n \<le> mx" "list_all (\<lambda>x. x < 256 ^ width s) xs" by (cases u) auto
    then have "list_all (\<lambda>x. x < 256 ^ width s) (drop k xs)" for k using set_drop_subset [of k xs] by (auto simp: list_all_iff)
    then show "fst (from_field api i (GScalarVec s mx) m u) = accepts_field api i (GScalarVec s mx) m \<and>
        wt_field (GScalarVec s mx) (snd (from_field api i (GScalarVec s mx) m u))"
      using u by (cases "u32 (pb_size api i m) > mx") (auto simp: Let_def list_all_iff)
  qed
qed (auto simp: checked_def elim!: wt_field.elims)

lemma long_string_kept:
  assumes "k < length fs" "fs ! k = GString mx" "wt_fields fs us" "mx < length (pb_bytes api (i + k) m)" "length (pb_bytes api (i + k) m) < 2 ^ 32"
  shows "snd (from_fields api i fs m us) ! k = us ! k"
  using assms
proof (induction fs arbitrary: i us k)
  case (Cons f fs)
  then obtain u us' where us: "us = u # us'" "wt_field f u" "wt_fields fs us'" by (cases us) auto
  show ?case
  proof (cases k)
    case 0
    then have "from_field api i f m u = (True, u)"
      using Cons.prems us(2) by (auto simp: set_string_len_def u32_def elim!: wt_field.elims)
    then show ?thesis using us 0 by (auto split: prod.splits)
  next
    case (Suc j)
    then have "snd (from_fields api (i + 1) fs m us') ! j = us' ! j" using Cons.IH [of j us' "i + 1"] Cons.prems us by simp
    then show ?thesis using us Suc by (auto split: prod.splits bool.splits)
  qed
qed simp

text \<open>C31: \<open>FromProtobuf\<close> returns \<open>false\<close> exactly when a repeated field, at any depth, has more elements than the structure holds.
  In any case the structure stays well-typed. A string longer than its maximum is no reason to refuse: the member silently
  keeps its old value.\<close>

theorem FromProtobuf_spec:
  assumes "wt_fields fs us"
  shows "fst (FromProtobuf api fs m us) = accepts_fields api 0 fs m \<and> wt_fields fs (snd (FromProtobuf api fs m us)) \<and>
    (\<forall>k mx. k < length fs \<longrightarrow> fs ! k = GString mx \<longrightarrow> mx < length (pb_bytes api k m) \<longrightarrow> length (pb_bytes api k m) < 2 ^ 32 \<longrightarrow>
       snd (FromProtobuf api fs m us) ! k = us ! k)"
  using from_fields_checked [OF from_field_checked assms, of api 0 m] long_string_kept [OF _ _ assms, of _ _ api 0 m]
  by (auto simp: FromProtobuf_def)

theorem FromProtobuf_spec_witness:
  "FromProtobuf plain_api [GString 1] (Plain [(0, PBytes [65, 66])]) [VString [88, 48] 1] = (True, [VString [88, 48] 1]) \<and>
   \<not> fst (FromProtobuf plain_api [GScalarVec S32 1] (Plain [(0, PScalars [1, 2])]) [VScalarVec [0] 0])"
proof -
  have w: "wt_fields [GString 1] [VString [88, 48] 1]" "wt_fields [GScalarVec S32 1] [VScalarVec [0] 0]" by simp_all
  have a: "accepts_fields plain_api 0 [GString 1] (Plain [(0, PBytes [65, 66])])"
    "\<not> accepts_fields plain_api 0 [GScalarVec S32 1] (Plain [(0, PScalars [1, 2])])" by (simp_all add: plain_api_def u32_def)
  have b: "pb_bytes plain_api 0 (Plain [(0, PBytes [65, 66])]) = [65, 66]" by (simp add: plain_api_def)
  obtain ok us where r: "FromProtobuf plain_api [GString 1] (Plain [(0, PBytes [65, 66])]) [VString [88, 48] 1] = (ok, us)"
    by (cases "FromProtobuf plain_api [GString 1] (Plain [(0, PBytes [65, 66])]) [VString [88, 48] 1]")
  have "ok" "wt_fields [GString 1] us" "us ! 0 = VString [88, 48] 1"
    using FromProtobuf_spec [OF w(1), of plain_api "Plain [(0, PBytes [65, 66])]"] a(1) r by (auto simp: b)
  moreover obtain u where "us = [u]" using \<open>wt_fields [GString 1] us\<close> by (cases us; cases "tl us") auto
  ultimately show ?thesis using FromProtobuf_spec [OF w(2), of plain_api "Plain [(0, PScalars [1, 2])]"] a(2) r by simp
qed

end
