(* ===== verification/Py_Regex.thy ===== *)
theory Py_Regex
  imports Py_String
begin

text \<open>
  Python's regular expressions as the linter uses them: a syntax tree per pattern, a
  backtracking matcher that lists the matches at a position in the order in which the engine
  tries them, and \<open>match\<close>, \<open>search\<close> and \<open>sub\<close> on top of it. A state is the position in the
  subject with the groups captured so far. A repetition stops when its body matches the empty
  string, as the engine's does. Shown: every match ends at or after its
  start and inside the subject, which gives the termination of the loops that cut matches
  off a line.
\<close>

section \<open>Patterns\<close>

datatype re =
    RChr "char \<Rightarrow> bool"
  | REps
  | RSeq re re
  | RAlt re re
  | RStar bool re
  | RGroup nat re
  | RBol
  | REol
  | RWordB
  | RLook bool re
  | RBackref nat

type_synonym groups = "nat \<Rightarrow> (nat \<times> nat) option"
type_synonym mstate = "nat \<times> groups"

text \<open>A word character stands at position \<open>i\<close>; \<open>\b\<close> tests that exactly one side has one.\<close>

definition word_at :: "string \<Rightarrow> nat \<Rightarrow> bool" where
  "word_at s i \<longleftrightarrow> i < length s \<and> is_word (s ! i)"

definition word_boundary :: "string \<Rightarrow> nat \<Rightarrow> bool" where
  "word_boundary s i \<longleftrightarrow> (0 < i \<and> word_at s (i - 1)) \<noteq> word_at s i"

function (sequential) mt :: "re \<Rightarrow> string \<Rightarrow> nat \<Rightarrow> groups \<Rightarrow> mstate list" where
  "mt (RChr P) s i g = (if i < length s \<and> P (s ! i) then [(i + 1, g)] else [])"
| "mt REps s i g = [(i, g)]"
| "mt (RSeq r q) s i g = concat (map (\<lambda>(j, h). mt q s j h) (mt r s i g))"
| "mt (RAlt r q) s i g = mt r s i g @ mt q s i g"
| "mt (RStar greedy r) s i g =
     (let more = concat (map (\<lambda>(j, h). if i < j \<and> j \<le> length s then mt (RStar greedy r) s j h else [])
                          (mt r s i g))
      in if greedy then more @ [(i, g)] else (i, g) # more)"
| "mt (RGroup n r) s i g = map (\<lambda>(j, h). (j, h(n \<mapsto> (i, j)))) (mt r s i g)"
| "mt RBol s i g = (if i = 0 then [(i, g)] else [])"
| "mt REol s i g = (if i = length s \<or> (i + 1 = length s \<and> s ! i = newline) then [(i, g)] else [])"
| "mt RWordB s i g = (if word_boundary s i then [(i, g)] else [])"
| "mt (RLook positive r) s i g =
     (case mt r s i g of [] \<Rightarrow> if positive then [] else [(i, g)]
                       | (j, h) # _ \<Rightarrow> if positive then [(i, h)] else [])"
| "mt (RBackref n) s i g =
     (case g n of None \<Rightarrow> []
      | Some (a, b) \<Rightarrow>
          let w = take (b - a) (drop a s) in if prefix w (drop i s) then [(i + length w, g)] else [])"
  by pat_completeness auto
termination
  by (relation "measures [\<lambda>(r, s, i, g). size r, \<lambda>(r, s, i, g). length s - i]") auto

declare mt.simps(5) [simp del]

section \<open>Derived patterns\<close>

fun rseq :: "re list \<Rightarrow> re" where
  "rseq [] = REps"
| "rseq [r] = r"
| "rseq (r # rs) = RSeq r (rseq rs)"

fun ralt :: "re list \<Rightarrow> re" where
  "ralt [] = RChr (\<lambda>c. False)"
| "ralt [r] = r"
| "ralt (r # rs) = RAlt r (ralt rs)"

definition rch :: "char \<Rightarrow> re" where
  "rch c = RChr (\<lambda>d. d = c)"

definition rset :: "string \<Rightarrow> re" where
  "rset cs = RChr (\<lambda>c. c \<in> set cs)"

definition rnot :: "string \<Rightarrow> re" where
  "rnot cs = RChr (\<lambda>c. c \<notin> set cs)"

definition rlit :: "string \<Rightarrow> re" where
  "rlit cs = rseq (map rch cs)"

definition rspace :: re where
  "rspace = RChr py_isspace"

definition rany :: re where
  "rany = RChr (\<lambda>c. c \<noteq> newline)"

abbreviation rstar :: "re \<Rightarrow> re" where "rstar \<equiv> RStar True"
abbreviation rlazy :: "re \<Rightarrow> re" where "rlazy \<equiv> RStar False"

definition rplus :: "re \<Rightarrow> re" where
  "rplus r = RSeq r (rstar r)"

definition ropt :: "re \<Rightarrow> re" where
  "ropt r = RAlt r REps"

section \<open>match, search, sub\<close>

record re_match =
  m_start :: nat
  m_end :: nat
  m_groups :: groups
  m_subject :: string

definition match_at :: "re \<Rightarrow> string \<Rightarrow> nat \<Rightarrow> re_match option" where
  "match_at r s i =
     (case mt r s i Map.empty of [] \<Rightarrow> None
      | (j, g) # _ \<Rightarrow> Some \<lparr>m_start = i, m_end = j, m_groups = g, m_subject = s\<rparr>)"

definition re_Match :: "re \<Rightarrow> string \<Rightarrow> re_match option" where
  "re_Match r s = match_at r s 0"

definition search_from :: "re \<Rightarrow> string \<Rightarrow> nat \<Rightarrow> re_match option" where
  "search_from r s i =
     foldr (\<lambda>k rest. case match_at r s k of None \<Rightarrow> rest | Some m \<Rightarrow> Some m) [i ..< length s + 1] None"

definition re_Search :: "re \<Rightarrow> string \<Rightarrow> re_match option" where
  "re_Search r s = search_from r s 0"

text \<open>\<open>m.group(n)\<close>: \<open>None\<close> when the group took no part in the match.\<close>

definition substr :: "string \<Rightarrow> nat \<Rightarrow> nat \<Rightarrow> string" where
  "substr s i j = take (j - i) (drop i s)"

definition group :: "re_match \<Rightarrow> nat \<Rightarrow> string option" where
  "group m n = map_option (\<lambda>(i, j). substr (m_subject m) i j) (m_groups m n)"

definition group0 :: "re_match \<Rightarrow> nat \<Rightarrow> string" where
  "group0 m n = (case group m n of None \<Rightarrow> [] | Some t \<Rightarrow> t)"

text \<open>\<open>pattern.sub(rep, s)\<close> for a pattern that matches no empty string and a constant
  replacement.\<close>

function re_sub_from :: "re \<Rightarrow> string \<Rightarrow> string \<Rightarrow> nat \<Rightarrow> string" where
  "re_sub_from r rep s i =
     (case search_from r s i of
        None \<Rightarrow> drop i s
      | Some m \<Rightarrow>
          if m_start m < m_end m \<and> i \<le> m_start m \<and> m_end m \<le> length s
          then substr s i (m_start m) @ rep @ re_sub_from r rep s (m_end m)
          else drop i s)"
  by pat_completeness auto
termination
  by (relation "measure (\<lambda>(r, rep, s, i). length s - i)") auto

declare re_sub_from.simps [simp del]

definition re_sub :: "re \<Rightarrow> string \<Rightarrow> string \<Rightarrow> string" where
  "re_sub r rep s = re_sub_from r rep s 0"

section \<open>Facts\<close>

lemma mt_star_set:
  "(j, h) \<in> set (mt (RStar greedy r) s i g) \<longleftrightarrow>
     (j, h) = (i, g) \<or>
     (\<exists>k f. (k, f) \<in> set (mt r s i g) \<and> i < k \<and> k \<le> length s \<and> (j, h) \<in> set (mt (RStar greedy r) s k f))"
  by (subst mt.simps(5)) (auto simp: Let_def split: if_splits)

lemma mt_bounds: "(j, h) \<in> set (mt r s i g) \<Longrightarrow> i \<le> length s \<Longrightarrow> i \<le> j \<and> j \<le> length s"
proof (induction r s i g arbitrary: j h rule: mt.induct)
  case (3 r q s i g)
  then obtain k f where k: "(k, f) \<in> set (mt r s i g)" "(j, h) \<in> set (mt q s k f)" by auto
  have "i \<le> k \<and> k \<le> length s" by (rule "3.IH"(1) [OF k(1) "3.prems"(2)])
  moreover have "k \<le> j \<and> j \<le> length s"
    by (rule "3.IH"(2) [OF k(1) _ k(2)]) (use calculation in auto)
  ultimately show ?case by simp
next
  case (5 greedy r s i g)
  show ?case
  proof (cases "(j, h) = (i, g)")
    case True
    then show ?thesis using "5.prems" by simp
  next
    case False
    then obtain k f where k: "(k, f) \<in> set (mt r s i g)" "i < k" "k \<le> length s"
        "(j, h) \<in> set (mt (RStar greedy r) s k f)"
      using iffD1 [OF mt_star_set "5.prems"(1)] by blast
    have "k \<le> j \<and> j \<le> length s"
      by (rule "5.IH"(2) [OF k(1) refl _ k(4) k(3)]) (use k in simp)
    then show ?thesis using k by simp
  qed
next
  case (10 positive r s i g)
  then show ?case by (auto split: list.splits if_splits)
next
  case (11 n s i g)
  then obtain w where "j = i + length w" "prefix w (drop i s)"
    by (auto simp: Let_def simp del: length_take split: option.splits if_splits)
  then show ?case using "11.prems"(2) prefix_length_le [of w "drop i s"] by simp
qed (auto split: if_splits)

lemma match_at_bounds:
  "match_at r s i = Some m \<Longrightarrow> i \<le> length s \<Longrightarrow>
   m_start m = i \<and> i \<le> m_end m \<and> m_end m \<le> length s \<and> m_subject m = s"
  using mt_bounds [of "m_end m" "m_groups m" r s i Map.empty]
  by (auto simp: match_at_def split: list.splits)

lemma search_from_Some:
  assumes "search_from r s i = Some m"
  shows "\<exists>k \<ge> i. k \<le> length s \<and> match_at r s k = Some m"
proof -
  have "foldr (\<lambda>k rest. case match_at r s k of None \<Rightarrow> rest | Some m \<Rightarrow> Some m) ks None = Some m \<Longrightarrow>
      \<exists>k \<in> set ks. match_at r s k = Some m" for ks
    by (induction ks) (auto split: option.splits)
  from this [of "[i ..< length s + 1]"] show ?thesis using assms by (auto simp: search_from_def)
qed

lemma search_from_None:
  "search_from r s i = None \<longleftrightarrow> (\<forall>k. i \<le> k \<longrightarrow> k \<le> length s \<longrightarrow> match_at r s k = None)"
proof -
  have "foldr (\<lambda>k rest. case match_at r s k of None \<Rightarrow> rest | Some m \<Rightarrow> Some m) ks None = None \<longleftrightarrow>
      (\<forall>k \<in> set ks. match_at r s k = None)" for ks
    by (induction ks) (auto split: option.splits)
  from this [of "[i ..< length s + 1]"] show ?thesis by (auto simp: search_from_def)
qed

lemma search_from_bounds:
  "search_from r s i = Some m \<Longrightarrow>
   i \<le> m_start m \<and> m_start m \<le> m_end m \<and> m_end m \<le> length s \<and> m_subject m = s"
  using search_from_Some [of r s i m] match_at_bounds [of r s _ m] by fastforce

lemma length_substr [simp]: "i \<le> j \<Longrightarrow> j \<le> length s \<Longrightarrow> length (substr s i j) = j - i"
  by (simp add: substr_def)

lemma substr_append: "i \<le> j \<Longrightarrow> substr s 0 i @ substr s i j = substr s 0 j"
  by (simp add: substr_def) (metis add_diff_inverse_nat not_less take_add)

text \<open>Removing matches never lengthens a string, and leaves it alone when there are none.\<close>

lemma re_sub_absent: "search_from r s 0 = None \<Longrightarrow> re_sub r rep s = s"
  by (simp add: re_sub_def re_sub_from.simps)

lemma re_sub_from_shorter: "i \<le> length s \<Longrightarrow> length (re_sub_from r [] s i) \<le> length s - i"
proof (induction r "[] :: string" s i rule: re_sub_from.induct)
  case (1 r s i)
  show ?case
  proof (cases "search_from r s i")
    case None
    then show ?thesis by (simp add: re_sub_from.simps)
  next
    case (Some m)
    note b = search_from_bounds [OF Some]
    show ?thesis
    proof (cases "m_start m < m_end m")
      case True
      have "length (re_sub_from r [] s (m_end m)) \<le> length s - m_end m"
        by (rule "1.hyps" [OF Some]) (use True b in auto)
      then show ?thesis using b True by (subst re_sub_from.simps) (auto simp: Some)
    next
      case False
      then show ?thesis by (subst re_sub_from.simps) (simp add: Some)
    qed
  qed
qed

lemma re_sub_shorter: "length (re_sub r [] s) \<le> length s"
  using re_sub_from_shorter [of 0 s r] by (simp add: re_sub_def)

section \<open>Matching literals and character runs\<close>

text \<open>How far a run of characters in \<open>P\<close> goes from position \<open>i\<close>.\<close>

definition run_end :: "(char \<Rightarrow> bool) \<Rightarrow> string \<Rightarrow> nat \<Rightarrow> nat" where
  "run_end P s i = i + length (takeWhile P (drop i s))"

lemma run_end_step: "i < length s \<Longrightarrow> P (s ! i) \<Longrightarrow> run_end P s i = run_end P s (i + 1)"
  by (simp add: run_end_def Cons_nth_drop_Suc [symmetric])

lemma run_end_stop: "\<not> (i < length s \<and> P (s ! i)) \<Longrightarrow> run_end P s i = i"
  by (cases "i < length s") (auto simp: run_end_def Cons_nth_drop_Suc [symmetric])

lemma run_end_ge: "i \<le> run_end P s i"
  by (simp add: run_end_def)

lemma run_end_le: "i \<le> length s \<Longrightarrow> run_end P s i \<le> length s"
  using length_takeWhile_le [of P "drop i s"] by (simp add: run_end_def)

lemma mt_rlit: "mt (rlit cs) s i g = (if prefix cs (drop i s) then [(i + length cs, g)] else [])"
proof (induction cs arbitrary: i)
  case Nil
  then show ?case by (simp add: rlit_def)
next
  case (Cons c cs)
  have step: "mt (rlit (c # cs)) s i g =
      (if i < length s \<and> s ! i = c then mt (rlit cs) s (i + 1) g else [])"
    by (cases cs) (auto simp: rlit_def rch_def)
  have "prefix (c # cs) (drop i s) \<longleftrightarrow> i < length s \<and> s ! i = c \<and> prefix cs (drop (i + 1) s)"
    by (cases "i < length s") (auto simp: Cons_nth_drop_Suc [symmetric])
  then show ?case unfolding step Cons.IH by simp
qed

text \<open>A greedy repetition of a character class ends, in this order, at the end of the run and
  at each earlier position.\<close>

lemma mt_star_class:
  "mt (rstar (RChr P)) s i g = map (\<lambda>k. (k, g)) (rev [i ..< run_end P s i + 1])"
proof (induction "length s - i" arbitrary: i rule: less_induct)
  case less
  show ?case
  proof (cases "i < length s \<and> P (s ! i)")
    case True
    then have "mt (rstar (RChr P)) s i g = mt (rstar (RChr P)) s (i + 1) g @ [(i, g)]"
      by (subst mt.simps(5)) (auto simp: Let_def)
    also have "mt (rstar (RChr P)) s (i + 1) g = map (\<lambda>k. (k, g)) (rev [i + 1 ..< run_end P s (i + 1) + 1])"
      by (rule less) (use True in linarith)
    also have "\<dots> @ [(i, g)] = map (\<lambda>k. (k, g)) (rev [i ..< run_end P s i + 1])"
      using True run_end_ge [of "i + 1" P s] run_end_step [of i s P] upt_conv_Cons [of i "run_end P s i + 1"]
      by (simp del: upt_Suc)
    finally show ?thesis .
  next
    case False
    then have "mt (rstar (RChr P)) s i g = [(i, g)]" by (subst mt.simps(5)) (auto simp: Let_def)
    then show ?thesis using run_end_stop [of i s P] False by auto
  qed
qed

text \<open>What follows such a repetition is tried from the end of the run downwards; when it
  cannot start inside the run, only the end counts.\<close>

lemma concat_rev_single:
  "(\<And>k. i \<le> k \<Longrightarrow> k < e \<Longrightarrow> f k = []) \<Longrightarrow> i \<le> e \<Longrightarrow> concat (map f (rev [i ..< e + 1])) = f e"
  by simp

lemma in_run: "i \<le> k \<Longrightarrow> k < run_end P s i \<Longrightarrow> k < length s \<and> P (s ! k)"
proof -
  assume k: "i \<le> k" "k < run_end P s i"
  then have l: "k - i < length (takeWhile P (drop i s))" by (simp add: run_end_def)
  then have m: "k - i < length (drop i s)" using length_takeWhile_le [of P "drop i s"] by simp
  have "takeWhile P (drop i s) ! (k - i) = drop i s ! (k - i)" by (rule takeWhile_nth [OF l])
  moreover have "P (takeWhile P (drop i s) ! (k - i))" using l nth_mem set_takeWhileD by metis
  ultimately show "k < length s \<and> P (s ! k)" using k m by simp
qed

lemma mt_class_then:
  assumes "\<And>k. i \<le> k \<Longrightarrow> k < run_end P s i \<Longrightarrow> mt q s k g = []"
  shows "mt (RSeq (rstar (RChr P)) q) s i g = mt q s (run_end P s i) g"
  using concat_rev_single [of i "run_end P s i" "\<lambda>k. mt q s k g"] assms run_end_ge [of i P s]
  by (simp add: mt_star_class comp_def del: upt_Suc)

lemma search_first:
  assumes "i \<le> k" "k \<le> length s" "match_at r s k = Some m"
    "\<And>j. i \<le> j \<Longrightarrow> j < k \<Longrightarrow> match_at r s j = None"
  shows "search_from r s i = Some m"
proof -
  have split: "[i ..< length s + 1] = [i ..< k] @ k # [k + 1 ..< length s + 1]"
    using assms(1,2) upt_add_eq_append [of i k "length s + 1 - k"] upt_conv_Cons [of k "length s + 1"]
    by (simp del: upt_Suc)
  have skip: "\<forall>j \<in> set js. match_at r s j = None \<Longrightarrow>
      foldr (\<lambda>k rest. case match_at r s k of None \<Rightarrow> rest | Some m \<Rightarrow> Some m) js x = x" for js x
    by (induction js) auto
  show ?thesis unfolding search_from_def split foldr_append
    by (subst skip) (use assms(3,4) in auto)
qed

text \<open>The same steps on the rest of the subject.\<close>

lemma drop_Suc_rest: "drop i s = c # t \<Longrightarrow> drop (Suc i) s = t"
  by (metis drop_Suc list.sel(3) tl_drop)

lemma drop_rest: "drop i s = u @ t \<Longrightarrow> drop (i + length u) s = t"
  by (metis add.commute append_eq_conv_conj drop_drop)

lemma mt_chr_rest: "drop i s = c # t \<Longrightarrow> mt (RChr P) s i g = (if P c then [(Suc i, g)] else [])"
  by (metis Suc_eq_plus1 drop_eq_Nil2 hd_drop_conv_nth linorder_not_less list.distinct(1) list.sel(1) mt.simps(1))

lemma mt_chr_end: "drop i s = [] \<Longrightarrow> mt (RChr P) s i g = []"
  by simp

lemma word_at_rest: "drop i s = c # t \<Longrightarrow> word_at s i = is_word c"
  by (metis drop_eq_Nil2 hd_drop_conv_nth linorder_not_less list.distinct(1) list.sel(1) word_at_def)

lemma run_end_rest:
  assumes "drop i s = u @ c # t" "list_all P u" "\<not> P c"
  shows "run_end P s i = i + length u"
proof -
  have "takeWhile P (u @ c # t) = u" using assms(2,3) by (induction u) auto
  then show ?thesis by (simp add: run_end_def assms(1))
qed

section \<open>Membership in the list of matches\<close>

named_theorems mt_sets \<open>matches of a compound pattern, by those of its parts\<close>

lemma mt_chr_set [mt_sets]:
  "(j, h) \<in> set (mt (RChr P) s i g) \<longleftrightarrow> i < length s \<and> P (s ! i) \<and> j = Suc i \<and> h = g"
  by auto

lemma mt_eps_set [mt_sets]: "(j, h) \<in> set (mt REps s i g) \<longleftrightarrow> j = i \<and> h = g"
  by auto

lemma mt_seq_set [mt_sets]:
  "(j, h) \<in> set (mt (RSeq r q) s i g) \<longleftrightarrow>
     (\<exists>k f. (k, f) \<in> set (mt r s i g) \<and> (j, h) \<in> set (mt q s k f))"
  by auto

lemma mt_alt_set [mt_sets]:
  "(j, h) \<in> set (mt (RAlt r q) s i g) \<longleftrightarrow> (j, h) \<in> set (mt r s i g) \<or> (j, h) \<in> set (mt q s i g)"
  by auto

lemma mt_group_set [mt_sets]:
  "(j, h) \<in> set (mt (RGroup n r) s i g) \<longleftrightarrow> (\<exists>f. (j, f) \<in> set (mt r s i g) \<and> h = f(n \<mapsto> (i, j)))"
  by auto

lemma mt_bol_set [mt_sets]: "(j, h) \<in> set (mt RBol s i g) \<longleftrightarrow> i = 0 \<and> j = i \<and> h = g"
  by auto

lemma mt_wordb_set [mt_sets]: "(j, h) \<in> set (mt RWordB s i g) \<longleftrightarrow> word_boundary s i \<and> j = i \<and> h = g"
  by auto

lemma mt_eol_set [mt_sets]:
  "(j, h) \<in> set (mt REol s i g) \<longleftrightarrow>
     (i = length s \<or> (i + 1 = length s \<and> s ! i = newline)) \<and> j = i \<and> h = g"
  by auto

lemma mt_rlit_set [mt_sets]:
  "(j, h) \<in> set (mt (rlit cs) s i g) \<longleftrightarrow> prefix cs (drop i s) \<and> j = i + length cs \<and> h = g"
  by (auto simp: mt_rlit)

lemma mt_class_set [mt_sets]:
  "(j, h) \<in> set (mt (RStar True (RChr P)) s i g) \<longleftrightarrow> i \<le> j \<and> j \<le> run_end P s i \<and> h = g"
  by (auto simp: mt_star_class less_Suc_eq_le simp del: upt_Suc)

lemma mt_plus_set [mt_sets]:
  "(j, h) \<in> set (mt (rplus r) s i g) \<longleftrightarrow>
     (\<exists>k f. (k, f) \<in> set (mt r s i g) \<and> (j, h) \<in> set (mt (rstar r) s k f))"
  unfolding rplus_def by (rule mt_seq_set)

lemma mt_opt_set [mt_sets]:
  "(j, h) \<in> set (mt (ropt r) s i g) \<longleftrightarrow> (j, h) \<in> set (mt r s i g) \<or> (j = i \<and> h = g)"
  by (auto simp: ropt_def)

lemmas rclass_defs = rch_def rset_def rnot_def rspace_def rany_def

text \<open>Patterns without groups leave the captures alone.\<close>

fun groupless :: "re \<Rightarrow> bool" where
  "groupless (RSeq r q) = (groupless r \<and> groupless q)"
| "groupless (RAlt r q) = (groupless r \<and> groupless q)"
| "groupless (RStar b r) = groupless r"
| "groupless (RGroup n r) = False"
| "groupless (RLook b r) = groupless r"
| "groupless r = True"

lemma mt_groupless: "(j, h) \<in> set (mt r s i g) \<Longrightarrow> groupless r \<Longrightarrow> h = g"
proof (induction r s i g arbitrary: j h rule: mt.induct)
  case (3 r q s i g)
  obtain k f where k: "(k, f) \<in> set (mt r s i g)" "(j, h) \<in> set (mt q s k f)"
    using iffD1 [OF mt_seq_set "3.prems"(1)] by blast
  have "f = g" using "3.IH"(1) [OF k(1)] "3.prems"(2) by simp
  moreover have "h = f" by (rule "3.IH"(2) [OF k(1) refl k(2)]) (use "3.prems"(2) in simp)
  ultimately show ?case by simp
next
  case (5 b r s i g)
  show ?case
  proof (cases "(j, h) = (i, g)")
    case False
    then obtain k f where k: "(k, f) \<in> set (mt r s i g)" "i < k" "k \<le> length s"
        "(j, h) \<in> set (mt (RStar b r) s k f)"
      using iffD1 [OF mt_star_set "5.prems"(1)] by blast
    have "f = g" using "5.IH"(1) [OF k(1)] "5.prems"(2) by simp
    moreover have "h = f"
      by (rule "5.IH"(2) [OF k(1) refl _ k(4) "5.prems"(2)]) (use k in simp)
    ultimately show ?thesis by simp
  qed simp
next
  case (10 b r s i g)
  then show ?case by (auto split: list.splits if_splits)
next
  case (11 n s i g)
  then show ?case by (auto simp: Let_def split: option.splits if_splits)
qed (auto split: if_splits)

lemma re_Match_Some:
  assumes "re_Match r s = Some m"
  shows "(m_end m, m_groups m) \<in> set (mt r s 0 Map.empty)" "m_subject m = s" "m_start m = 0"
  using assms by (auto simp: re_Match_def match_at_def split: list.splits)

lemma re_Match_None: "re_Match r s = None \<longleftrightarrow> set (mt r s 0 Map.empty) = {}"
  by (auto simp: re_Match_def match_at_def split: list.splits)

lemma match_at_Some:
  assumes "match_at r s i = Some m"
  shows "(m_end m, m_groups m) \<in> set (mt r s i Map.empty)" "m_subject m = s" "m_start m = i"
  using assms by (auto simp: match_at_def split: list.splits)

lemma substr_class: "c \<in> set (substr s i j) \<Longrightarrow> j \<le> run_end P s i \<Longrightarrow> P c"
proof -
  assume c: "c \<in> set (substr s i j)" and j: "j \<le> run_end P s i"
  obtain k where k: "k < length (substr s i j)" "c = substr s i j ! k" using c by (auto simp: in_set_conv_nth)
  then have "k < j - i" "i + k < length s" "c = s ! (i + k)" by (auto simp: substr_def)
  then show "P c" using in_run [of i "i + k" P s] j by simp
qed

lemma group0_Some: "m_groups m n = Some (i, j) \<Longrightarrow> group0 m n = substr (m_subject m) i j"
  by (simp add: group0_def group_def)

end
