(* ===== verification/Py_Re_Syntax.thy ===== *)
theory Py_Re_Syntax
  imports Py_Regex
begin

text \<open>
  The concrete syntax of Python's regular expressions, as far as \<open>cpplint.py\<close> uses it: literals,
  \<open>.\<close>, classes with ranges and escapes, \<open>^\<close>, \<open>$\<close>, word boundaries, capturing and other groups,
  look-ahead, back references, alternatives, and greedy and lazy repetition with or without
  bounds. A pattern is cut into tokens and the tokens are folded into a tree with a stack of open
  groups. A character list literal cannot hold a backslash, so patterns are written with \<open>`\<close> in
  its place (\<open>rx\<close> puts it back); no pattern of the linter contains \<open>`\<close>. The functions \<open>Match\<close>,
  \<open>Search\<close>, \<open>ReplaceAll\<close> are those of the linter, \<open>re_finditer\<close>, \<open>re_split\<close> and \<open>re_escape\<close> those of
  the \<open>re\<close> module.
\<close>

section \<open>Tokens\<close>

datatype gkind = GCap | GNon | GLook bool

datatype tok =
    TItem re
  | TOpen gkind
  | TClose
  | TBar
  | TRep nat "nat option" bool

datatype citem = CChar char | CRange char char | CPred "char \<Rightarrow> bool"

fun in_item :: "char \<Rightarrow> citem \<Rightarrow> bool" where
  "in_item c (CChar d) = (c = d)"
| "in_item c (CRange lo hi) = in_range lo hi c"
| "in_item c (CPred P) = P c"

definition class_pred :: "bool \<Rightarrow> citem list \<Rightarrow> char \<Rightarrow> bool" where
  "class_pred negated items c = (negated \<noteq> list_ex (in_item c) items)"

definition simple_escape :: "char \<Rightarrow> char" where
  "simple_escape c =
     (if c = CHR ''n'' then newline else if c = CHR ''t'' then tab_char else if c = CHR ''r'' then CHR 0x0D
      else if c = CHR ''f'' then CHR 0x0C else if c = CHR ''v'' then CHR 0x0B
      else if c = CHR ''a'' then CHR 0x07 else c)"

definition escape_class :: "char \<Rightarrow> citem" where
  "escape_class c =
     (if c = CHR ''s'' then CPred py_isspace else if c = CHR ''S'' then CPred (\<lambda>d. \<not> py_isspace d)
      else if c = CHR ''w'' then CPred is_word else if c = CHR ''W'' then CPred (\<lambda>d. \<not> is_word d)
      else if c = CHR ''d'' then CPred is_digit else if c = CHR ''D'' then CPred (\<lambda>d. \<not> is_digit d)
      else if c = CHR ''b'' then CChar (CHR 0x08) else CChar (simple_escape c))"

definition escape_atom :: "char \<Rightarrow> re" where
  "escape_atom c =
     (if c = CHR ''b'' then RWordB else if c = CHR ''B'' then RLook False RWordB
      else if is_digit c then RBackref (of_char c - 48)
      else (case escape_class c of CPred P \<Rightarrow> RChr P | CChar d \<Rightarrow> rch d | CRange lo hi \<Rightarrow> RChr (in_range lo hi)))"

text \<open>The bounds behind an opening brace: least, greatest, and how many characters they take. Without
  digits and a closing brace the opening brace stands for itself.\<close>

definition digits_nat :: "nat \<Rightarrow> string \<Rightarrow> nat" where
  "digits_nat base ds = foldl (\<lambda>n d. n * base + (of_char d - 48)) 0 ds"

definition rep_bounds :: "string \<Rightarrow> (nat \<times> nat option \<times> nat) option" where
  "rep_bounds s =
     (let lo = takeWhile is_digit s;
          r = dropWhile is_digit s;
          comma = prefix '','' r;
          r1 = (if comma then drop 1 r else r);
          hi = (if comma then takeWhile is_digit r1 else lo);
          r2 = (if comma then dropWhile is_digit r1 else r1)
      in if prefix ''}'' s \<or> \<not> prefix ''}'' r2 then None
         else Some (digits_nat 10 lo, if hi = [] then None else Some (digits_nat 10 hi), length s - length r2 + 1))"

definition consR :: "'a \<Rightarrow> 'a list res \<Rightarrow> 'a list res" where
  "consR x r = bindR r (\<lambda>xs. Inr (x # xs))"

lemma drop_Cons_length: "drop n xs = y # ys \<Longrightarrow> length ys < length xs"
  using length_drop [of n xs] by simp

function (sequential) lex :: "string \<Rightarrow> tok list res"
  and lex_class :: "bool \<Rightarrow> bool \<Rightarrow> citem list \<Rightarrow> string \<Rightarrow> tok list res"
  and lex_rep :: "nat \<Rightarrow> nat option \<Rightarrow> string \<Rightarrow> tok list res" where
  "lex [] = Inr []"
| "lex (c # r) =
     (if c = backslash then
        (case r of [] \<Rightarrow> Inl ReError
         | d # r' \<Rightarrow>
             if d = CHR ''0'' then
               let ds = takeWhile (in_range (CHR ''0'') (CHR ''7'')) (take 2 r')
               in consR (TItem (rch (char_of (digits_nat 8 ds)))) (lex (drop (length ds) r'))
             else consR (TItem (escape_atom d)) (lex r'))
      else if c = CHR ''['' then
        (if prefix ''^'' r then lex_class True True [] (drop 1 r) else lex_class False True [] r)
      else if c = CHR ''('' then
        (if prefix ''?:'' r then consR (TOpen GNon) (lex (drop 2 r))
         else if prefix ''?='' r then consR (TOpen (GLook True)) (lex (drop 2 r))
         else if prefix ''?!'' r then consR (TOpen (GLook False)) (lex (drop 2 r))
         else if prefix ''?'' r then Inl ReError
         else consR (TOpen GCap) (lex r))
      else if c = CHR '')'' then consR TClose (lex r)
      else if c = CHR ''|'' then consR TBar (lex r)
      else if c = CHR ''*'' then lex_rep 0 None r
      else if c = CHR ''+'' then lex_rep 1 None r
      else if c = CHR ''?'' then lex_rep 0 (Some 1) r
      else if c = CHR ''{'' then
        (case rep_bounds r of None \<Rightarrow> consR (TItem (rch c)) (lex r)
         | Some (lo, hi, k) \<Rightarrow> lex_rep lo hi (drop k r))
      else if c = CHR ''.'' then consR (TItem rany) (lex r)
      else if c = CHR ''^'' then consR (TItem RBol) (lex r)
      else if c = CHR ''$'' then consR (TItem REol) (lex r)
      else consR (TItem (rch c)) (lex r))"
| "lex_class negated at_start items [] = Inl ReError"
| "lex_class negated at_start items (c # r) =
     (if c = CHR '']'' \<and> \<not> at_start then consR (TItem (RChr (class_pred negated items))) (lex r)
      else if c = backslash then
        (case r of [] \<Rightarrow> Inl ReError | d # r' \<Rightarrow> lex_class negated False (items @ [escape_class d]) r')
      else if prefix ''-'' r \<and> 1 < length r \<and> r ! 1 \<noteq> CHR '']'' then
        (if r ! 1 = backslash then
           (case drop 2 r of [] \<Rightarrow> Inl ReError
            | d # r' \<Rightarrow>
                (case escape_class d of CChar hi \<Rightarrow> lex_class negated False (items @ [CRange c hi]) r'
                 | _ \<Rightarrow> Inl ReError))
         else lex_class negated False (items @ [CRange c (r ! 1)]) (drop 2 r))
      else lex_class negated False (items @ [CChar c]) r)"
| "lex_rep lo hi s =
     (if prefix ''?'' s then consR (TRep lo hi False) (lex (drop 1 s)) else consR (TRep lo hi True) (lex s))"
  by pat_completeness auto
termination
  by (relation "measure (\<lambda>x. case x of Inl s \<Rightarrow> 2 * length s
    | Inr (Inl (n, f, i, s)) \<Rightarrow> 2 * length s | Inr (Inr (lo, hi, s)) \<Rightarrow> 2 * length s + 1)")
    (auto dest!: drop_Cons_length)

declare lex.simps [simp del] lex_class.simps [simp del] lex_rep.simps [simp del]

section \<open>Trees\<close>

fun ropts :: "bool \<Rightarrow> re \<Rightarrow> nat \<Rightarrow> re" where
  "ropts greedy r 0 = REps"
| "ropts greedy r (Suc n) =
     (let body = (if n = 0 then r else RSeq r (ropts greedy r n))
      in if greedy then RAlt body REps else RAlt REps body)"

definition rrep :: "nat \<Rightarrow> nat option \<Rightarrow> bool \<Rightarrow> re \<Rightarrow> re" where
  "rrep lo hi greedy r =
     (case hi of None \<Rightarrow> rseq (replicate lo r @ [RStar greedy r])
      | Some n \<Rightarrow> if n \<le> lo then rseq (replicate lo r) else rseq (replicate lo r @ [ropts greedy r (n - lo)]))"

text \<open>An open group: its kind and number, the finished alternatives and the current one, both in
  reverse.\<close>

record frame =
  f_kind :: gkind
  f_number :: nat
  f_alts :: "re list"
  f_seq :: "re list"

definition frame_re :: "frame \<Rightarrow> re" where
  "frame_re f = ralt (rev (rseq (rev (f_seq f)) # f_alts f))"

definition close_frame :: "frame \<Rightarrow> re" where
  "close_frame f =
     (case f_kind f of GCap \<Rightarrow> RGroup (f_number f) (frame_re f) | GNon \<Rightarrow> frame_re f
      | GLook b \<Rightarrow> RLook b (frame_re f))"

definition add_item :: "re \<Rightarrow> frame \<Rightarrow> frame" where
  "add_item r f = f\<lparr>f_seq := r # f_seq f\<rparr>"

definition open_frame :: "gkind \<Rightarrow> nat \<Rightarrow> frame" where
  "open_frame k n = \<lparr>f_kind = k, f_number = n, f_alts = [], f_seq = []\<rparr>"

fun parse_toks :: "tok list \<Rightarrow> nat \<Rightarrow> frame \<Rightarrow> frame list \<Rightarrow> re res" where
  "parse_toks [] n f stack = (if stack = [] then Inr (frame_re f) else Inl ReError)"
| "parse_toks (t # ts) n f stack =
     (case t of
        TItem r \<Rightarrow> parse_toks ts n (add_item r f) stack
      | TOpen k \<Rightarrow> parse_toks ts (if k = GCap then n + 1 else n) (open_frame k n) (f # stack)
      | TClose \<Rightarrow>
          (case stack of [] \<Rightarrow> Inl ReError | f' # stack' \<Rightarrow> parse_toks ts n (add_item (close_frame f) f') stack')
      | TBar \<Rightarrow> parse_toks ts n (f\<lparr>f_alts := rseq (rev (f_seq f)) # f_alts f, f_seq := []\<rparr>) stack
      | TRep lo hi greedy \<Rightarrow>
          (case f_seq f of [] \<Rightarrow> Inl ReError
           | r # rs \<Rightarrow> parse_toks ts n (f\<lparr>f_seq := rrep lo hi greedy r # rs\<rparr>) stack))"

definition re_compile :: "string \<Rightarrow> re res" where
  "re_compile p = bindR (lex p) (\<lambda>ts. parse_toks ts 1 (open_frame GNon 0) [])"

definition unquote :: "string \<Rightarrow> string" where
  "unquote p = map (\<lambda>c. if c = CHR ''`'' then backslash else c) p"

text \<open>A pattern that does not compile matches nothing; \<open>compiles\<close> is shown for every pattern that is
  written out in the development.\<close>

definition rx :: "string \<Rightarrow> re" where
  "rx p = (case re_compile (unquote p) of Inr r \<Rightarrow> r | Inl e \<Rightarrow> RChr (\<lambda>c. False))"

definition compiles :: "string \<Rightarrow> bool" where
  "compiles p \<longleftrightarrow> (case re_compile (unquote p) of Inr r \<Rightarrow> True | Inl e \<Rightarrow> False)"

text \<open>The flag \<open>re.IGNORECASE\<close>.\<close>

primrec ignore_case :: "re \<Rightarrow> re" where
  "ignore_case (RChr P) = RChr (\<lambda>c. P (lower_char c) \<or> P (upper_char c))"
| "ignore_case REps = REps"
| "ignore_case (RSeq r q) = RSeq (ignore_case r) (ignore_case q)"
| "ignore_case (RAlt r q) = RAlt (ignore_case r) (ignore_case q)"
| "ignore_case (RStar b r) = RStar b (ignore_case r)"
| "ignore_case (RGroup n r) = RGroup n (ignore_case r)"
| "ignore_case RBol = RBol"
| "ignore_case REol = REol"
| "ignore_case RWordB = RWordB"
| "ignore_case (RLook b r) = RLook b (ignore_case r)"
| "ignore_case (RBackref n) = RBackref n"

section \<open>The linter's interface\<close>

definition Match :: "string \<Rightarrow> string \<Rightarrow> re_match option" where
  "Match p s = re_Match (rx p) s"

definition Search :: "string \<Rightarrow> string \<Rightarrow> re_match option" where
  "Search p s = re_Search (rx p) s"

definition ReplaceAll :: "string \<Rightarrow> string \<Rightarrow> string \<Rightarrow> string" where
  "ReplaceAll p rep s = re_sub (rx p) rep s"

abbreviation MatchB :: "string \<Rightarrow> string \<Rightarrow> bool" where "MatchB p s \<equiv> Match p s \<noteq> None"
abbreviation SearchB :: "string \<Rightarrow> string \<Rightarrow> bool" where "SearchB p s \<equiv> Search p s \<noteq> None"

text \<open>\<open>m.group(0)\<close> and the matches found one after the other, for patterns that do not match the
  empty string.\<close>

definition group_all :: "re_match \<Rightarrow> string" where
  "group_all m = substr (m_subject m) (m_start m) (m_end m)"

function finditer_from :: "re \<Rightarrow> string \<Rightarrow> nat \<Rightarrow> re_match list" where
  "finditer_from r s i =
     (case search_from r s i of
        None \<Rightarrow> []
      | Some m \<Rightarrow>
          if m_start m < m_end m \<and> i \<le> m_start m \<and> m_end m \<le> length s
          then m # finditer_from r s (m_end m) else [])"
  by pat_completeness auto
termination
  by (relation "measure (\<lambda>(r, s, i). length s - i)") auto

declare finditer_from.simps [simp del]

definition re_finditer :: "re \<Rightarrow> string \<Rightarrow> re_match list" where
  "re_finditer r s = finditer_from r s 0"

fun split_pieces :: "string \<Rightarrow> nat \<Rightarrow> re_match list \<Rightarrow> string list" where
  "split_pieces s i [] = [drop i s]"
| "split_pieces s i (m # ms) = substr s i (m_start m) # split_pieces s (m_end m) ms"

definition re_split :: "re \<Rightarrow> string \<Rightarrow> string list" where
  "re_split r s = split_pieces s 0 (re_finditer r s)"

definition is_alnum :: "char \<Rightarrow> bool" where
  "is_alnum c \<longleftrightarrow> is_lower c \<or> is_upper c \<or> is_digit c"

definition re_escape :: "string \<Rightarrow> string" where
  "re_escape s =
     concat (map (\<lambda>c. if is_alnum c then [c] else if c = CHR 0x00 then backslash # ''000'' else [backslash, c]) s)"

end
