(* ===== verification/Py_Re_Facts.thy ===== *)
theory Py_Re_Facts
  imports Py_Re_Syntax
begin

text \<open>
  Facts about matches that are read off a pattern by computation. \<open>min_width\<close> is a lower bound for
  the characters a match takes, \<open>gspan\<close> places a group of the outermost sequence between what comes
  before and behind it, \<open>tail_pred\<close> is a property of the last character. Each is a function on
  trees, so that what a check needs of a written pattern is an evaluation.
\<close>

section \<open>Widths\<close>

primrec min_width :: "re \<Rightarrow> nat" where
  "min_width (RChr P) = 1"
| "min_width REps = 0"
| "min_width (RSeq r q) = min_width r + min_width q"
| "min_width (RAlt r q) = min (min_width r) (min_width q)"
| "min_width (RStar b r) = 0"
| "min_width (RGroup n r) = min_width r"
| "min_width RBol = 0"
| "min_width REol = 0"
| "min_width RWordB = 0"
| "min_width (RLook b r) = 0"
| "min_width (RBackref n) = 0"

primrec zero_width :: "re \<Rightarrow> bool" where
  "zero_width (RChr P) = False"
| "zero_width REps = True"
| "zero_width (RSeq r q) = (zero_width r \<and> zero_width q)"
| "zero_width (RAlt r q) = (zero_width r \<and> zero_width q)"
| "zero_width (RStar b r) = False"
| "zero_width (RGroup n r) = zero_width r"
| "zero_width RBol = True"
| "zero_width REol = True"
| "zero_width RWordB = True"
| "zero_width (RLook b r) = True"
| "zero_width (RBackref n) = False"

lemma mt_look_set: "(j, h) \<in> set (mt (RLook b r) s i g) \<Longrightarrow> j = i"
  by (auto split: list.splits if_splits)

lemma mt_backref_set: "(j, h) \<in> set (mt (RBackref n) s i g) \<Longrightarrow> h = g \<and> i \<le> j"
  by (auto simp: Let_def split: option.splits if_splits)

lemma mt_min_width: "(j, h) \<in> set (mt r s i g) \<Longrightarrow> i + min_width r \<le> j"
proof (induction r arbitrary: i j g h)
  case (RSeq r q)
  then obtain k f where "(k, f) \<in> set (mt r s i g)" "(j, h) \<in> set (mt q s k f)" by (auto simp: mt_seq_set)
  with RSeq.IH show ?case by fastforce
next
  case (RAlt r q)
  then show ?case by (auto simp: min_le_iff_disj) fastforce+
next
  case (RStar b r)
  have "i \<le> j" if "(j, h) \<in> set (mt (RStar b r) s i g)" for i g
    using that
  proof (induction "length s - i" arbitrary: i g rule: less_induct)
    case less
    show ?case
    proof (cases "(j, h) = (i, g)")
      case False
      then obtain k f where k: "i < k" "k \<le> length s" "(j, h) \<in> set (mt (RStar b r) s k f)"
        using iffD1 [OF mt_star_set less.prems] by blast
      have "k \<le> j" by (rule less.hyps [OF _ k(3)]) (use k in linarith)
      then show ?thesis using k by simp
    qed simp
  qed
  then show ?case using RStar.prems by simp
next
  case (RLook b r)
  then show ?case using mt_look_set [OF RLook.prems] by simp
next
  case (RBackref n)
  then show ?case using mt_backref_set [OF RBackref] by simp
qed (auto split: if_splits)

lemma mt_zero_width: "(j, h) \<in> set (mt r s i g) \<Longrightarrow> zero_width r \<Longrightarrow> j = i"
proof (induction r arbitrary: i j g h)
  case (RSeq r q)
  then obtain k f where "(k, f) \<in> set (mt r s i g)" "(j, h) \<in> set (mt q s k f)" by (auto simp: mt_seq_set)
  with RSeq show ?case by fastforce
next
  case (RLook b r)
  then show ?case using mt_look_set by blast
qed (auto split: if_splits)

section \<open>Groups\<close>

primrec sets_group :: "nat \<Rightarrow> re \<Rightarrow> bool" where
  "sets_group n (RChr P) = False"
| "sets_group n REps = False"
| "sets_group n (RSeq r q) = (sets_group n r \<or> sets_group n q)"
| "sets_group n (RAlt r q) = (sets_group n r \<or> sets_group n q)"
| "sets_group n (RStar b r) = sets_group n r"
| "sets_group n (RGroup k r) = (k = n \<or> sets_group n r)"
| "sets_group n RBol = False"
| "sets_group n REol = False"
| "sets_group n RWordB = False"
| "sets_group n (RLook b r) = sets_group n r"
| "sets_group n (RBackref k) = False"

lemma mt_other_group: "(j, h) \<in> set (mt r s i g) \<Longrightarrow> \<not> sets_group n r \<Longrightarrow> h n = g n"
proof (induction r arbitrary: i j g h)
  case (RSeq r q)
  then obtain k f where "(k, f) \<in> set (mt r s i g)" "(j, h) \<in> set (mt q s k f)" by (auto simp: mt_seq_set)
  with RSeq show ?case by fastforce
next
  case (RStar b r)
  have "h n = g n" if "(j, h) \<in> set (mt (RStar b r) s i g)" for i g
    using that
  proof (induction "length s - i" arbitrary: i g rule: less_induct)
    case less
    show ?case
    proof (cases "(j, h) = (i, g)")
      case False
      then obtain k f where k: "(k, f) \<in> set (mt r s i g)" "i < k" "k \<le> length s"
          "(j, h) \<in> set (mt (RStar b r) s k f)"
        using iffD1 [OF mt_star_set less.prems] by blast
      have "h n = f n" by (rule less.hyps [OF _ k(4)]) (use k in linarith)
      moreover have "f n = g n" using RStar.IH [OF k(1)] RStar.prems(2) by simp
      ultimately show ?thesis by simp
    qed simp
  qed
  then show ?case using RStar.prems by blast
next
  case (RLook b r)
  show ?case
  proof (cases "mt r s i g")
    case Nil
    then show ?thesis using RLook.prems by (auto split: if_splits)
  next
    case (Cons x xs)
    obtain k f where x: "x = (k, f)" by (cases x)
    have "f n = g n" by (rule RLook.IH [of k f i g]) (use RLook.prems(2) in \<open>auto simp: Cons x\<close>)
    then show ?thesis using RLook.prems(1) by (auto simp: Cons x split: if_splits)
  qed
next
  case (RBackref k)
  then show ?case using mt_backref_set by blast
qed (auto split: if_splits)

text \<open>The least number of characters before a group, whether the group starts where the match does, and
  the least number of characters behind it.\<close>

fun gspan :: "nat \<Rightarrow> re \<Rightarrow> (nat \<times> bool \<times> nat) option" where
  "gspan n (RGroup k r) = (if k = n then Some (0, True, 0) else None)"
| "gspan n (RSeq r q) =
     (case gspan n r of
        Some (x, exact, y) \<Rightarrow> if sets_group n q then None else Some (x, exact, y + min_width q)
      | None \<Rightarrow>
          if sets_group n r then None
          else map_option (\<lambda>(x, exact, y). (min_width r + x, zero_width r \<and> exact, y)) (gspan n q))"
| "gspan n r = None"

lemma mt_gspan:
  "gspan n r = Some (x, exact, y) \<Longrightarrow> (j, h) \<in> set (mt r s i g) \<Longrightarrow>
   \<exists>a b. h n = Some (a, b) \<and> i + x \<le> a \<and> a \<le> b \<and> b + y \<le> j \<and> (exact \<longrightarrow> a = i)"
proof (induction r arbitrary: x exact y i j g h)
  case (RGroup k r)
  then show ?case using mt_min_width [of j _ r s i g] by (auto split: if_splits) fastforce
next
  case (RSeq r q)
  then obtain k f where k: "(k, f) \<in> set (mt r s i g)" "(j, h) \<in> set (mt q s k f)" by (auto simp: mt_seq_set)
  show ?case
  proof (cases "gspan n r")
    case None
    then obtain x' exact' where q: "gspan n q = Some (x', exact', y)" "x = min_width r + x'" "exact \<longleftrightarrow> zero_width r \<and> exact'"
      using RSeq.prems(1) by (auto split: if_splits)
    obtain a b where "h n = Some (a, b)" "k + x' \<le> a" "a \<le> b" "b + y \<le> j" "exact' \<longrightarrow> a = k"
      using RSeq.IH(2) [OF q(1) k(2)] by blast
    moreover have "i + min_width r \<le> k" by (rule mt_min_width [OF k(1)])
    ultimately show ?thesis using q mt_zero_width [OF k(1)] by auto
  next
    case (Some t)
    obtain y' where t: "gspan n r = Some (x, exact, y')" "y = y' + min_width q" "\<not> sets_group n q"
      using RSeq.prems(1) Some by (cases t) (auto split: if_splits)
    obtain a b where "f n = Some (a, b)" "i + x \<le> a" "a \<le> b" "b + y' \<le> k" "exact \<longrightarrow> a = i"
      using RSeq.IH(1) [OF t(1) k(1)] by blast
    moreover have "h n = f n" by (rule mt_other_group [OF k(2) t(3)])
    moreover have "k + min_width q \<le> j" by (rule mt_min_width [OF k(2)])
    ultimately show ?thesis using t by auto
  qed
qed auto

section \<open>Results of Match and Search\<close>

lemma Match_gspan:
  assumes "Match p s = Some m" "gspan n (rx p) = Some (x, exact, y)"
  shows "\<exists>a b. m_groups m n = Some (a, b) \<and> x \<le> a \<and> a \<le> b \<and> b + y \<le> length s \<and> (exact \<longrightarrow> a = 0) \<and>
           group0 m n = substr s a b"
proof -
  have m: "(m_end m, m_groups m) \<in> set (mt (rx p) s 0 Map.empty)" "m_subject m = s"
    using assms(1) re_Match_Some by (auto simp: Match_def)
  from mt_gspan [OF assms(2) m(1)] obtain a b where ab: "m_groups m n = Some (a, b)" "x \<le> a" "a \<le> b"
      "b + y \<le> m_end m" "exact \<longrightarrow> a = 0" by auto
  moreover have "m_end m \<le> length s" using mt_bounds [OF m(1)] by simp
  ultimately show ?thesis using m(2) by (auto simp: group0_Some)
qed

text \<open>A group at the start, with at least one character behind it: its length is a position of the subject.\<close>

lemma Match_prefix_group:
  assumes "Match p s = Some m" "gspan n (rx p) = Some (0, True, Suc y)"
  shows "length (group0 m n) < length s \<and> group0 m n = take (length (group0 m n)) s"
  using Match_gspan [OF assms] by (auto simp: substr_def)

definition leading_group :: "nat \<Rightarrow> string \<Rightarrow> bool" where
  "leading_group n p \<longleftrightarrow> (case gspan n (rx p) of Some (x, exact, y) \<Rightarrow> x = 0 \<and> exact \<and> 0 < y | None \<Rightarrow> False)"

lemma Match_leading: "Match p s = Some m \<Longrightarrow> leading_group n p \<Longrightarrow> length (group0 m n) < length s"
  using Match_prefix_group by (auto simp: leading_group_def gr0_conv_Suc split: option.splits)

text \<open>The rest of a line behind at least one character is shorter than the line.\<close>

lemma Match_rest_group:
  assumes "Match p s = Some m" "gspan n (rx p) = Some (Suc x, exact, y)"
  shows "length (group0 m n) < length s"
  using Match_gspan [OF assms] by (auto simp: substr_def)

definition behind_group :: "nat \<Rightarrow> string \<Rightarrow> bool" where
  "behind_group n p \<longleftrightarrow> (case gspan n (rx p) of Some (x, exact, y) \<Rightarrow> 0 < x | None \<Rightarrow> False)"

lemma Match_behind: "Match p s = Some m \<Longrightarrow> behind_group n p \<Longrightarrow> length (group0 m n) < length s"
  using Match_rest_group by (auto simp: behind_group_def gr0_conv_Suc split: option.splits)

lemma Search_Some:
  assumes "Search p s = Some m"
  shows "(m_end m, m_groups m) \<in> set (mt (rx p) s (m_start m) Map.empty)"
    "m_subject m = s" "m_start m \<le> m_end m" "m_end m \<le> length s"
proof -
  obtain k where k: "k \<le> length s" "match_at (rx p) s k = Some m"
    using assms search_from_Some unfolding Search_def re_Search_def by blast
  then show "(m_end m, m_groups m) \<in> set (mt (rx p) s (m_start m) Map.empty)" "m_subject m = s"
    using match_at_Some [OF k(2)] by auto
  show "m_start m \<le> m_end m" "m_end m \<le> length s" using match_at_bounds [OF k(2,1)] by auto
qed

lemma Search_min_width: "Search p s = Some m \<Longrightarrow> m_start m + min_width (rx p) \<le> m_end m"
  by (rule mt_min_width [OF Search_Some(1)])

lemma Search_gspan:
  assumes "Search p s = Some m" "gspan n (rx p) = Some (x, exact, y)"
  shows "\<exists>a b. m_groups m n = Some (a, b) \<and> m_start m + x \<le> a \<and> a \<le> b \<and> b + y \<le> m_end m \<and>
           group0 m n = substr s a b"
  using mt_gspan [OF assms(2) Search_Some(1) [OF assms(1)]] Search_Some(2) [OF assms(1)]
  by (auto simp: group0_Some)

section \<open>The last character\<close>

fun tail_pred :: "re \<Rightarrow> (char \<Rightarrow> bool) option" where
  "tail_pred (RChr P) = Some P"
| "tail_pred (RSeq r q) = tail_pred q"
| "tail_pred (RGroup n r) = tail_pred r"
| "tail_pred (RAlt r q) =
     (case (tail_pred r, tail_pred q) of (Some P, Some Q) \<Rightarrow> Some (\<lambda>c. P c \<or> Q c) | _ \<Rightarrow> None)"
| "tail_pred r = None"

lemma mt_tail_pred:
  "tail_pred r = Some P \<Longrightarrow> (j, h) \<in> set (mt r s i g) \<Longrightarrow> 0 < j \<and> j \<le> length s \<and> P (s ! (j - 1))"
proof (induction r arbitrary: P i j g h)
  case (RSeq r q)
  then obtain k f where k: "(j, h) \<in> set (mt q s k f)" by (auto simp: mt_seq_set)
  show ?case by (rule RSeq.IH(2) [OF _ k]) (use RSeq.prems(1) in simp)
next
  case (RAlt r q)
  then obtain A B where "tail_pred r = Some A" "tail_pred q = Some B" "P = (\<lambda>c. A c \<or> B c)"
    by (auto split: option.splits)
  with RAlt show ?case by fastforce
next
  case (RGroup n r)
  then obtain f where f: "(j, f) \<in> set (mt r s i g)" by (auto simp: mt_group_set simp del: mt.simps)
  show ?case by (rule RGroup.IH [OF _ f]) (use RGroup.prems(1) in simp)
qed (auto split: if_splits)

lemma Match_tail:
  assumes "Match p s = Some m" "tail_pred (rx p) = Some P"
  shows "0 < m_end m \<and> m_end m \<le> length s \<and> P (s ! (m_end m - 1))"
  using mt_tail_pred [OF assms(2)] re_Match_Some(1) assms(1) unfolding Match_def by blast

lemma Search_tail:
  assumes "Search p s = Some m" "tail_pred (rx p) = Some P"
  shows "0 < m_end m \<and> m_end m \<le> length s \<and> P (s ! (m_end m - 1))"
  by (rule mt_tail_pred [OF assms(2) Search_Some(1) [OF assms(1)]])

section \<open>The characters of a group\<close>

primrec chars_in :: "(char \<Rightarrow> bool) \<Rightarrow> re \<Rightarrow> bool" where
  "chars_in Q (RChr P) = (\<forall>c. P c \<longrightarrow> Q c)"
| "chars_in Q REps = True"
| "chars_in Q (RSeq r q) = (chars_in Q r \<and> chars_in Q q)"
| "chars_in Q (RAlt r q) = (chars_in Q r \<and> chars_in Q q)"
| "chars_in Q (RStar b r) = chars_in Q r"
| "chars_in Q (RGroup n r) = chars_in Q r"
| "chars_in Q RBol = True"
| "chars_in Q REol = True"
| "chars_in Q RWordB = True"
| "chars_in Q (RLook b r) = True"
| "chars_in Q (RBackref n) = False"

definition span_in :: "(char \<Rightarrow> bool) \<Rightarrow> string \<Rightarrow> nat \<Rightarrow> nat \<Rightarrow> bool" where
  "span_in Q s i j \<longleftrightarrow> (\<forall>k. i \<le> k \<longrightarrow> k < j \<longrightarrow> Q (s ! k))"

lemma span_in_join: "span_in Q s i k \<Longrightarrow> span_in Q s k j \<Longrightarrow> span_in Q s i j"
  unfolding span_in_def by (metis not_le)

lemma mt_chars_in: "(j, h) \<in> set (mt r s i g) \<Longrightarrow> chars_in Q r \<Longrightarrow> span_in Q s i j"
proof (induction r arbitrary: i j g h)
  case (RSeq r q)
  then obtain k f where k: "(k, f) \<in> set (mt r s i g)" "(j, h) \<in> set (mt q s k f)" by (auto simp: mt_seq_set)
  have "span_in Q s i k" "span_in Q s k j" using RSeq.IH(1) [OF k(1)] RSeq.IH(2) [OF k(2)] RSeq.prems(2) by simp_all
  then show ?case by (rule span_in_join)
next
  case (RStar b r)
  have "span_in Q s i j" if "(j, h) \<in> set (mt (RStar b r) s i g)" for i g
    using that
  proof (induction "length s - i" arbitrary: i g rule: less_induct)
    case less
    show ?case
    proof (cases "(j, h) = (i, g)")
      case False
      then obtain k f where k: "(k, f) \<in> set (mt r s i g)" "i < k" "k \<le> length s"
          "(j, h) \<in> set (mt (RStar b r) s k f)"
        using iffD1 [OF mt_star_set less.prems] by blast
      have "span_in Q s k j" by (rule less.hyps [OF _ k(4)]) (use k in linarith)
      moreover have "span_in Q s i k" using RStar.IH [OF k(1)] RStar.prems(2) by simp
      ultimately show ?thesis by (rule span_in_join [rotated])
    qed (simp add: span_in_def)
  qed
  then show ?case using RStar.prems by blast
next
  case (RLook b r)
  then show ?case using mt_look_set [OF RLook.prems(1)] by (simp add: span_in_def)
next
  case (RGroup n r)
  then obtain f where "(j, f) \<in> set (mt r s i g)" by (auto simp: mt_group_set simp del: mt.simps)
  then show ?case using RGroup by simp
qed (auto simp: span_in_def le_less_Suc_eq split: if_splits)

primrec group_in :: "nat \<Rightarrow> (char \<Rightarrow> bool) \<Rightarrow> re \<Rightarrow> bool" where
  "group_in n Q (RChr P) = True"
| "group_in n Q REps = True"
| "group_in n Q (RSeq r q) = (group_in n Q r \<and> group_in n Q q)"
| "group_in n Q (RAlt r q) = (group_in n Q r \<and> group_in n Q q)"
| "group_in n Q (RStar b r) = group_in n Q r"
| "group_in n Q (RGroup k r) = ((k = n \<longrightarrow> chars_in Q r) \<and> group_in n Q r)"
| "group_in n Q RBol = True"
| "group_in n Q REol = True"
| "group_in n Q RWordB = True"
| "group_in n Q (RLook b r) = group_in n Q r"
| "group_in n Q (RBackref k) = True"

definition captured_in :: "nat \<Rightarrow> (char \<Rightarrow> bool) \<Rightarrow> string \<Rightarrow> groups \<Rightarrow> bool" where
  "captured_in n Q s g \<longleftrightarrow> (\<forall>a b. g n = Some (a, b) \<longrightarrow> span_in Q s a b)"

lemma mt_group_in:
  "(j, h) \<in> set (mt r s i g) \<Longrightarrow> group_in n Q r \<Longrightarrow> captured_in n Q s g \<Longrightarrow> captured_in n Q s h"
proof (induction r arbitrary: i j g h)
  case (RSeq r q)
  then obtain k f where "(k, f) \<in> set (mt r s i g)" "(j, h) \<in> set (mt q s k f)" by (auto simp: mt_seq_set)
  with RSeq show ?case by (metis group_in.simps(3))
next
  case (RStar b r)
  have "captured_in n Q s h" if "(j, h) \<in> set (mt (RStar b r) s i g)" "captured_in n Q s g" for i g
    using that
  proof (induction "length s - i" arbitrary: i g rule: less_induct)
    case less
    show ?case
    proof (cases "(j, h) = (i, g)")
      case False
      then obtain k f where k: "(k, f) \<in> set (mt r s i g)" "i < k" "k \<le> length s"
          "(j, h) \<in> set (mt (RStar b r) s k f)"
        using iffD1 [OF mt_star_set less.prems(1)] by blast
      have "captured_in n Q s f" using RStar.IH [OF k(1) _ less.prems(2)] RStar.prems(2) by simp
      then show ?thesis by (intro less.hyps [OF _ k(4)]) (use k in linarith)
    qed (use less.prems in simp)
  qed
  then show ?case using RStar.prems by blast
next
  case (RGroup k r)
  then obtain f where f: "(j, f) \<in> set (mt r s i g)" "h = f(k \<mapsto> (i, j))"
    by (auto simp: mt_group_set simp del: mt.simps)
  have "captured_in n Q s f" using RGroup.IH [OF f(1)] RGroup.prems by simp
  moreover have "span_in Q s i j" if "k = n" using mt_chars_in [OF f(1)] RGroup.prems(2) that by simp
  ultimately show ?case using f(2) by (auto simp: captured_in_def)
next
  case (RLook b r)
  show ?case
  proof (cases "mt r s i g")
    case Nil
    then show ?thesis using RLook.prems by (auto split: if_splits)
  next
    case (Cons x xs)
    obtain k f where x: "x = (k, f)" by (cases x)
    have "captured_in n Q s f" by (rule RLook.IH [of k f i g]) (use RLook.prems in \<open>auto simp: Cons x\<close>)
    then show ?thesis using RLook.prems by (auto simp: Cons x split: if_splits)
  qed
next
  case (RBackref k)
  then show ?case using mt_backref_set by blast
qed (auto split: if_splits)

lemma span_in_substr: "span_in Q s a b \<Longrightarrow> list_all Q (substr s a b)"
  by (auto simp: list_all_iff span_in_def substr_def in_set_conv_nth)

lemma Match_group_in:
  assumes "Match p s = Some m" "group_in n Q (rx p)"
  shows "list_all Q (group0 m n)"
proof -
  have m: "(m_end m, m_groups m) \<in> set (mt (rx p) s 0 Map.empty)" "m_subject m = s"
    using assms(1) re_Match_Some by (auto simp: Match_def)
  have "captured_in n Q s (m_groups m)" by (rule mt_group_in [OF m(1) assms(2)]) (simp add: captured_in_def)
  then show ?thesis using m(2)
    by (cases "m_groups m n") (auto simp: captured_in_def group0_def group_def span_in_substr)
qed

section \<open>Patterns built at run time\<close>

text \<open>Words in a pattern, and escaped text of any kind, stand for themselves.\<close>

definition meta :: string where
  "meta = backslash # ''[(|)*+?{.^$''"

definition lits :: "string \<Rightarrow> tok list" where
  "lits w = map (\<lambda>c. TItem (rch c)) w"

definition prependR :: "'a list \<Rightarrow> 'a list res \<Rightarrow> 'a list res" where
  "prependR xs r = bindR r (\<lambda>ys. Inr (xs @ ys))"

lemma prependR_simps [simp]: "prependR xs (Inr ys) = Inr (xs @ ys)" "prependR xs (Inl e) = Inl e"
  by (simp_all add: prependR_def)

lemma lex_plain: "list_all (\<lambda>c. c \<notin> set meta) w \<Longrightarrow> lex (w @ v) = prependR (lits w) (lex v)"
proof (induction w)
  case Nil
  then show ?case by (cases "lex v") (simp_all add: lits_def)
next
  case (Cons c w)
  then show ?case by (cases "lex v") (simp_all add: lex.simps(2) meta_def lits_def consR_def)
qed

lemma is_alnum_meta: "is_alnum c \<Longrightarrow> c \<notin> set meta"
  by (auto simp: is_alnum_def meta_def is_lower_def is_upper_def is_digit_def in_range_def)

lemma escape_atom_other: "\<not> is_alnum c \<Longrightarrow> escape_atom c = rch c"
proof -
  assume n: "\<not> is_alnum c"
  then have "\<not> is_digit c" by (simp add: is_alnum_def)
  moreover have "c \<notin> set ''bBsSwWdDntrfva''" using n by (auto simp: is_alnum_def is_lower_def is_upper_def in_range_def)
  ultimately show ?thesis by (auto simp: escape_atom_def escape_class_def simple_escape_def)
qed

lemma lex_escape: "lex (re_escape w @ v) = prependR (lits w) (lex v)"
proof (induction w)
  case Nil
  then show ?case by (cases "lex v") (simp_all add: lits_def re_escape_def)
next
  case (Cons c w)
  have step: "re_escape (c # w) @ v =
      (if is_alnum c then [c] else if c = CHR 0x00 then backslash # ''000'' else [backslash, c]) @ (re_escape w @ v)"
    by (simp add: re_escape_def)
  consider (alnum) "is_alnum c" | (nul) "\<not> is_alnum c" "c = CHR 0x00" | (other) "\<not> is_alnum c" "c \<noteq> CHR 0x00" by blast
  then show ?case
  proof cases
    case alnum
    then show ?thesis using Cons.IH lex_plain [of "[c]" "re_escape w @ v"] is_alnum_meta [OF alnum]
      by (cases "lex v") (simp_all add: step lits_def)
  next
    case nul
    have "re_escape (c # w) @ v = backslash # ''000'' @ (re_escape w @ v)" using step nul by simp
    moreover have "in_range CHR ''0'' CHR ''7'' CHR ''0''" by (simp add: in_range_def)
    ultimately have "lex (re_escape (c # w) @ v) = consR (TItem (rch (char_of (digits_nat 8 ''00'')))) (lex (re_escape w @ v))"
      by (simp add: lex.simps(2))
    moreover have "char_of (digits_nat 8 ''00'') = c" using nul by (simp add: digits_nat_def char_of_def)
    ultimately show ?thesis using Cons.IH by (cases "lex v") (simp_all add: lits_def consR_def)
  next
    case other
    have "c \<noteq> CHR ''0''" using other(1) by (auto simp: is_alnum_def is_digit_def in_range_def)
    then show ?thesis using other Cons.IH escape_atom_other [OF other(1)]
      by (cases "lex v") (simp_all add: step lex.simps(2) lits_def consR_def)
  qed
qed

lemma escape_no_lazy: "w \<noteq> [] \<Longrightarrow> \<not> prefix ''?'' (re_escape w @ v)"
  by (cases w) (auto simp: re_escape_def is_alnum_def is_lower_def is_upper_def is_digit_def in_range_def)

lemma parse_items:
  "parse_toks (map TItem rs @ ts) n f stack = parse_toks ts n (f\<lparr>f_seq := rev rs @ f_seq f\<rparr>) stack"
  by (induction rs arbitrary: f) (simp_all add: add_item_def)

lemma parse_lits:
  "parse_toks (lits w @ ts) n f stack = parse_toks ts n (f\<lparr>f_seq := rev (map rch w) @ f_seq f\<rparr>) stack"
  using parse_items [of "map rch w" ts n f stack] by (simp add: lits_def comp_def)

lemma re_compile_escape: "re_compile (re_escape w) = Inr (rlit w)"
proof -
  have "lex (re_escape w) = Inr (lits w)" using lex_escape [of w "[]"] by (simp add: lex.simps)
  then show ?thesis using parse_lits [of w "[]" 1 "open_frame GNon 0" "[]"]
    by (simp add: re_compile_def open_frame_def frame_re_def rlit_def)
qed

section \<open>Evaluation of written patterns\<close>

lemmas rx_eval = rx_def re_compile_def unquote_def lex.simps lex_class.simps lex_rep.simps consR_def
  open_frame_def add_item_def close_frame_def frame_re_def rrep_def escape_atom_def escape_class_def
  simple_escape_def rep_bounds_def Let_def

section \<open>The words of a group\<close>

text \<open>The words of a pattern without repetitions, each as a list of tests, one per character.\<close>

fun words :: "re \<Rightarrow> (char \<Rightarrow> bool) list list option" where
  "words (RChr P) = Some [[P]]"
| "words REps = Some [[]]"
| "words (RSeq r q) =
     (case (words r, words q) of (Some V, Some W) \<Rightarrow> Some (concat (map (\<lambda>v. map (\<lambda>w. v @ w) W) V)) | _ \<Rightarrow> None)"
| "words (RAlt r q) = (case (words r, words q) of (Some V, Some W) \<Rightarrow> Some (V @ W) | _ \<Rightarrow> None)"
| "words r = None"

fun group_words :: "nat \<Rightarrow> re \<Rightarrow> (char \<Rightarrow> bool) list list option" where
  "group_words n (RGroup k r) = (if k = n then words r else group_words n r)"
| "group_words n (RSeq r q) =
     (case group_words n r of
        Some W \<Rightarrow> if sets_group n q then None else Some W
      | None \<Rightarrow> if sets_group n r then None else group_words n q)"
| "group_words n r = None"

definition spells :: "(char \<Rightarrow> bool) list list \<Rightarrow> string \<Rightarrow> bool" where
  "spells W s \<longleftrightarrow> (\<exists>w \<in> set W. list_all2 (\<lambda>P c. P c) w s)"

lemma substr_Cons: "i < j \<Longrightarrow> j \<le> length s \<Longrightarrow> substr s i j = s ! i # substr s (Suc i) j"
  by (simp add: substr_def Cons_nth_drop_Suc [symmetric] take_Cons')

lemma substr_same [simp]: "substr s i i = []"
  by (simp add: substr_def)

lemma substr_join: "i \<le> k \<Longrightarrow> k \<le> j \<Longrightarrow> substr s i j = substr s i k @ substr s k j"
  using take_add [of "k - i" "j - k" "drop i s"] by (simp add: substr_def add.commute)

lemma mt_words:
  "words r = Some W \<Longrightarrow> (j, h) \<in> set (mt r s i g) \<Longrightarrow> i \<le> length s \<Longrightarrow> spells W (substr s i j)"
proof (induction r arbitrary: W i j g h)
  case (RSeq r q)
  then obtain k f where k: "(k, f) \<in> set (mt r s i g)" "(j, h) \<in> set (mt q s k f)" by (auto simp: mt_seq_set)
  obtain U V where W: "words r = Some U" "words q = Some V" "W = concat (map (\<lambda>v. map (\<lambda>w. v @ w) V) U)"
    using RSeq.prems(1) by (auto split: option.splits)
  have b: "i \<le> k" "k \<le> length s" "k \<le> j" using mt_bounds [OF k(1)] mt_bounds [OF k(2)] RSeq.prems(3) by auto
  have "spells U (substr s i k)" "spells V (substr s k j)"
    using RSeq.IH(1) [OF W(1) k(1) RSeq.prems(3)] RSeq.IH(2) [OF W(2) k(2) b(2)] by simp_all
  then show ?case unfolding W(3) spells_def substr_join [OF b(1,3)] by (auto intro: list_all2_appendI)
next
  case (RAlt r q)
  then obtain U V where W: "words r = Some U" "words q = Some V" "W = U @ V" by (auto split: option.splits)
  have "spells U (substr s i j) \<or> spells V (substr s i j)"
    using RAlt.IH(1) [OF W(1)] RAlt.IH(2) [OF W(2)] RAlt.prems(2,3) by (auto simp: mt_alt_set simp del: mt.simps)
  then show ?case by (auto simp: spells_def W(3))
next
  case (RChr P)
  then have c: "i < length s" "P (s ! i)" "j = Suc i" "W = [[P]]" by (auto split: if_splits)
  then have "substr s i j = [s ! i]" by (simp add: substr_def take_Suc hd_drop_conv_nth)
  with c show ?case by (simp add: spells_def)
qed (auto simp: spells_def)

lemma mt_group_words:
  "group_words n r = Some W \<Longrightarrow> (j, h) \<in> set (mt r s i g) \<Longrightarrow> i \<le> length s \<Longrightarrow>
   \<exists>a b. h n = Some (a, b) \<and> spells W (substr s a b)"
proof (induction r arbitrary: W i j g h)
  case (RGroup k r)
  then show ?case using mt_words [of r W j _ s i g] by (fastforce split: if_splits)
next
  case (RSeq r q)
  then obtain k f where k: "(k, f) \<in> set (mt r s i g)" "(j, h) \<in> set (mt q s k f)" by (auto simp: mt_seq_set)
  have b: "k \<le> length s" using mt_bounds [OF k(1)] RSeq.prems(3) by auto
  show ?case
  proof (cases "group_words n r")
    case None
    then have "group_words n q = Some W" using RSeq.prems(1) by (auto split: if_splits)
    then show ?thesis by (rule RSeq.IH(2) [OF _ k(2) b])
  next
    case (Some V)
    then have V: "V = W" "\<not> sets_group n q" using RSeq.prems(1) by (auto split: if_splits)
    have "h n = f n" by (rule mt_other_group [OF k(2) V(2)])
    then show ?thesis using RSeq.IH(1) [OF Some k(1) RSeq.prems(3)] V(1) by simp
  qed
qed auto

definition letters :: "string \<Rightarrow> (char \<Rightarrow> bool) list" where
  "letters w = map (\<lambda>c d. d = c) w"

lemma spells_letters: "spells (map letters ws) s \<longleftrightarrow> s \<in> set ws"
proof -
  have "list_all2 (\<lambda>P c. P c) (letters w) s \<longleftrightarrow> s = w" for w
    by (simp add: letters_def list_all2_map1 list_all2_eq [symmetric] list.rel_eq eq_commute)
  then show ?thesis by (auto simp: spells_def)
qed

lemma Match_group_words:
  assumes "Match p s = Some m" "group_words n (rx p) = Some (map letters ws)"
  shows "group0 m n \<in> set ws"
  using mt_group_words [OF assms(2)] re_Match_Some [of "rx p" s m] assms(1)
  by (fastforce simp: Match_def spells_letters group0_Some)

lemma finditer_mem:
  "m \<in> set (finditer_from r s i) \<Longrightarrow> \<exists>k \<le> length s. match_at r s k = Some m"
proof (induction r s i rule: finditer_from.induct)
  case (1 r s i)
  show ?case
  proof (cases "search_from r s i")
    case None
    then show ?thesis using "1.prems" by (simp add: finditer_from.simps [of r s i])
  next
    case (Some x)
    then show ?thesis using 1 search_from_Some [OF Some] by (auto simp: finditer_from.simps [of r s i] split: if_splits)
  qed
qed

lemma finditer_group_words:
  assumes "m \<in> set (re_finditer (rx p) s)" "group_words n (rx p) = Some (map letters ws)"
  shows "group0 m n \<in> set ws"
proof -
  obtain k where k: "k \<le> length s" "match_at (rx p) s k = Some m"
    using finditer_mem [of m "rx p" s 0] assms(1) unfolding re_finditer_def by blast
  then show ?thesis using mt_group_words [OF assms(2)] match_at_Some [OF k(2)]
    by (fastforce simp: spells_letters group0_Some)
qed

end
