(* ===== verification/Lint_State.thy ===== *)
theory Lint_State
  imports Py_Regex
begin

text \<open>
  The module state of \<open>cpplint.py\<close>: the \<open>NOLINT\<close> suppressions, the \<open>_CppLintState\<close> object
  (verbosity, filters, error counts, output format), and the error handler \<open>Error\<close> that every
  check calls. The locale \<open>error_sink\<close> is what the checks rely on: a handler that
  never raises and keeps an invariant; it is interpreted by \<open>Error\<close> with the invariant
  that every filter starts with a sign.
\<close>

section \<open>Constants\<close>

definition ERROR_CATEGORIES :: "string list" where
  "ERROR_CATEGORIES =
    [''build/class'', ''build/c++11'', ''build/c++14'', ''build/c++tr1'', ''build/deprecated'',
     ''build/endif_comment'', ''build/explicit_make_pair'', ''build/forward_decl'',
     ''build/header_guard'', ''build/include'', ''build/include_alpha'', ''build/include_order'',
     ''build/include_what_you_use'', ''build/namespaces'', ''build/printf_format'',
     ''build/storage_class'', ''legal/copyright'', ''readability/alt_tokens'',
     ''readability/braces'', ''readability/casting'', ''readability/check'',
     ''readability/constructors'', ''readability/fn_size'', ''readability/inheritance'',
     ''readability/multiline_comment'', ''readability/multiline_string'',
     ''readability/namespace'', ''readability/nolint'', ''readability/nul'',
     ''readability/strings'', ''readability/todo'', ''readability/utf8'', ''runtime/arrays'',
     ''runtime/casting'', ''runtime/explicit'', ''runtime/int'', ''runtime/init'',
     ''runtime/invalid_increment'', ''runtime/member_string_references'', ''runtime/memset'',
     ''runtime/indentation_namespace'', ''runtime/operator'', ''runtime/printf'',
     ''runtime/printf_format'', ''runtime/references'', ''runtime/string'',
     ''runtime/threadsafe_fn'', ''runtime/vlog'', ''whitespace/blank_line'',
     ''whitespace/braces'', ''whitespace/comma'', ''whitespace/comments'',
     ''whitespace/empty_conditional_body'', ''whitespace/empty_if_body'',
     ''whitespace/empty_loop_body'', ''whitespace/end_of_line'', ''whitespace/ending_newline'',
     ''whitespace/forcolon'', ''whitespace/indent'', ''whitespace/line_length'',
     ''whitespace/newline'', ''whitespace/operators'', ''whitespace/parens'',
     ''whitespace/semicolon'', ''whitespace/tab'', ''whitespace/todo'']"

definition LEGACY_ERROR_CATEGORIES :: "string list" where
  "LEGACY_ERROR_CATEGORIES = [''readability/streams'', ''readability/function'']"

definition DEFAULT_FILTERS :: "string list" where
  "DEFAULT_FILTERS = [''-build/include_alpha'']"

definition DEFAULT_C_SUPPRESSED_CATEGORIES :: "string list" where
  "DEFAULT_C_SUPPRESSED_CATEGORIES = [''readability/casting'']"

definition DEFAULT_KERNEL_SUPPRESSED_CATEGORIES :: "string list" where
  "DEFAULT_KERNEL_SUPPRESSED_CATEGORIES = [''whitespace/tab'']"

section \<open>State\<close>

record cpplint_state =
  verbose_level :: int
  error_count :: nat
  filters :: "string list"
  filters_backup :: "string list"
  counting :: string
  errors_by_category :: "string \<rightharpoonup> nat"
  output_format :: string

record lint =
  error_suppressions :: "string option \<rightharpoonup> int set"
  global_error_suppressions :: "string \<rightharpoonup> bool"
  cpp_state :: cpplint_state
  stderr :: "string list"

definition CppLintState_init :: cpplint_state where
  "CppLintState_init =
     \<lparr>verbose_level = 1, error_count = 0, filters = DEFAULT_FILTERS, filters_backup = DEFAULT_FILTERS,
      counting = ''total'', errors_by_category = Map.empty, output_format = ''emacs''\<rparr>"

definition lint_init :: lint where
  "lint_init = \<lparr>error_suppressions = Map.empty, global_error_suppressions = Map.empty,
                cpp_state = CppLintState_init, stderr = []\<rparr>"

section \<open>The state object\<close>

definition SetOutputFormat :: "string \<Rightarrow> cpplint_state \<Rightarrow> cpplint_state" where
  "SetOutputFormat fmt st = st\<lparr>output_format := fmt\<rparr>"

definition SetVerboseLevel :: "int \<Rightarrow> cpplint_state \<Rightarrow> cpplint_state \<times> int" where
  "SetVerboseLevel level st = (st\<lparr>verbose_level := level\<rparr>, verbose_level st)"

definition SetCountingStyle :: "string \<Rightarrow> cpplint_state \<Rightarrow> cpplint_state" where
  "SetCountingStyle style st = st\<lparr>counting := style\<rparr>"

definition filter_ok :: "string \<Rightarrow> bool" where
  "filter_ok f \<longleftrightarrow> py_startswith f ''+'' \<or> py_startswith f ''-''"

text \<open>The new filters are appended before any is tested: they stay when the call raises.\<close>

definition AddFilters :: "string \<Rightarrow> cpplint_state \<Rightarrow> cpplint_state \<times> unit res" where
  "AddFilters fs st =
     (let clean = filter (\<lambda>f. f \<noteq> []) (map py_strip (py_split '','' fs));
          st' = st\<lparr>filters := filters st @ clean\<rparr>
      in (st', if list_all filter_ok (filters st') then Inr () else Inl ValueError))"

definition SetFilters :: "string \<Rightarrow> cpplint_state \<Rightarrow> cpplint_state \<times> unit res" where
  "SetFilters fs st = AddFilters fs (st\<lparr>filters := DEFAULT_FILTERS\<rparr>)"

definition BackupFilters :: "cpplint_state \<Rightarrow> cpplint_state" where
  "BackupFilters st = st\<lparr>filters_backup := filters st\<rparr>"

definition RestoreFilters :: "cpplint_state \<Rightarrow> cpplint_state" where
  "RestoreFilters st = st\<lparr>filters := filters_backup st\<rparr>"

definition ResetErrorCounts :: "cpplint_state \<Rightarrow> cpplint_state" where
  "ResetErrorCounts st = st\<lparr>error_count := 0, errors_by_category := Map.empty\<rparr>"

definition IncrementErrorCount :: "string \<Rightarrow> cpplint_state \<Rightarrow> cpplint_state" where
  "IncrementErrorCount category st =
     (let st1 = st\<lparr>error_count := error_count st + 1\<rparr>
      in if counting st1 = ''toplevel'' \<or> counting st1 = ''detailed'' then
           let category = (if counting st1 \<noteq> ''detailed'' then hd (py_split ''/'' category) else category);
               m = errors_by_category st1;
               m1 = (if m category = None then m(category \<mapsto> 0) else m)
           in st1\<lparr>errors_by_category := m1(category \<mapsto> the (m1 category) + 1)\<rparr>
         else st1)"

text \<open>\<open>PrintErrorCounts\<close>; the order in which the dictionary is walked is the list \<open>keys\<close>.\<close>

definition PrintErrorCounts :: "string list \<Rightarrow> cpplint_state \<Rightarrow> string list" where
  "PrintErrorCounts keys st =
     map (\<lambda>c. ''Category '' @ [squote] @ c @ [squote] @ '' errors found: '' @
               py_str_int (int (the (errors_by_category st c))) @ [newline]) keys @
     [''Total errors found: '' @ py_str_int (int (error_count st)) @ [newline]]"

section \<open>NOLINT\<close>

definition IsErrorSuppressedByNolint :: "lint \<Rightarrow> string \<Rightarrow> int \<Rightarrow> bool" where
  "IsErrorSuppressedByNolint st category linenum \<longleftrightarrow>
     (case global_error_suppressions st category of Some b \<Rightarrow> b | None \<Rightarrow> False) \<or>
     (case error_suppressions st (Some category) of Some S \<Rightarrow> linenum \<in> S | None \<Rightarrow> False) \<or>
     (case error_suppressions st None of Some S \<Rightarrow> linenum \<in> S | None \<Rightarrow> False)"

definition ResetNolintSuppressions :: "lint \<Rightarrow> lint" where
  "ResetNolintSuppressions st =
     st\<lparr>error_suppressions := Map.empty, global_error_suppressions := Map.empty\<rparr>"

text \<open>\<open>_error_suppressions.setdefault(category, set()).add(line)\<close>\<close>

definition suppress :: "string option \<Rightarrow> int \<Rightarrow> lint \<Rightarrow> lint" where
  "suppress category linenum st =
     st\<lparr>error_suppressions := (error_suppressions st)(category \<mapsto>
          insert linenum (case error_suppressions st category of None \<Rightarrow> {} | Some S \<Rightarrow> S))\<rparr>"

text \<open>A call of the error handler: file name, line number, category, confidence, message.\<close>

record diag =
  d_file :: string
  d_line :: int
  d_category :: string
  d_confidence :: int
  d_message :: string

definition mk_diag :: "string \<Rightarrow> int \<Rightarrow> string \<Rightarrow> int \<Rightarrow> string \<Rightarrow> diag" where
  "mk_diag f l c n m = \<lparr>d_file = f, d_line = l, d_category = c, d_confidence = n, d_message = m\<rparr>"

type_synonym handler = "lint \<Rightarrow> diag \<Rightarrow> lint res"

definition nolint_category_re :: re where
  "nolint_category_re = rseq [rch CHR ''('', rnot '')'', rstar (rnot '')''), rch CHR '')'']"

definition nolint_re :: re where
  "nolint_re = rseq [RWordB, rlit ''NOLINT'', ropt (RGroup 1 (rlit ''NEXTLINE'')), RWordB,
     ropt (RGroup 2 nolint_category_re)]"

definition ParseNolintSuppressions :: "handler \<Rightarrow> string \<Rightarrow> string \<Rightarrow> int \<Rightarrow> lint \<Rightarrow> lint res" where
  "ParseNolintSuppressions error filename raw_line linenum st =
     (case re_Search nolint_re raw_line of
        None \<Rightarrow> Inr st
      | Some matched \<Rightarrow>
          let suppressed_line = (if group0 matched 1 \<noteq> [] then linenum + 1 else linenum)
          in case group matched 2 of
               None \<Rightarrow> Inr (suppress None suppressed_line st)
             | Some category \<Rightarrow>
                 if category = ''(*)'' then Inr (suppress None suppressed_line st)
                 else if py_startswith category ''('' \<and> py_endswith category '')'' then
                   let category = py_slice category 1 (-1)
                   in if category \<in> set ERROR_CATEGORIES then Inr (suppress (Some category) suppressed_line st)
                      else if category \<notin> set LEGACY_ERROR_CATEGORIES then
                        error st (mk_diag filename linenum ''readability/nolint'' 5
                                    (''Unknown NOLINT error category: '' @ category))
                      else Inr st
                 else Inr st)"

definition SEARCH_C_FILE :: re where
  "SEARCH_C_FILE = RSeq RWordB (RAlt (rlit ''LINT_C_FILE'')
     (rseq [rch CHR ''v'', rch CHR ''i'', ropt (rch CHR ''m''), rch CHR '':'', rstar rspace, rstar rany,
            RGroup 1 (RAlt (rstar rspace) (rch CHR '':'')), rlit ''filetype=c'',
            RGroup 2 (ralt [rstar rspace, rch CHR '':'', REol])]))"

definition SEARCH_KERNEL_FILE :: re where
  "SEARCH_KERNEL_FILE = RSeq RWordB (rlit ''LINT_KERNEL_FILE'')"

definition suppress_globally :: "string list \<Rightarrow> lint \<Rightarrow> lint" where
  "suppress_globally cs st =
     fold (\<lambda>c st. st\<lparr>global_error_suppressions := (global_error_suppressions st)(c \<mapsto> True)\<rparr>) cs st"

definition ProcessGlobalSuppresions :: "string list \<Rightarrow> lint \<Rightarrow> lint" where
  "ProcessGlobalSuppresions lines st =
     fold (\<lambda>line st.
       let st1 = (if re_Search SEARCH_C_FILE line \<noteq> None
                  then suppress_globally DEFAULT_C_SUPPRESSED_CATEGORIES st else st)
       in if re_Search SEARCH_KERNEL_FILE line \<noteq> None
          then suppress_globally DEFAULT_KERNEL_SUPPRESSED_CATEGORIES st1 else st1) lines st"

section \<open>Error\<close>

definition filter_step :: "string \<Rightarrow> bool \<Rightarrow> string \<Rightarrow> bool res" where
  "filter_step category is_filtered one_filter =
     (if py_startswith one_filter ''-'' then
        Inr (if py_startswith category (drop 1 one_filter) then True else is_filtered)
      else if py_startswith one_filter ''+'' then
        Inr (if py_startswith category (drop 1 one_filter) then False else is_filtered)
      else Inl AssertionError)"

definition ShouldPrintError :: "lint \<Rightarrow> string \<Rightarrow> int \<Rightarrow> int \<Rightarrow> bool res" where
  "ShouldPrintError st category confidence linenum =
     (if IsErrorSuppressedByNolint st category linenum then Inr False
      else if confidence < verbose_level (cpp_state st) then Inr False
      else bindR (foldR (filter_step category) False (filters (cpp_state st)))
             (\<lambda>is_filtered. Inr (\<not> is_filtered)))"

definition format_error :: "string \<Rightarrow> diag \<Rightarrow> string" where
  "format_error fmt d =
     (let line = py_str_int (d_line d);
          tail = '' ['' @ d_category d @ ''] ['' @ py_str_int (d_confidence d) @ '']'' @ [newline]
      in if fmt = ''vs7'' then d_file d @ ''('' @ line @ ''):  '' @ d_message d @ '' '' @ tail
         else if fmt = ''eclipse'' then d_file d @ '':'' @ line @ '': warning: '' @ d_message d @ '' '' @ tail
         else d_file d @ '':'' @ line @ '':  '' @ d_message d @ '' '' @ tail)"

definition Error :: handler where
  "Error st d =
     bindR (ShouldPrintError st (d_category d) (d_confidence d) (d_line d)) (\<lambda>show_it.
       if show_it then
         let st1 = st\<lparr>cpp_state := IncrementErrorCount (d_category d) (cpp_state st)\<rparr>
         in Inr (st1\<lparr>stderr := stderr st1 @ [format_error (output_format (cpp_state st1)) d]\<rparr>)
       else Inr st)"

section \<open>The contract of the error handler\<close>

text \<open>A report is documented when its category is in the list the linter prints for \<open>--filter=\<close> and its
  confidence is between 0 and 5. A handler need only accept documented reports: what is proved for
  every handler then shows that no other report is ever made.\<close>

definition valid_diag :: "diag \<Rightarrow> bool" where
  "valid_diag d \<longleftrightarrow> d_category d \<in> set ERROR_CATEGORIES \<and> 0 \<le> d_confidence d \<and> d_confidence d \<le> 5"

lemma valid_mk_diag [simp]:
  "valid_diag (mk_diag f l c n m) \<longleftrightarrow> c \<in> set ERROR_CATEGORIES \<and> 0 \<le> n \<and> n \<le> 5"
  by (simp add: valid_diag_def mk_diag_def)

lemma category_documented [simp]:
  "''build/class'' \<in> set ERROR_CATEGORIES"
  "''build/c++11'' \<in> set ERROR_CATEGORIES"
  "''build/c++14'' \<in> set ERROR_CATEGORIES"
  "''build/c++tr1'' \<in> set ERROR_CATEGORIES"
  "''build/deprecated'' \<in> set ERROR_CATEGORIES"
  "''build/endif_comment'' \<in> set ERROR_CATEGORIES"
  "''build/explicit_make_pair'' \<in> set ERROR_CATEGORIES"
  "''build/forward_decl'' \<in> set ERROR_CATEGORIES"
  "''build/header_guard'' \<in> set ERROR_CATEGORIES"
  "''build/include'' \<in> set ERROR_CATEGORIES"
  "''build/include_alpha'' \<in> set ERROR_CATEGORIES"
  "''build/include_order'' \<in> set ERROR_CATEGORIES"
  "''build/include_what_you_use'' \<in> set ERROR_CATEGORIES"
  "''build/namespaces'' \<in> set ERROR_CATEGORIES"
  "''build/printf_format'' \<in> set ERROR_CATEGORIES"
  "''build/storage_class'' \<in> set ERROR_CATEGORIES"
  "''legal/copyright'' \<in> set ERROR_CATEGORIES"
  "''readability/alt_tokens'' \<in> set ERROR_CATEGORIES"
  "''readability/braces'' \<in> set ERROR_CATEGORIES"
  "''readability/casting'' \<in> set ERROR_CATEGORIES"
  "''readability/check'' \<in> set ERROR_CATEGORIES"
  "''readability/constructors'' \<in> set ERROR_CATEGORIES"
  "''readability/fn_size'' \<in> set ERROR_CATEGORIES"
  "''readability/inheritance'' \<in> set ERROR_CATEGORIES"
  "''readability/multiline_comment'' \<in> set ERROR_CATEGORIES"
  "''readability/multiline_string'' \<in> set ERROR_CATEGORIES"
  "''readability/namespace'' \<in> set ERROR_CATEGORIES"
  "''readability/nolint'' \<in> set ERROR_CATEGORIES"
  "''readability/nul'' \<in> set ERROR_CATEGORIES"
  "''readability/strings'' \<in> set ERROR_CATEGORIES"
  "''readability/todo'' \<in> set ERROR_CATEGORIES"
  "''readability/utf8'' \<in> set ERROR_CATEGORIES"
  "''runtime/arrays'' \<in> set ERROR_CATEGORIES"
  "''runtime/casting'' \<in> set ERROR_CATEGORIES"
  "''runtime/explicit'' \<in> set ERROR_CATEGORIES"
  "''runtime/int'' \<in> set ERROR_CATEGORIES"
  "''runtime/init'' \<in> set ERROR_CATEGORIES"
  "''runtime/invalid_increment'' \<in> set ERROR_CATEGORIES"
  "''runtime/member_string_references'' \<in> set ERROR_CATEGORIES"
  "''runtime/memset'' \<in> set ERROR_CATEGORIES"
  "''runtime/indentation_namespace'' \<in> set ERROR_CATEGORIES"
  "''runtime/operator'' \<in> set ERROR_CATEGORIES"
  "''runtime/printf'' \<in> set ERROR_CATEGORIES"
  "''runtime/printf_format'' \<in> set ERROR_CATEGORIES"
  "''runtime/references'' \<in> set ERROR_CATEGORIES"
  "''runtime/string'' \<in> set ERROR_CATEGORIES"
  "''runtime/threadsafe_fn'' \<in> set ERROR_CATEGORIES"
  "''runtime/vlog'' \<in> set ERROR_CATEGORIES"
  "''whitespace/blank_line'' \<in> set ERROR_CATEGORIES"
  "''whitespace/braces'' \<in> set ERROR_CATEGORIES"
  "''whitespace/comma'' \<in> set ERROR_CATEGORIES"
  "''whitespace/comments'' \<in> set ERROR_CATEGORIES"
  "''whitespace/empty_conditional_body'' \<in> set ERROR_CATEGORIES"
  "''whitespace/empty_if_body'' \<in> set ERROR_CATEGORIES"
  "''whitespace/empty_loop_body'' \<in> set ERROR_CATEGORIES"
  "''whitespace/end_of_line'' \<in> set ERROR_CATEGORIES"
  "''whitespace/ending_newline'' \<in> set ERROR_CATEGORIES"
  "''whitespace/forcolon'' \<in> set ERROR_CATEGORIES"
  "''whitespace/indent'' \<in> set ERROR_CATEGORIES"
  "''whitespace/line_length'' \<in> set ERROR_CATEGORIES"
  "''whitespace/newline'' \<in> set ERROR_CATEGORIES"
  "''whitespace/operators'' \<in> set ERROR_CATEGORIES"
  "''whitespace/parens'' \<in> set ERROR_CATEGORIES"
  "''whitespace/semicolon'' \<in> set ERROR_CATEGORIES"
  "''whitespace/tab'' \<in> set ERROR_CATEGORIES"
  "''whitespace/todo'' \<in> set ERROR_CATEGORIES"
  by (simp_all add: ERROR_CATEGORIES_def)

locale error_sink =
  fixes error :: handler and inv :: "lint \<Rightarrow> bool"
  assumes error_returns: "valid_diag d \<Longrightarrow> inv st \<Longrightarrow> \<exists>st'. error st d = Inr st' \<and> inv st'"
    and suppress_inv: "inv st \<Longrightarrow> inv (suppress category linenum st)"
begin

text \<open>A list of reports made one after the other.\<close>

lemma reports_return: "list_all valid_diag ds \<Longrightarrow> inv st \<Longrightarrow> \<exists>st'. foldR error st ds = Inr st' \<and> inv st'"
  by (rule foldR_returns) (auto simp: list_all_iff intro: error_returns)

lemma nolint_returns:
  assumes "inv st"
  shows "\<exists>st'. ParseNolintSuppressions error filename raw_line linenum st = Inr st' \<and> inv st'"
  using assms suppress_inv error_returns
  by (auto simp: ParseNolintSuppressions_def Let_def split: option.splits)

end

definition filters_valid :: "lint \<Rightarrow> bool" where
  "filters_valid st \<longleftrightarrow> list_all filter_ok (filters (cpp_state st))"

lemma filter_step_ok:
  "filter_ok f \<Longrightarrow>
   filter_step category b f = Inr (if py_startswith category (drop 1 f) then py_startswith f ''-'' else b)"
  by (auto simp: filter_step_def filter_ok_def py_startswith_def prefix_def)

lemma filter_loop_ok:
  "list_all filter_ok fs \<Longrightarrow>
   foldR (filter_step category) b fs =
     Inr (foldl (\<lambda>b f. if py_startswith category (drop 1 f) then py_startswith f ''-'' else b) b fs)"
  by (rule foldR_pure) (simp add: list_all_iff filter_step_ok)

lemma filters_IncrementErrorCount [simp]: "filters (IncrementErrorCount c st) = filters st"
  by (simp add: IncrementErrorCount_def Let_def)

lemma Error_returns: "filters_valid st \<Longrightarrow> \<exists>st'. Error st d = Inr st' \<and> filters_valid st'"
  by (auto simp: Error_def ShouldPrintError_def filters_valid_def filter_loop_ok Let_def)

interpretation cpplint_sink: error_sink Error filters_valid
  by unfold_locales (auto simp: filters_valid_def suppress_def dest: Error_returns [unfolded filters_valid_def])

text \<open>Some checks also read the verbosity.\<close>

locale lint_sink = error_sink +
  assumes inv_verbosity: "inv st \<Longrightarrow> 0 \<le> verbose_level (cpp_state st)"

definition lint_ok :: "lint \<Rightarrow> bool" where
  "lint_ok st \<longleftrightarrow> filters_valid st \<and> 0 \<le> verbose_level (cpp_state st)"

lemma verbose_IncrementErrorCount [simp]: "verbose_level (IncrementErrorCount c st) = verbose_level st"
  by (simp add: IncrementErrorCount_def Let_def)

lemma Error_lint_ok: "lint_ok st \<Longrightarrow> \<exists>st'. Error st d = Inr st' \<and> lint_ok st'"
  by (auto simp: Error_def ShouldPrintError_def lint_ok_def filters_valid_def filter_loop_ok Let_def)

interpretation lint_error: lint_sink Error lint_ok
  by unfold_locales (use Error_lint_ok in \<open>auto simp: lint_ok_def filters_valid_def suppress_def\<close>)

text \<open>The error handler with a test in front that refuses undocumented reports.\<close>

definition Error_documented :: handler where
  "Error_documented st d = (if valid_diag d then Error st d else Inl AssertionError)"

interpretation lint_documented: lint_sink Error_documented lint_ok
  by unfold_locales
    (use Error_lint_ok in \<open>auto simp: Error_documented_def lint_ok_def filters_valid_def suppress_def\<close>)

section \<open>Properties\<close>

text \<open>The decision of the filter list in the abstract: the last filter whose name is a prefix of
  the category decides.\<close>

definition filtered_out :: "string list \<Rightarrow> string \<Rightarrow> bool" where
  "filtered_out fs category =
     (let ms = filter (\<lambda>f. prefix (drop 1 f) category) fs
      in ms \<noteq> [] \<and> hd (last ms) = CHR ''-'')"

lemma filter_loop_spec:
  assumes "list_all filter_ok fs"
  shows "foldl (\<lambda>b f. if py_startswith category (drop 1 f) then py_startswith f ''-'' else b) False fs =
         filtered_out fs category"
  using assms
proof (induction fs rule: rev_induct)
  case Nil
  then show ?case by (simp add: filtered_out_def)
next
  case (snoc f fs)
  have "py_startswith f ''-'' \<longleftrightarrow> hd f = CHR ''-''"
    using snoc.prems by (cases f) (auto simp: py_startswith_def filter_ok_def)
  moreover have "filtered_out (fs @ [f]) category =
      (if prefix (drop 1 f) category then hd f = CHR ''-'' else filtered_out fs category)"
    by (simp add: filtered_out_def Let_def)
  ultimately show ?case using snoc by (simp add: py_startswith_def)
qed

lemma filter_loop:
  assumes "list_all filter_ok fs"
  shows "foldR (filter_step category) False fs = Inr (filtered_out fs category)"
  unfolding filter_loop_ok [OF assms] filter_loop_spec [OF assms] ..

lemma ShouldPrintError_eq:
  "list_all filter_ok (filters (cpp_state st)) \<Longrightarrow>
   ShouldPrintError st category confidence linenum =
     Inr (\<not> IsErrorSuppressedByNolint st category linenum \<and>
          verbose_level (cpp_state st) \<le> confidence \<and>
          \<not> filtered_out (filters (cpp_state st)) category)"
  by (auto simp: ShouldPrintError_def filter_loop)

text \<open>C18: With a filter list that \<open>AddFilters\<close> accepted, \<open>_ShouldPrintError\<close> never fails its assertion:
  an error is shown exactly when no suppression covers it, its confidence reaches
  the verbosity, and the last filter naming a prefix of its category, if any, is not a \<open>-\<close> filter.\<close>

theorem ShouldPrintError_spec:
  assumes "AddFilters fs (cpp_state st0) = (c, Inr ())" "st = st0\<lparr>cpp_state := c\<rparr>"
  shows "ShouldPrintError st category confidence linenum =
     Inr (\<not> IsErrorSuppressedByNolint st category linenum \<and>
          verbose_level (cpp_state st) \<le> confidence \<and>
          \<not> filtered_out (filters (cpp_state st)) category)"
  by (rule ShouldPrintError_eq) (use assms in \<open>auto simp: AddFilters_def Let_def split: if_splits\<close>)

theorem ShouldPrintError_spec_witness:
  "ShouldPrintError (lint_init\<lparr>cpp_state := fst (AddFilters ''-whitespace,+whitespace/tab'' CppLintState_init)\<rparr>)
     ''whitespace/tab'' 3 7 = Inr True \<and>
   ShouldPrintError (lint_init\<lparr>cpp_state := fst (AddFilters ''-whitespace,+whitespace/tab'' CppLintState_init)\<rparr>)
     ''whitespace/comma'' 3 7 = Inr False"
proof -
  let ?fs = "''-whitespace,+whitespace/tab''"
  let ?c = "fst (AddFilters ?fs CppLintState_init)"
  have f: "filters ?c = [''-build/include_alpha'', ''-whitespace'', ''+whitespace/tab'']" by code_simp
  have ok: "AddFilters ?fs (cpp_state lint_init) = (?c, Inr ())"
    by (simp add: AddFilters_def Let_def lint_init_def) code_simp
  have v: "verbose_level ?c = 1" by code_simp
  show ?thesis
    unfolding ShouldPrintError_spec [OF ok refl]
    by (simp add: f v lint_init_def IsErrorSuppressedByNolint_def filtered_out_def Let_def)
qed

text \<open>Error counts.\<close>

definition category_total :: "cpplint_state \<Rightarrow> nat" where
  "category_total st = (\<Sum>c \<in> dom (errors_by_category st). the (errors_by_category st c))"

definition counts_inv :: "lint \<Rightarrow> bool" where
  "counts_inv st \<longleftrightarrow> filters_valid st \<and> finite (dom (errors_by_category (cpp_state st))) \<and>
     counting (cpp_state st) \<in> {''toplevel'', ''detailed''} \<and>
     error_count (cpp_state st) = length (stderr st) \<and>
     category_total (cpp_state st) = error_count (cpp_state st)"

lemma sum_bump:
  assumes "finite (dom m)"
  shows "(\<Sum>c \<in> dom (m(k \<mapsto> (case m k of None \<Rightarrow> 1 | Some n \<Rightarrow> n + 1))).
            the ((m(k \<mapsto> (case m k of None \<Rightarrow> 1 | Some n \<Rightarrow> n + 1))) c)) =
         (\<Sum>c \<in> dom m. the (m c)) + (1 :: nat)"
proof -
  let ?m = "m(k \<mapsto> (case m k of None \<Rightarrow> 1 | Some n \<Rightarrow> n + 1))"
  have "dom ?m = insert k (dom m)" by auto
  then have "(\<Sum>c \<in> dom ?m. the (?m c)) = the (?m k) + (\<Sum>c \<in> dom m - {k}. the (?m c))"
    using assms by (simp add: sum.insert_remove)
  also have "(\<Sum>c \<in> dom m - {k}. the (?m c)) = (\<Sum>c \<in> dom m - {k}. the (m c))"
    by (rule sum.cong) auto
  also have "the (?m k) + (\<Sum>c \<in> dom m - {k}. the (m c)) = (\<Sum>c \<in> dom m. the (m c)) + 1"
  proof (cases "m k")
    case None
    then have "dom m - {k} = dom m" by auto
    then show ?thesis by (simp add: None)
  next
    case (Some n)
    then have "k \<in> dom m" by auto
    then show ?thesis using assms sum.remove [of "dom m" k "\<lambda>c. the (m c)"] by (simp add: Some)
  qed
  finally show ?thesis .
qed

lemma IncrementErrorCount_counts:
  assumes "counting st \<in> {''toplevel'', ''detailed''}" "finite (dom (errors_by_category st))"
  shows "category_total (IncrementErrorCount category st) = category_total st + 1 \<and>
         error_count (IncrementErrorCount category st) = error_count st + 1 \<and>
         counting (IncrementErrorCount category st) = counting st \<and>
         finite (dom (errors_by_category (IncrementErrorCount category st)))"
proof -
  define k where "k = (if counting st \<noteq> ''detailed'' then hd (py_split ''/'' category) else category)"
  have "IncrementErrorCount category st =
      st\<lparr>error_count := error_count st + 1,
         errors_by_category := (errors_by_category st)(k \<mapsto>
           (case errors_by_category st k of None \<Rightarrow> 1 | Some n \<Rightarrow> n + 1))\<rparr>"
    using assms(1) by (auto simp: IncrementErrorCount_def Let_def k_def split: option.splits)
  then show ?thesis
    using sum_bump [OF assms(2), of k] assms(2) by (simp add: category_total_def)
qed

lemma Error_counts_inv: "counts_inv st \<Longrightarrow> Error st d = Inr st' \<Longrightarrow> counts_inv st'"
  using Error_returns [of st d] IncrementErrorCount_counts [of "cpp_state st" "d_category d"]
  by (auto simp: counts_inv_def Error_def bindR_Inr_iff Let_def split: if_splits)

text \<open>Counting is exact: from a state whose counts were reset, with the counting style \<open>toplevel\<close>
  or \<open>detailed\<close> and accepted filters, any sequence of error reports succeeds, the total
  error count is the number of lines written to \<open>stderr\<close>, and the counts per category add up to it.\<close>

theorem Error_counting:
  assumes "filters_valid st" "counting (cpp_state st) \<in> {''toplevel'', ''detailed''}" "stderr st = []"
  shows "\<exists>st'. foldR Error (st\<lparr>cpp_state := ResetErrorCounts (cpp_state st)\<rparr>) ds = Inr st' \<and>
           error_count (cpp_state st') = length (stderr st') \<and>
           category_total (cpp_state st') = error_count (cpp_state st')"
proof -
  let ?st = "st\<lparr>cpp_state := ResetErrorCounts (cpp_state st)\<rparr>"
  have i: "counts_inv ?st" using assms
    by (simp add: counts_inv_def filters_valid_def ResetErrorCounts_def category_total_def)
  then have "filters_valid ?st" by (simp add: counts_inv_def)
  then obtain st' where st': "foldR Error ?st ds = Inr st'"
    using foldR_returns [of filters_valid ds Error ?st] Error_returns by blast
  have "counts_inv st'" by (rule foldR_invariant [where P = counts_inv, OF st' i]) (rule Error_counts_inv)
  with st' show ?thesis by (auto simp: counts_inv_def)
qed

theorem Error_counting_witness:
  "\<exists>st'. foldR Error ((lint_init\<lparr>cpp_state := SetCountingStyle ''toplevel'' CppLintState_init\<rparr>)\<lparr>
            cpp_state := ResetErrorCounts (SetCountingStyle ''toplevel'' CppLintState_init)\<rparr>)
            [mk_diag ''a.cc'' 3 ''whitespace/tab'' 1 ''Tab'', mk_diag ''a.cc'' 4 ''build/include'' 0 ''Inc''] =
          Inr st' \<and> error_count (cpp_state st') = length (stderr st') \<and>
          category_total (cpp_state st') = error_count (cpp_state st')"
  using Error_counting [of "lint_init\<lparr>cpp_state := SetCountingStyle ''toplevel'' CppLintState_init\<rparr>"
      "[mk_diag ''a.cc'' 3 ''whitespace/tab'' 1 ''Tab'', mk_diag ''a.cc'' 4 ''build/include'' 0 ''Inc'']"]
  by (simp add: filters_valid_def SetCountingStyle_def CppLintState_init_def DEFAULT_FILTERS_def
      filter_ok_def py_startswith_def lint_init_def del: foldR.simps)

text \<open>The save and restore around one file: filters added between \<open>BackupFilters\<close> and
  \<open>RestoreFilters\<close>, from any number of configuration files and whether or not they are
  accepted, leave the filter list as it was.\<close>

theorem Restore_Backup_filters:
  "filters (RestoreFilters (fold (\<lambda>fs st. fst (AddFilters fs st)) cfgs (BackupFilters st))) = filters st"
proof -
  have "filters_backup (fold (\<lambda>fs st. fst (AddFilters fs st)) cfgs st1) = filters_backup st1" for st1
    by (induction cfgs arbitrary: st1) (simp_all add: AddFilters_def Let_def)
  then show ?thesis by (simp add: RestoreFilters_def BackupFilters_def)
qed

section \<open>NOLINT comments\<close>

lemma nolint_groups:
  assumes d: "drop p s = ''NOLINT('' @ cat @ CHR '')'' # post" and b: "p = 0 \<or> \<not> word_at s (p - 1)"
    and cat: "cat \<noteq> []" "CHR '')'' \<notin> set cat"
  shows "\<exists>rest. mt nolint_re s p Map.empty =
           (p + 8 + length cat, [2 \<mapsto> (p + 6, p + 8 + length cat)]) # rest"
proof -
  obtain c cs where c: "cat = c # cs" using cat(1) by (cases cat) auto
  have c': "c \<noteq> CHR '')''" "list_all (\<lambda>d. d \<notin> set '')'') cs" using cat(2) by (auto simp: c list_all_iff)
  have d6: "drop (p + 6) s = CHR ''('' # cat @ CHR '')'' # post"
    using drop_rest [of p s "''NOLINT''"] d by (simp add: eval_nat_numeral)
  have d7: "drop (Suc (p + 6)) s = c # cs @ CHR '')'' # post" using drop_Suc_rest [OF d6] by (simp add: c)
  have d8: "drop (Suc (Suc (p + 6))) s = cs @ CHR '')'' # post" by (rule drop_Suc_rest [OF d7])
  have d5: "drop (p + 5) s = CHR ''T'' # CHR ''('' # cat @ CHR '')'' # post"
    using drop_rest [of p s "''NOLIN''"] d by (simp add: eval_nat_numeral)
  have wb: "word_boundary s p" "word_boundary s (p + 6)"
  proof -
    have "word_at s p" using word_at_rest [of p s "CHR ''N''"] d
      by (simp add: is_word_def is_upper_def in_range_def)
    then show "word_boundary s p" using b by (auto simp: word_boundary_def)
    have "\<not> word_at s (p + 6)" using word_at_rest [OF d6]
      by (simp add: is_word_def is_upper_def is_lower_def is_digit_def in_range_def)
    moreover have "word_at s (p + 5)" using word_at_rest [OF d5]
      by (simp add: is_word_def is_upper_def in_range_def)
    ultimately show "word_boundary s (p + 6)" by (auto simp: word_boundary_def add.commute)
  qed
  have re: "run_end (\<lambda>d. d \<notin> set '')'') s (Suc (Suc (p + 6))) = p + 8 + length cs"
    using run_end_rest [OF d8 c'(2)] by simp
  have dr: "drop (p + 8 + length cs) s = CHR '')'' # post"
    using drop_rest [OF d8] by (simp add: add.commute add.left_commute)
  have star: "mt (RSeq (rstar (rnot '')'')) (rch CHR '')'')) s (Suc (Suc (p + 6))) g =
      [(p + 9 + length cs, g)]" for g
  proof -
    have "mt (RSeq (rstar (rnot '')'')) (rch CHR '')'')) s (Suc (Suc (p + 6))) g =
        mt (rch CHR '')'') s (p + 8 + length cs) g"
      unfolding rnot_def re [symmetric]
      by (rule mt_class_then) (auto simp: rch_def dest!: in_run)
    also have "\<dots> = [(p + 9 + length cs, g)]" using mt_chr_rest [OF dr] by (simp add: rch_def del: mt.simps(1))
    finally show ?thesis .
  qed
  have "mt nolint_category_re s (p + 6) g = [(p + 9 + length cs, g)]" for g
    using mt_chr_rest [OF d6] mt_chr_rest [OF d7] c'(1) star [of g]
    by (simp add: nolint_category_re_def rch_def rnot_def del: mt.simps(1))
  moreover have "mt (rlit ''NEXTLINE'') s (p + 6) g = []" for g by (simp add: mt_rlit d6)
  moreover have "mt (rlit ''NOLINT'') s p g = [(p + 6, g)]" for g
    by (simp add: mt_rlit d eval_nat_numeral)
  moreover have "p + 9 + length cs = p + 8 + length cat" by (simp add: c)
  ultimately show ?thesis using wb
    by (simp add: nolint_re_def ropt_def)
qed

lemma nolint_first:
  assumes s: "s = pre @ ''NOLINT('' @ cat @ CHR '')'' # post"
    and b: "pre = [] \<or> \<not> is_word (last pre)" and n: "\<not> sublist ''NOLINT'' (pre @ ''NOLIN'')"
    and cat: "cat \<noteq> []" "CHR '')'' \<notin> set cat"
  shows "\<exists>m. re_Search nolint_re s = Some m \<and> group m 1 = None \<and>
             group m 2 = Some (''('' @ cat @ '')'')"
proof -
  let ?p = "length pre" and ?e = "length pre + 8 + length cat"
  have d: "drop ?p s = ''NOLINT('' @ cat @ CHR '')'' # post" by (simp add: s)
  have "?p = 0 \<or> \<not> word_at s (?p - 1)"
    using b by (cases pre rule: rev_cases) (auto simp: word_at_def s nth_append)
  from nolint_groups [OF d this cat] obtain rest where
    mt: "mt nolint_re s ?p Map.empty = (?e, [2 \<mapsto> (?p + 6, ?e)]) # rest" by blast
  define m where "m = \<lparr>m_start = ?p, m_end = ?e, m_groups = [2 \<mapsto> (?p + 6, ?e)], m_subject = s\<rparr>"
  have "match_at nolint_re s ?p = Some m" by (simp add: match_at_def mt m_def)
  moreover have "match_at nolint_re s j = None" if "j < ?p" for j
  proof -
    have "\<not> prefix ''NOLINT'' (drop j s)"
    proof
      assume p: "prefix ''NOLINT'' (drop j s)"
      have "drop j s = drop j (pre @ ''NOLIN'') @ ''T('' @ cat @ CHR '')'' # post"
        using that by (simp add: s)
      then have "prefix (drop j (pre @ ''NOLIN'')) (drop j s)" by (rule prefixI)
      from prefix_length_prefix [OF p this] have "prefix ''NOLINT'' (drop j (pre @ ''NOLIN''))"
        using that by simp
      then have "sublist ''NOLINT'' (drop j (pre @ ''NOLIN''))" by (rule prefix_imp_sublist)
      then show False using n sublist_order.order_trans [OF _ sublist_drop] by blast
    qed
    then show ?thesis by (simp add: match_at_def nolint_re_def mt_rlit)
  qed
  ultimately have "re_Search nolint_re s = Some m"
    unfolding re_Search_def by (intro search_first [of 0 ?p]) (auto simp: s)
  moreover have "substr s (?p + 6) ?e = ''('' @ cat @ '')''" by (simp add: s substr_def)
  ultimately show ?thesis by (simp add: group_def m_def)
qed

text \<open>C20: A comment \<open>NOLINT(category)\<close> with a known category suppresses exactly that category on that
  line: afterwards an error is suppressed if and only if it was before, or has that category
  and that line.\<close>

theorem nolint_suppresses:
  assumes "raw_line = pre @ ''NOLINT('' @ cat @ CHR '')'' # post"
    "pre = [] \<or> \<not> is_word (last pre)" "\<not> sublist ''NOLINT'' (pre @ ''NOLIN'')"
    "cat \<in> set ERROR_CATEGORIES"
  shows "\<exists>st'. ParseNolintSuppressions error filename raw_line linenum st = Inr st' \<and>
           (\<forall>c l. IsErrorSuppressedByNolint st' c l \<longleftrightarrow>
              IsErrorSuppressedByNolint st c l \<or> (c = cat \<and> l = linenum))"
proof -
  have ok: "\<forall>c \<in> set ERROR_CATEGORIES. c \<noteq> [] \<and> CHR '')'' \<notin> set c \<and> c \<noteq> ''*''"
    by (simp add: ERROR_CATEGORIES_def)
  then have cat: "cat \<noteq> []" "CHR '')'' \<notin> set cat" "cat \<noteq> ''*''" using assms(4) by auto
  obtain m where m: "re_Search nolint_re raw_line = Some m" "group m 1 = None"
      "group m 2 = Some (''('' @ cat @ '')'')"
    using nolint_first [OF assms(1-3) cat(1,2)] by blast
  have sl: "py_slice (''('' @ cat @ '')'') 1 (-1) = cat"
    by (simp add: py_slice_def norm_bound_def Let_def)
  have "ParseNolintSuppressions error filename raw_line linenum st = Inr (suppress (Some cat) linenum st)"
    using m sl assms(4) cat(3)
    by (simp add: ParseNolintSuppressions_def group0_def Let_def py_startswith_def py_endswith_def)
  then show ?thesis
    by (auto simp: IsErrorSuppressedByNolint_def suppress_def split: option.splits)
qed

theorem nolint_suppresses_witness:
  "\<exists>st'. ParseNolintSuppressions Error ''a.cc'' ''int x;  // NOLINT(runtime/int)'' 5 lint_init = Inr st' \<and>
         (\<forall>c l. IsErrorSuppressedByNolint st' c l \<longleftrightarrow>
            IsErrorSuppressedByNolint lint_init c l \<or> (c = ''runtime/int'' \<and> l = 5))"
proof (rule nolint_suppresses)
  show "''int x;  // NOLINT(runtime/int)'' = ''int x;  // '' @ ''NOLINT('' @ ''runtime/int'' @ CHR '')'' # []"
    by simp
  show "''int x;  // '' = [] \<or> \<not> is_word (last ''int x;  // '')"
    by (simp add: is_word_def is_upper_def is_lower_def is_digit_def in_range_def)
  show "\<not> sublist ''NOLINT'' (''int x;  // '' @ ''NOLIN'')" by (simp add: sublist_Cons_right)
  show "''runtime/int'' \<in> set ERROR_CATEGORIES" by (simp add: ERROR_CATEGORIES_def)
qed

end
