(* ===== verification/Py_Path.thy ===== *)
theory Py_Path
  imports Py_String
begin

text \<open>
  The functions of \<open>os.path\<close> (POSIX) that the linter calls. The working directory and the
  existence of paths are arguments of the functions that need them.
\<close>

definition rfind_char :: "char \<Rightarrow> string \<Rightarrow> int" where
  "rfind_char c s = int (length s) - 1 - int (length (takeWhile (\<lambda>d. d \<noteq> c) (rev s)))"

definition rstrip_char :: "char \<Rightarrow> string \<Rightarrow> string" where
  "rstrip_char c s = rev (dropWhile (\<lambda>d. d = c) (rev s))"

text \<open>\<open>os.path.split\<close>: the part up to the last slash, without trailing slashes unless it
  consists of slashes, and the part behind it.\<close>

definition os_split :: "string \<Rightarrow> string \<times> string" where
  "os_split p =
     (let tail = rev (takeWhile (\<lambda>c. c \<noteq> CHR ''/'') (rev p));
          head = take (length p - length tail) p
      in (if list_all (\<lambda>c. c = CHR ''/'') head then head else rstrip_char CHR ''/'' head, tail))"

definition os_dirname :: "string \<Rightarrow> string" where
  "os_dirname p = fst (os_split p)"

definition os_basename :: "string \<Rightarrow> string" where
  "os_basename p = snd (os_split p)"

definition os_join :: "string \<Rightarrow> string \<Rightarrow> string" where
  "os_join a b =
     (if py_startswith b ''/'' then b
      else if a = [] \<or> py_endswith a ''/'' then a @ b
      else a @ ''/'' @ b)"

text \<open>\<open>os.path.splitext\<close>: a dot counts only behind the last slash and behind a character that
  is not a dot.\<close>

definition os_splitext :: "string \<Rightarrow> string \<times> string" where
  "os_splitext p =
     (let sep = rfind_char CHR ''/'' p; dot = rfind_char CHR ''.'' p
      in if dot > sep \<and> \<not> list_all (\<lambda>c. c = CHR ''.'') (drop (nat (sep + 1)) (take (nat dot) p))
         then (take (nat dot) p, drop (nat dot) p) else (p, []))"

text \<open>\<open>os.path.normpath\<close> and \<open>os.path.abspath\<close>.\<close>

definition norm_step :: "nat \<Rightarrow> string list \<Rightarrow> string \<Rightarrow> string list" where
  "norm_step slashes acc part =
     (if part = [] \<or> part = ''.'' then acc
      else if part \<noteq> ''..'' \<or> (slashes = 0 \<and> acc = []) \<or> (acc \<noteq> [] \<and> last acc = ''..'') then acc @ [part]
      else butlast acc)"

fun join_with :: "string \<Rightarrow> string list \<Rightarrow> string" where
  "join_with sep [] = []"
| "join_with sep [x] = x"
| "join_with sep (x # xs) = x @ sep @ join_with sep xs"

definition initial_slashes :: "string \<Rightarrow> nat" where
  "initial_slashes p =
     (if \<not> py_startswith p ''/'' then 0
      else if py_startswith p ''//'' \<and> \<not> py_startswith p ''///'' then 2 else 1)"

definition os_normpath :: "string \<Rightarrow> string" where
  "os_normpath p =
     (if p = [] then ''.''
      else let slashes = initial_slashes p;
               comps = foldl (norm_step slashes) [] (py_split ''/'' p);
               path = replicate slashes CHR ''/'' @ join_with ''/'' comps
           in if path = [] then ''.'' else path)"

definition os_abspath :: "string \<Rightarrow> string \<Rightarrow> string" where
  "os_abspath cwd p = os_normpath (if py_startswith p ''/'' then p else os_join cwd p)"

text \<open>\<open>os.path.commonprefix\<close> of two strings.\<close>

fun os_commonprefix :: "string \<Rightarrow> string \<Rightarrow> string" where
  "os_commonprefix (c # s) (d # t) = (if c = d then c # os_commonprefix s t else [])"
| "os_commonprefix s t = []"

section \<open>Facts\<close>

lemma os_split_tail: "snd (os_split (d @ ''/'' @ b)) = b" if "CHR ''/'' \<notin> set b"
proof -
  have "takeWhile (\<lambda>c. c \<noteq> CHR ''/'') (rev b @ CHR ''/'' # rev d) = rev b"
    using that by (subst takeWhile_append2) auto
  then show ?thesis by (simp add: os_split_def Let_def)
qed

lemma os_split_no_slash: "CHR ''/'' \<notin> set b \<Longrightarrow> os_split b = ([], b)"
proof -
  assume "CHR ''/'' \<notin> set b"
  then have "takeWhile (\<lambda>c. c \<noteq> CHR ''/'') (rev b) = rev b" by (subst takeWhile_eq_all_conv) auto
  then show ?thesis by (simp only: os_split_def Let_def) simp
qed

lemma os_split_dir:
  assumes "CHR ''/'' \<notin> set b" "d \<noteq> []" "last d \<noteq> CHR ''/''"
  shows "os_split (d @ ''/'' @ b) = (d, b)"
proof -
  obtain d' c where d: "d = d' @ [c]" "c \<noteq> CHR ''/''"
    using assms(2,3) by (cases d rule: rev_cases) auto
  have tw: "takeWhile (\<lambda>c. c \<noteq> CHR ''/'') (rev b @ CHR ''/'' # c # rev d') = rev b"
    using assms(1) by (subst takeWhile_append2) auto
  show ?thesis using d(2) by (simp add: os_split_def Let_def tw d(1) rstrip_char_def)
qed

lemma rstrip_char_prefix: "prefix (rstrip_char c s) s"
  using suffix_dropWhile [of "\<lambda>d. d = c" "rev s"] by (simp add: rstrip_char_def suffix_to_prefix)

lemma os_dirname_prefix: "prefix (os_dirname p) p"
  using prefix_order.order_trans [OF rstrip_char_prefix take_is_prefix]
  by (auto simp: os_dirname_def os_split_def Let_def take_is_prefix)

lemma os_dirname_shorter: "os_dirname p \<noteq> p \<Longrightarrow> length (os_dirname p) < length p"
  using os_dirname_prefix [of p] prefix_length_less [of "os_dirname p" p]
  by (simp add: strict_prefix_def)

lemma os_commonprefix_prefix: "prefix s t \<Longrightarrow> os_commonprefix s t = s"
proof (induction s arbitrary: t)
  case (Cons c s)
  then show ?case by (cases t) auto
qed simp

end
