(* ===== verification/Lint_FileInfo.thy ===== *)
theory Lint_FileInfo
  imports Py_Path Py_Regex
begin

text \<open>
  \<open>FileInfo\<close> and the file-name helpers of \<open>cpplint.py\<close>. \<open>RepositoryName\<close> walks up the directory
  tree; its first loop, which follows \<open>.svn\<close> directories, need not end, so it is a
  \<open>partial_function\<close> and \<open>None\<close> means that the call does not return. Shown: it returns
  whenever no \<open>.svn\<close> entry exists at a root of the tree, its result is a suffix of the full name, and it
  does not return when every directory up to the root has one.
\<close>

text \<open>What the code asks the operating system.\<close>

record path_env =
  cwd :: string
  exists :: "string \<Rightarrow> bool"

definition IsSourceExtension :: "string \<Rightarrow> bool" where
  "IsSourceExtension s \<longleftrightarrow> s \<in> {''c'', ''cc'', ''cpp'', ''cxx''}"

definition FullName :: "path_env \<Rightarrow> string \<Rightarrow> string" where
  "FullName env filename = py_replace [backslash] ''/'' (os_abspath (cwd env) filename)"

partial_function (option) svn_loop :: "(string \<Rightarrow> bool) \<Rightarrow> string \<Rightarrow> string \<Rightarrow> string option" where
  "svn_loop ex root_dir one_up_dir =
     (if ex (os_join one_up_dir ''.svn'')
      then svn_loop ex (os_dirname root_dir) (os_dirname one_up_dir)
      else Some root_dir)"

definition is_checkout :: "(string \<Rightarrow> bool) \<Rightarrow> string \<Rightarrow> bool" where
  "is_checkout ex dir \<longleftrightarrow>
     ex (os_join dir ''.git'') \<or> ex (os_join dir ''.hg'') \<or> ex (os_join dir ''.svn'')"

function checkout_loop :: "(string \<Rightarrow> bool) \<Rightarrow> string \<Rightarrow> string \<Rightarrow> string" where
  "checkout_loop ex current_dir root_dir =
     (if current_dir \<noteq> os_dirname current_dir
      then checkout_loop ex (os_dirname current_dir)
             (if is_checkout ex current_dir then current_dir else root_dir)
      else root_dir)"
  by pat_completeness auto
termination
  by (relation "measure (\<lambda>(ex, c, r). length c)") (auto intro: os_dirname_shorter)

declare checkout_loop.simps [simp del]

definition RepositoryName :: "path_env \<Rightarrow> string \<Rightarrow> string option" where
  "RepositoryName env filename =
     (let fullname = FullName env filename; ex = exists env
      in if ex fullname then
           let project_dir = os_dirname fullname
           in if ex (os_join project_dir ''.svn'') then
                map_option (\<lambda>root_dir. drop (length (os_commonprefix root_dir project_dir) + 1) fullname)
                  (svn_loop ex project_dir (os_dirname project_dir))
              else
                let root_dir = checkout_loop ex project_dir project_dir
                in if is_checkout ex root_dir
                   then Some (drop (length (os_commonprefix root_dir project_dir) + 1) fullname)
                   else Some fullname
         else Some fullname)"

text \<open>\<open>Split\<close>, \<open>BaseName\<close>, \<open>Extension\<close>, \<open>NoExtension\<close>, \<open>IsSource\<close> on the repository name.\<close>

definition FileInfo_Split :: "string \<Rightarrow> string \<times> string \<times> string" where
  "FileInfo_Split googlename =
     (let (project, rest) = os_split googlename; (base, ext) = os_splitext rest in (project, base, ext))"

definition BaseName :: "string \<Rightarrow> string" where
  "BaseName googlename = fst (snd (FileInfo_Split googlename))"

definition Extension :: "string \<Rightarrow> string" where
  "Extension googlename = snd (snd (FileInfo_Split googlename))"

definition NoExtension :: "string \<Rightarrow> string" where
  "NoExtension googlename = (let (d, b, e) = FileInfo_Split googlename in d @ ''/'' @ b)"

definition IsSource :: "string \<Rightarrow> bool" where
  "IsSource googlename \<longleftrightarrow> IsSourceExtension (drop 1 (Extension googlename))"

definition TEST_FILE_SUFFIX :: re where
  "TEST_FILE_SUFFIX = RSeq (RGroup 1 (ralt [rlit ''_test'', rlit ''_unittest'', rlit ''_regtest''])) REol"

text \<open>\<open>_DropCommonSuffixes\<close>\<close>

definition COMMON_SUFFIXES :: "string list" where
  "COMMON_SUFFIXES = [''test.cc'', ''regtest.cc'', ''unittest.cc'', ''inl.h'', ''impl.h'', ''internal.h'']"

definition has_common_suffix :: "string \<Rightarrow> string \<Rightarrow> bool" where
  "has_common_suffix filename suf \<longleftrightarrow>
     py_endswith filename suf \<and> length filename > length suf \<and>
     filename ! (length filename - length suf - 1) \<in> {CHR ''-'', CHR ''_''}"

definition DropCommonSuffixes :: "string \<Rightarrow> string" where
  "DropCommonSuffixes filename =
     (case find (has_common_suffix filename) COMMON_SUFFIXES of
        Some suf \<Rightarrow> take (length filename - length suf - 1) filename
      | None \<Rightarrow> fst (os_splitext filename))"

text \<open>\<open>FilesBelongToSameModule\<close>; the repository name of the source file is an argument, since
  computing it may not return.\<close>

definition drop_end :: "nat \<Rightarrow> string \<Rightarrow> string" where
  "drop_end n s = (if n = 0 then [] else take (length s - n) s)"

definition merge_dirs :: "string \<Rightarrow> string" where
  "merge_dirs f = py_replace ''/internal/'' ''/'' (py_replace ''/public/'' ''/'' f)"

definition FilesBelongToSameModule :: "string \<Rightarrow> string \<Rightarrow> string \<Rightarrow> bool \<times> string" where
  "FilesBelongToSameModule googlename filename_cc filename_h =
     (if \<not> IsSource googlename then (False, [])
      else
        let cc1 = drop_end (length (Extension googlename)) filename_cc;
            cc2 = (case re_Search TEST_FILE_SUFFIX (BaseName googlename) of
                     None \<Rightarrow> cc1 | Some m \<Rightarrow> drop_end (length (group0 m 1)) cc1);
            cc = merge_dirs cc2
        in if \<not> py_endswith filename_h ''.h'' then (False, [])
           else
             let h1 = drop_end 2 filename_h;
                 h2 = (if py_endswith h1 ''-inl'' then drop_end 4 h1 else h1);
                 h = merge_dirs h2
             in if py_endswith cc h then (True, drop_end (length h) cc) else (False, []))"

section \<open>Properties\<close>

lemma svn_loop_returns:
  assumes "\<And>p. os_dirname p = p \<Longrightarrow> \<not> ex (os_join p ''.svn'')"
  shows "\<exists>r. svn_loop ex root up = Some r"
proof (induction "length up" arbitrary: root up rule: less_induct)
  case less
  show ?case
  proof (cases "ex (os_join up ''.svn'')")
    case True
    then have "os_dirname up \<noteq> up" using assms by blast
    then have "\<exists>r. svn_loop ex (os_dirname root) (os_dirname up) = Some r"
      by (intro less) (rule os_dirname_shorter)
    then show ?thesis using True by (subst svn_loop.simps) simp
  next
    case False
    then show ?thesis by (subst svn_loop.simps) simp
  qed
qed

lemma svn_loop_stops:
  assumes "svn_loop ex root up = Some r"
  shows "\<exists>n. \<not> ex (os_join ((os_dirname ^^ n) up) ''.svn'')"
  using assms
proof (rule svn_loop.raw_induct [rotated])
  fix f ex root up r
  assume IH: "\<And>ex root up r. f ex root up = Some r \<Longrightarrow> \<exists>n. \<not> ex (os_join ((os_dirname ^^ n) up) ''.svn'')"
    and step: "(if ex (os_join up ''.svn'') then f ex (os_dirname root) (os_dirname up) else Some root) = Some r"
  show "\<exists>n. \<not> ex (os_join ((os_dirname ^^ n) up) ''.svn'')"
  proof (cases "ex (os_join up ''.svn'')")
    case True
    then have "f ex (os_dirname root) (os_dirname up) = Some r" using step by simp
    then obtain n where "\<not> ex (os_join ((os_dirname ^^ n) (os_dirname up)) ''.svn'')" using IH by blast
    then show ?thesis by (intro exI [of _ "Suc n"]) (simp add: funpow_swap1)
  next
    case False
    then show ?thesis by (intro exI [of _ 0]) simp
  qed
qed

text \<open>\<open>RepositoryName\<close> returns whenever no directory that is its own parent contains a \<open>.svn\<close>
  entry, and what it returns is a suffix of the full name.\<close>

theorem RepositoryName_suffix:
  assumes "\<forall>p. os_dirname p = p \<longrightarrow> \<not> exists env (os_join p ''.svn'')"
  shows "\<exists>r. RepositoryName env filename = Some r \<and> suffix r (FullName env filename)"
proof -
  let ?full = "FullName env filename"
  have "\<exists>r. svn_loop (exists env) (os_dirname ?full) (os_dirname (os_dirname ?full)) = Some r"
    by (rule svn_loop_returns) (use assms in blast)
  then obtain r where "svn_loop (exists env) (os_dirname ?full) (os_dirname (os_dirname ?full)) = Some r" ..
  then have "\<exists>k. RepositoryName env filename = Some (drop k ?full)"
    unfolding RepositoryName_def Let_def by (auto intro: exI [of _ 0])
  then show ?thesis using suffix_drop by blast
qed

theorem RepositoryName_suffix_witness:
  "\<exists>r. RepositoryName \<lparr>cwd = ''/w'', exists = (\<lambda>p. p = ''/w/src/a.cc'' \<or> p = ''/w/.git'')\<rparr> ''src/a.cc'' = Some r \<and>
       suffix r ''/w/src/a.cc''"
proof -
  let ?env = "\<lparr>cwd = ''/w'', exists = (\<lambda>p. p = ''/w/src/a.cc'' \<or> p = ''/w/.git'')\<rparr>"
  have n: "last (os_join p ''.svn'') = CHR ''n''" for p by (simp add: os_join_def py_startswith_def)
  have "s \<noteq> ''/w/src/a.cc'' \<and> s \<noteq> ''/w/.git''" if "last s = CHR ''n''" for s
    using that by auto
  from this [OF n] have "\<forall>p. os_dirname p = p \<longrightarrow> \<not> exists ?env (os_join p ''.svn'')" by simp
  from RepositoryName_suffix [OF this, of "''src/a.cc''"]
  have "\<exists>r. RepositoryName ?env ''src/a.cc'' = Some r \<and> suffix r (FullName ?env ''src/a.cc'')" .
  moreover have "FullName ?env ''src/a.cc'' = ''/w/src/a.cc''" by code_simp
  ultimately show ?thesis by (simp only:)
qed

text \<open>C39: The first loop of \<open>RepositoryName\<close> never ends when the file exists and its directory and every
  directory above it, the root included, has a \<open>.svn\<close> entry: the root is its own parent.\<close>

theorem RepositoryName_diverges:
  assumes "exists env (FullName env filename)"
    "\<forall>n. exists env (os_join ((os_dirname ^^ n) (os_dirname (FullName env filename))) ''.svn'')"
  shows "RepositoryName env filename = None"
proof -
  let ?d = "os_dirname (FullName env filename)"
  have "svn_loop (exists env) ?d (os_dirname ?d) = None"
  proof (rule ccontr)
    assume "svn_loop (exists env) ?d (os_dirname ?d) \<noteq> None"
    then obtain n where "\<not> exists env (os_join ((os_dirname ^^ n) (os_dirname ?d)) ''.svn'')"
      using svn_loop_stops by blast
    then show False using assms(2) spec [OF assms(2), of "Suc n"] by (simp add: funpow_swap1)
  qed
  moreover have "exists env (os_join ?d ''.svn'')" using assms(2) [THEN spec, of 0] by simp
  ultimately show ?thesis using assms(1) by (simp add: RepositoryName_def Let_def)
qed

theorem RepositoryName_diverges_witness:
  "RepositoryName \<lparr>cwd = ''/'', exists = (\<lambda>p. True)\<rparr> ''a.cc'' = None"
  by (rule RepositoryName_diverges) simp_all

text \<open>\<open>_DropCommonSuffixes\<close> removes each of the common suffixes together with the dash or underscore
  before it.\<close>

theorem DropCommonSuffixes_suffix:
  assumes "suf \<in> set COMMON_SUFFIXES" "c \<in> {CHR ''-'', CHR ''_''}"
  shows "DropCommonSuffixes (stem @ c # suf) = stem"
proof -
  have "suf \<in> {''test.cc'', ''regtest.cc'', ''unittest.cc'', ''inl.h'', ''impl.h'', ''internal.h''}"
    using assms(1) by (simp add: COMMON_SUFFIXES_def)
  then show ?thesis using assms(2)
    by (elim insertE emptyE)
       (simp_all add: DropCommonSuffixes_def COMMON_SUFFIXES_def has_common_suffix_def py_endswith_def
          nth_append)
qed

theorem DropCommonSuffixes_suffix_witness:
  "DropCommonSuffixes (''foo/foo'' @ CHR ''_'' # ''unittest.cc'') = ''foo/foo''"
  by (rule DropCommonSuffixes_suffix) (simp_all add: COMMON_SUFFIXES_def)

end
