(* ===== verification/Lint_Include.thy ===== *)
theory Lint_Include
  imports Lint_State Lint_FileInfo
begin

text \<open>
  The include checks of \<open>cpplint.py\<close>: \<open>_IncludeState\<close>, the classification of a header,
  \<open>CheckIncludeLine\<close> and \<open>CheckHeaderFileIncluded\<close>. Shown: the section automaton accepts exactly the
  sequences own headers, C headers, C++ headers, others; sections only move forward
  between preprocessor directives; the lookup of earlier includes; the checks never raise for
  a handler that does not.
\<close>

section \<open>Constants\<close>

definition CPP_HEADERS :: "string list" where
  "CPP_HEADERS =
    [''algobase.h'', ''algo.h'', ''alloc.h'', ''builtinbuf.h'', ''bvector.h'', ''complex.h'',
     ''defalloc.h'', ''deque.h'', ''editbuf.h'', ''fstream.h'', ''function.h'', ''hash_map'',
     ''hash_map.h'', ''hash_set'', ''hash_set.h'', ''hashtable.h'', ''heap.h'', ''indstream.h'',
     ''iomanip.h'', ''iostream.h'', ''istream.h'', ''iterator.h'', ''list.h'', ''map.h'',
     ''multimap.h'', ''multiset.h'', ''ostream.h'', ''pair.h'', ''parsestream.h'', ''pfstream.h'',
     ''procbuf.h'', ''pthread_alloc'', ''pthread_alloc.h'', ''rope'', ''rope.h'', ''ropeimpl.h'',
     ''set.h'', ''slist'', ''slist.h'', ''stack.h'', ''stdiostream.h'', ''stl_alloc.h'',
     ''stl_relops.h'', ''streambuf.h'', ''stream.h'', ''strfile.h'', ''strstream.h'',
     ''tempbuf.h'', ''tree.h'', ''type_traits.h'', ''vector.h'', ''algorithm'', ''array'',
     ''atomic'', ''bitset'', ''chrono'', ''codecvt'', ''complex'', ''condition_variable'',
     ''deque'', ''exception'', ''forward_list'', ''fstream'', ''functional'', ''future'',
     ''initializer_list'', ''iomanip'', ''ios'', ''iosfwd'', ''iostream'', ''istream'',
     ''iterator'', ''limits'', ''list'', ''locale'', ''map'', ''memory'', ''mutex'', ''new'',
     ''numeric'', ''ostream'', ''queue'', ''random'', ''ratio'', ''regex'', ''scoped_allocator'',
     ''set'', ''sstream'', ''stack'', ''stdexcept'', ''streambuf'', ''string'', ''strstream'',
     ''system_error'', ''thread'', ''tuple'', ''typeindex'', ''typeinfo'', ''type_traits'',
     ''unordered_map'', ''unordered_set'', ''utility'', ''valarray'', ''vector'', ''cassert'',
     ''ccomplex'', ''cctype'', ''cerrno'', ''cfenv'', ''cfloat'', ''cinttypes'', ''ciso646'',
     ''climits'', ''clocale'', ''cmath'', ''csetjmp'', ''csignal'', ''cstdalign'', ''cstdarg'',
     ''cstdbool'', ''cstddef'', ''cstdint'', ''cstdio'', ''cstdlib'', ''cstring'', ''ctgmath'',
     ''ctime'', ''cuchar'', ''cwchar'', ''cwctype'']"

text \<open>\<open>_C_SYS_HEADER\<close> to \<open>_OTHER_HEADER\<close>, and the sections of \<open>_IncludeState\<close>.\<close>

datatype header_type = C_SYS_HEADER | CPP_SYS_HEADER | LIKELY_MY_HEADER | POSSIBLE_MY_HEADER | OTHER_HEADER

abbreviation (input) INITIAL_SECTION :: nat where "INITIAL_SECTION \<equiv> 0"
abbreviation (input) MY_H_SECTION :: nat where "MY_H_SECTION \<equiv> 1"
abbreviation (input) C_SECTION :: nat where "C_SECTION \<equiv> 2"
abbreviation (input) CPP_SECTION :: nat where "CPP_SECTION \<equiv> 3"
abbreviation (input) OTHER_H_SECTION :: nat where "OTHER_H_SECTION \<equiv> 4"

fun TYPE_NAMES :: "header_type \<Rightarrow> string" where
  "TYPE_NAMES C_SYS_HEADER = ''C system header''"
| "TYPE_NAMES CPP_SYS_HEADER = ''C++ system header''"
| "TYPE_NAMES LIKELY_MY_HEADER = ''header this file implements''"
| "TYPE_NAMES POSSIBLE_MY_HEADER = ''header this file may implement''"
| "TYPE_NAMES OTHER_HEADER = ''other header''"

definition SECTION_NAMES :: "nat \<Rightarrow> string" where
  "SECTION_NAMES s =
     [''... nothing. (This can'' @ [squote] @ ''t be an error.)'', ''a header this file implements'',
      ''C system header'', ''C++ system header'', ''other header''] ! s"

section \<open>The include state\<close>

record include_state =
  include_list :: "(string \<times> int) list list"
  inc_section :: nat
  last_header :: string

definition FindHeader :: "string \<Rightarrow> include_state \<Rightarrow> int" where
  "FindHeader header st =
     (case find (\<lambda>f. fst f = header) (concat (include_list st)) of None \<Rightarrow> -1 | Some f \<Rightarrow> snd f)"

definition ResetSection :: "string \<Rightarrow> include_state \<Rightarrow> include_state" where
  "ResetSection directive st =
     (let st1 = st\<lparr>inc_section := INITIAL_SECTION, last_header := []\<rparr>
      in if directive \<in> {''if'', ''ifdef'', ''ifndef''} then st1\<lparr>include_list := include_list st1 @ [[]]\<rparr>
         else if directive \<in> {''else'', ''elif''} then
           st1\<lparr>include_list := (include_list st1)[length (include_list st1) - 1 := []]\<rparr>
         else st1)"

definition IncludeState_init :: include_state where
  "IncludeState_init = ResetSection [] \<lparr>include_list = [[]], inc_section = 0, last_header = []\<rparr>"

definition SetLastHeader :: "string \<Rightarrow> include_state \<Rightarrow> include_state" where
  "SetLastHeader path st = st\<lparr>last_header := path\<rparr>"

definition CanonicalizeAlphabeticalOrder :: "string \<Rightarrow> string" where
  "CanonicalizeAlphabeticalOrder path = py_lower (py_replace ''-'' ''_'' (py_replace ''-inl.h'' ''.h'' path))"

text \<open>\<open>elided[linenum - 1]\<close>, with Python's negative index for line 0.\<close>

definition py_index :: "'a list \<Rightarrow> int \<Rightarrow> 'a res" where
  "py_index xs i =
     (let j = (if i < 0 then i + int (length xs) else i)
      in if 0 \<le> j \<and> j < int (length xs) then Inr (xs ! nat j) else Inl IndexError)"

definition include_start_re :: re where
  "include_start_re = rseq [RBol, rstar rspace, rch CHR ''#'', rstar rspace, rlit ''include'', RWordB]"

definition IsInAlphabeticalOrder :: "string list \<Rightarrow> int \<Rightarrow> string \<Rightarrow> include_state \<Rightarrow> bool res" where
  "IsInAlphabeticalOrder elided linenum path st =
     (if str_less path (last_header st) then
        bindR (py_index elided (linenum - 1)) (\<lambda>prev. Inr (re_Match include_start_re prev = None))
      else Inr True)"

definition CheckNextIncludeOrder :: "header_type \<Rightarrow> include_state \<Rightarrow> include_state \<times> string" where
  "CheckNextIncludeOrder header_type st =
     (let error_message = ''Found '' @ TYPE_NAMES header_type @ '' after '' @ SECTION_NAMES (inc_section st);
          last_section = inc_section st;
          proceed = (\<lambda>s. (if last_section \<noteq> s then st\<lparr>inc_section := s, last_header := []\<rparr>
                          else st\<lparr>inc_section := s\<rparr>, []));
          refuse = (st\<lparr>last_header := []\<rparr>, error_message)
      in case header_type of
           C_SYS_HEADER \<Rightarrow> if inc_section st \<le> C_SECTION then proceed C_SECTION else refuse
         | CPP_SYS_HEADER \<Rightarrow> if inc_section st \<le> CPP_SECTION then proceed CPP_SECTION else refuse
         | LIKELY_MY_HEADER \<Rightarrow>
             if inc_section st \<le> MY_H_SECTION then proceed MY_H_SECTION else proceed OTHER_H_SECTION
         | POSSIBLE_MY_HEADER \<Rightarrow>
             if inc_section st \<le> MY_H_SECTION then proceed MY_H_SECTION else proceed OTHER_H_SECTION
         | OTHER_HEADER \<Rightarrow> proceed OTHER_H_SECTION)"

section \<open>Classification and the checks\<close>

definition FIRST_COMPONENT :: re where
  "FIRST_COMPONENT = RSeq RBol (rplus (rnot ''-_.''))"

definition first_component :: "string \<Rightarrow> string option" where
  "first_component base = map_option (\<lambda>m. substr base (m_start m) (m_end m)) (re_Match FIRST_COMPONENT base)"

text \<open>\<open>_ClassifyInclude\<close>; the first argument is \<open>fileinfo.RepositoryName()\<close>.\<close>

definition ClassifyInclude :: "string \<Rightarrow> string \<Rightarrow> bool \<Rightarrow> header_type" where
  "ClassifyInclude repository_name include is_system =
     (if is_system then
        if include \<in> set CPP_HEADERS then CPP_SYS_HEADER else C_SYS_HEADER
      else
        let (target_dir, target_base) = os_split (DropCommonSuffixes repository_name);
            (include_dir, include_base) = os_split (DropCommonSuffixes include)
        in if target_base = include_base \<and>
              (include_dir = target_dir \<or> include_dir = os_normpath (target_dir @ ''/../public''))
           then LIKELY_MY_HEADER
           else if first_component target_base \<noteq> None \<and>
                   first_component target_base = first_component include_base
           then POSSIBLE_MY_HEADER
           else OTHER_HEADER)"

definition RE_PATTERN_INCLUDE :: re where
  "RE_PATTERN_INCLUDE = rseq [RBol, rstar rspace, rch CHR ''#'', rstar rspace, rlit ''include'', rstar rspace,
     RGroup 1 (rset [CHR ''<'', dquote]), RGroup 2 (rstar (rnot [CHR ''>'', dquote])),
     rset [CHR ''>'', dquote], rstar rany, REol]"

definition include_dir_re :: re where
  "include_dir_re = rseq [rlit ''#include'', rstar rspace, rch dquote,
     RGroup 1 (rseq [rplus (rnot ''/''), rlit ''.h'']), rch dquote]"

definition THIRD_PARTY_HEADERS_PATTERN :: re where
  "THIRD_PARTY_HEADERS_PATTERN = rseq [RBol,
     ralt [rseq [rstar (rnot ''/''), RChr is_upper, rstar (rnot ''/''), rlit ''.h''],
           rlit ''lua.h'', rlit ''lauxlib.h'', rlit ''lualib.h''], REol]"

definition add_include :: "string \<Rightarrow> int \<Rightarrow> include_state \<Rightarrow> include_state" where
  "add_include include linenum st =
     (let xs = include_list st; k = length xs - 1
      in st\<lparr>include_list := xs[k := (xs ! k) @ [(include, linenum)]]\<rparr>)"

definition report_if :: "bool \<Rightarrow> handler \<Rightarrow> diag \<Rightarrow> lint \<Rightarrow> lint res" where
  "report_if b error d lst = (if b then error lst d else Inr lst)"

text \<open>The branch of \<open>CheckIncludeLine\<close> for a header that is neither a duplicate, nor a foreign
  source file, nor third-party code.\<close>

definition check_new_include ::
  "handler \<Rightarrow> string \<Rightarrow> string \<Rightarrow> string list \<Rightarrow> int \<Rightarrow> string \<Rightarrow> bool \<Rightarrow> lint \<times> include_state
     \<Rightarrow> (lint \<times> include_state) res" where
  "check_new_include error filename repository_name elided linenum include is_system =
     (\<lambda>(lst, inc).
       let inc1 = add_include include linenum inc;
           (inc2, error_message) = CheckNextIncludeOrder (ClassifyInclude repository_name include is_system) inc1;
           canonical_include = CanonicalizeAlphabeticalOrder include
       in bindR (report_if (error_message \<noteq> []) error
                  (mk_diag filename linenum ''build/include_order'' 4
                    (error_message @ ''. Should be: '' @ BaseName repository_name @
                     ''.h, c system, c++ system, other.'')) lst) (\<lambda>lst1.
          bindR (IsInAlphabeticalOrder elided linenum canonical_include inc2) (\<lambda>ordered.
          bindR (report_if (\<not> ordered) error
                  (mk_diag filename linenum ''build/include_alpha'' 4
                    (''Include '' @ [dquote] @ include @ [dquote] @ '' not in alphabetical order'')) lst1) (\<lambda>lst2.
          Inr (lst2, SetLastHeader canonical_include inc2)))))"

text \<open>\<open>CheckIncludeLine\<close>; \<open>line\<close> is \<open>clean_lines.lines[linenum]\<close>.\<close>

definition CheckIncludeLine ::
  "handler \<Rightarrow> string \<Rightarrow> string \<Rightarrow> string \<Rightarrow> string list \<Rightarrow> int \<Rightarrow> lint \<times> include_state
     \<Rightarrow> (lint \<times> include_state) res" where
  "CheckIncludeLine error filename repository_name line elided linenum =
     (\<lambda>(lst, inc).
       bindR (report_if (case re_Match include_dir_re line of None \<Rightarrow> False
                         | Some m \<Rightarrow> re_Match THIRD_PARTY_HEADERS_PATTERN (group0 m 1) = None) error
                (mk_diag filename linenum ''build/include'' 4 ''Include the directory when naming .h files'') lst)
        (\<lambda>lst1.
       case re_Search RE_PATTERN_INCLUDE line of
         None \<Rightarrow> Inr (lst1, inc)
       | Some m \<Rightarrow>
           let include = group0 m 2;
               is_system = (group0 m 1 = ''<'');
               duplicate_line = FindHeader include inc
           in if duplicate_line \<ge> 0 then
                bindR (error lst1 (mk_diag filename linenum ''build/include'' 4
                         ([dquote] @ include @ [dquote] @ '' already included at '' @ filename @ '':'' @
                          py_str_int duplicate_line))) (\<lambda>lst2. Inr (lst2, inc))
              else if py_endswith include ''.cc'' \<and> os_dirname repository_name \<noteq> os_dirname include then
                bindR (error lst1 (mk_diag filename linenum ''build/include'' 4
                         ''Do not include .cc files from other packages'')) (\<lambda>lst2. Inr (lst2, inc))
              else if re_Match THIRD_PARTY_HEADERS_PATTERN include = None then
                check_new_include error filename repository_name elided linenum include is_system (lst1, inc)
              else Inr (lst1, inc)))"

text \<open>\<open>CheckHeaderFileIncluded\<close>: the scan over the include list returns \<open>None\<close> when the header
  was found, and the line of the first include otherwise.\<close>

fun scan_includes :: "string \<Rightarrow> int \<Rightarrow> (string \<times> int) list \<Rightarrow> int option" where
  "scan_includes headername first [] = Some first"
| "scan_includes headername first ((f, l) # fs) =
     (if py_in headername f \<or> py_in f headername then None
      else scan_includes headername (if first = 0 then l else first) fs)"

definition CheckHeaderFileIncluded ::
  "handler \<Rightarrow> (string \<Rightarrow> bool) \<Rightarrow> (string \<Rightarrow> string) \<Rightarrow> string \<Rightarrow> include_state \<Rightarrow> lint \<Rightarrow> lint res" where
  "CheckHeaderFileIncluded error ex repository_name filename inc lst =
     (if re_Search TEST_FILE_SUFFIX (BaseName (repository_name filename)) \<noteq> None then Inr lst
      else
        let headerfile = take (length filename - length (Extension (repository_name filename))) filename @ ''.h''
        in if \<not> ex headerfile then Inr lst
           else
             let headername = repository_name headerfile
             in case scan_includes headername 0 (concat (include_list inc)) of
                  None \<Rightarrow> Inr lst
                | Some first_include \<Rightarrow>
                    error lst (mk_diag filename first_include ''build/include'' 5
                      (repository_name filename @ '' should include its header file '' @ headername)))"

section \<open>Include order\<close>

text \<open>The messages for a sequence of headers without preprocessor directives between them.\<close>

fun order_messages :: "header_type list \<Rightarrow> include_state \<Rightarrow> string list" where
  "order_messages [] st = []"
| "order_messages (h # hs) st =
     (let (st1, msg) = CheckNextIncludeOrder h st in msg # order_messages hs st1)"

definition is_my :: "header_type \<Rightarrow> bool" where
  "is_my h \<longleftrightarrow> h = LIKELY_MY_HEADER \<or> h = POSSIBLE_MY_HEADER"

text \<open>Own headers, then C headers, then C++ headers, then own and other headers in any order.\<close>

definition well_ordered :: "header_type list \<Rightarrow> bool" where
  "well_ordered hs \<longleftrightarrow>
     list_all (\<lambda>h. h \<noteq> C_SYS_HEADER \<and> h \<noteq> CPP_SYS_HEADER)
       (dropWhile (\<lambda>h. h = CPP_SYS_HEADER) (dropWhile (\<lambda>h. h = C_SYS_HEADER) (dropWhile is_my hs)))"

abbreviation all_quiet :: "header_type list \<Rightarrow> include_state \<Rightarrow> bool" where
  "all_quiet hs st \<equiv> list_all (\<lambda>m. m = []) (order_messages hs st)"

lemmas order_defs = CheckNextIncludeOrder_def Let_def

lemma quiet_other:
  "inc_section st = OTHER_H_SECTION \<Longrightarrow>
   all_quiet hs st \<longleftrightarrow> list_all (\<lambda>h. h \<noteq> C_SYS_HEADER \<and> h \<noteq> CPP_SYS_HEADER) hs"
proof (induction hs arbitrary: st)
  case (Cons h hs)
  then show ?case by (cases h) (auto simp: order_defs)
qed simp

lemma quiet_cpp:
  "inc_section st = CPP_SECTION \<Longrightarrow>
   all_quiet hs st \<longleftrightarrow>
     list_all (\<lambda>h. h \<noteq> C_SYS_HEADER \<and> h \<noteq> CPP_SYS_HEADER) (dropWhile (\<lambda>h. h = CPP_SYS_HEADER) hs)"
proof (induction hs arbitrary: st)
  case (Cons h hs)
  then show ?case by (cases h) (auto simp: order_defs quiet_other)
qed simp

lemma quiet_c:
  "inc_section st = C_SECTION \<Longrightarrow>
   all_quiet hs st \<longleftrightarrow>
     list_all (\<lambda>h. h \<noteq> C_SYS_HEADER \<and> h \<noteq> CPP_SYS_HEADER)
       (dropWhile (\<lambda>h. h = CPP_SYS_HEADER) (dropWhile (\<lambda>h. h = C_SYS_HEADER) hs))"
proof (induction hs arbitrary: st)
  case (Cons h hs)
  then show ?case by (cases h) (auto simp: order_defs quiet_other quiet_cpp)
qed simp

lemma quiet_my: "inc_section st \<le> MY_H_SECTION \<Longrightarrow> all_quiet hs st \<longleftrightarrow> well_ordered hs"
proof (induction hs arbitrary: st)
  case (Cons h hs)
  then show ?case
    by (cases h) (auto simp: order_defs quiet_other quiet_cpp quiet_c well_ordered_def is_my_def)
qed (simp add: well_ordered_def)

text \<open>C17: The include order check complains about no header of a sequence exactly when the sequence
  consists of own headers, then C system headers, then C++ system headers, then other headers,
  among which own headers may appear again: the automaton files an own header that comes after
  system headers under the other headers, at whatever place among them, although the comment in
  \<open>CheckIncludeLine\<close> gives it a place before them.\<close>

theorem include_order_accepts:
  "list_all (\<lambda>m. m = []) (order_messages hs (ResetSection directive st)) \<longleftrightarrow> well_ordered hs"
  by (rule quiet_my) (simp add: ResetSection_def Let_def)

section \<open>Reachable include states\<close>

inductive inc_step :: "include_state \<Rightarrow> include_state \<Rightarrow> bool" where
  directive: "inc_step st (ResetSection d st)"
| ordered: "inc_step st (fst (CheckNextIncludeOrder h st))"
| included: "inc_step st (add_include f l st)"
| remembered: "inc_step st (SetLastHeader p st)"

inductive inc_reachable :: "include_state \<Rightarrow> bool" where
  start: "inc_reachable IncludeState_init"
| step: "inc_reachable st \<Longrightarrow> inc_step st st' \<Longrightarrow> inc_reachable st'"

inductive_cases inc_stepE: "inc_step st st'"

definition inc_inv :: "include_state \<Rightarrow> bool" where
  "inc_inv st \<longleftrightarrow> include_list st \<noteq> [] \<and> inc_section st \<le> OTHER_H_SECTION"

lemma inc_inv_ResetSection [inv_intros]: "inc_inv st \<Longrightarrow> inc_inv (ResetSection d st)"
  by (auto simp: inc_inv_def ResetSection_def Let_def)

lemma inc_inv_order [inv_intros]: "inc_inv st \<Longrightarrow> inc_inv (fst (CheckNextIncludeOrder h st))"
  by (cases h) (auto simp: inc_inv_def order_defs)

lemma inc_inv_add [inv_intros]: "inc_inv st \<Longrightarrow> inc_inv (add_include f l st)"
  by (auto simp: inc_inv_def add_include_def Let_def)

lemma inc_inv_last [inv_intros]: "inc_inv st \<Longrightarrow> inc_inv (SetLastHeader p st)"
  by (auto simp: inc_inv_def SetLastHeader_def)

lemma reachable_inv: "inc_reachable st \<Longrightarrow> inc_inv st"
proof (induction rule: inc_reachable.induct)
  case start
  then show ?case by (simp add: inc_inv_def IncludeState_init_def ResetSection_def Let_def)
next
  case (step st st')
  then show ?case by (auto elim!: inc_stepE intro: inv_intros)
qed

lemma section_monotone: "inc_section st \<le> inc_section (fst (CheckNextIncludeOrder h st))"
  if "inc_section st \<le> OTHER_H_SECTION"
  using that by (cases h) (auto simp: order_defs)

text \<open>In every reachable state of the include tracker the include list has a current sublist and the
  section is one of the five; checking a header never moves the section backwards, and reports an
  error exactly when it leaves the section alone while the header's own section lies before it.\<close>

theorem include_sections:
  assumes "inc_reachable st"
  shows "include_list st \<noteq> [] \<and> inc_section st \<le> OTHER_H_SECTION \<and>
         inc_section st \<le> inc_section (fst (CheckNextIncludeOrder h st)) \<and>
         (snd (CheckNextIncludeOrder h st) \<noteq> [] \<longleftrightarrow>
            (h = C_SYS_HEADER \<and> C_SECTION < inc_section st) \<or>
            (h = CPP_SYS_HEADER \<and> CPP_SECTION < inc_section st))"
  using reachable_inv [OF assms] section_monotone [of st h]
  by (cases h) (auto simp: inc_inv_def order_defs)

theorem include_sections_witness:
  "inc_section (fst (CheckNextIncludeOrder CPP_SYS_HEADER IncludeState_init)) = CPP_SECTION \<and>
   snd (CheckNextIncludeOrder C_SYS_HEADER (fst (CheckNextIncludeOrder CPP_SYS_HEADER IncludeState_init))) \<noteq> []"
proof -
  have r: "inc_reachable (fst (CheckNextIncludeOrder CPP_SYS_HEADER IncludeState_init))"
    by (intro inc_reachable.step [OF inc_reachable.start] inc_step.ordered)
  have s: "inc_section (fst (CheckNextIncludeOrder CPP_SYS_HEADER IncludeState_init)) = CPP_SECTION"
    by (simp add: order_defs IncludeState_init_def ResetSection_def)
  show ?thesis using include_sections [OF r, of C_SYS_HEADER] s by simp
qed

section \<open>Earlier includes\<close>

lemma FindHeader_add:
  assumes "include_list st \<noteq> []"
  shows "concat (include_list (add_include f l st)) = concat (include_list st) @ [(f, l)]"
proof -
  obtain xs x where "include_list st = xs @ [x]" using assms by (cases "include_list st" rule: rev_cases) auto
  then show ?thesis by (simp add: add_include_def Let_def)
qed

lemma find_append: "find P (xs @ ys) = (case find P xs of None \<Rightarrow> find P ys | Some x \<Rightarrow> Some x)"
  by (induction xs) auto

text \<open>Looking up a header after an include line was recorded: in a reachable state the recorded
  header is found with its line if it was new, and every other lookup is unchanged.\<close>

theorem FindHeader_after_add:
  assumes "inc_reachable st"
  shows "FindHeader g (add_include f l st) =
           (if g = f \<and> f \<notin> fst ` set (concat (include_list st)) then l else FindHeader g st)"
proof -
  have "include_list st \<noteq> []" using reachable_inv [OF assms] by (simp add: inc_inv_def)
  note c = FindHeader_add [OF this]
  have n: "find (\<lambda>x. fst x = f) xs = None \<longleftrightarrow> f \<notin> fst ` set xs" for xs :: "(string \<times> int) list"
    by (induction xs) auto
  show ?thesis using n [of "concat (include_list st)"] unfolding FindHeader_def c find_append by (auto split: option.splits)
qed

theorem FindHeader_after_add_witness:
  "FindHeader ''a.h'' (add_include ''a.h'' 7 IncludeState_init) = 7"
  using FindHeader_after_add [OF inc_reachable.start, of "''a.h''" "''a.h''" 7]
  by (simp add: IncludeState_init_def ResetSection_def)

section \<open>The checks return\<close>

context error_sink
begin

lemma report_if_returns: "valid_diag d \<Longrightarrow> inv lst \<Longrightarrow> \<exists>lst'. report_if b error d lst = Inr lst' \<and> inv lst'"
  using error_returns by (simp add: report_if_def)

lemma check_new_include_returns:
  assumes "inv lst" "inc_inv inc" "0 \<le> linenum" "linenum < int (length elided)"
  shows "\<exists>lst' inc'. check_new_include error filename repo elided linenum include is_system (lst, inc) =
           Inr (lst', inc') \<and> inv lst' \<and> inc_inv inc'"
proof -
  let ?inc1 = "add_include include linenum inc"
  have report: "\<exists>l'. report_if b error (mk_diag filename linenum c 4 m) l = Inr l' \<and> inv l'"
    if "inv l" "c \<in> set ERROR_CATEGORIES" for b c m l
    by (rule report_if_returns) (use that in simp_all)
  obtain inc2 msg where inc2: "CheckNextIncludeOrder (ClassifyInclude repo include is_system) ?inc1 = (inc2, msg)"
    by (cases "CheckNextIncludeOrder (ClassifyInclude repo include is_system) ?inc1") auto
  have i2: "inc_inv inc2"
    using inc_inv_order [OF inc_inv_add [OF assms(2)]] inc2 by (metis fst_conv)
  obtain ordered where o: "IsInAlphabeticalOrder elided linenum (CanonicalizeAlphabeticalOrder include) inc2 = Inr ordered"
  proof (cases "str_less (CanonicalizeAlphabeticalOrder include) (last_header inc2)")
    case True
    have "\<exists>x. py_index elided (linenum - 1) = Inr x"
      using assms(3,4) by (auto simp: py_index_def Let_def)
    then show thesis using that True by (auto simp: IsInAlphabeticalOrder_def)
  next
    case False
    then show thesis using that by (simp add: IsInAlphabeticalOrder_def)
  qed
  obtain lst1 where l1: "report_if (msg \<noteq> []) error (mk_diag filename linenum ''build/include_order'' 4
        (msg @ ''. Should be: '' @ BaseName repo @ ''.h, c system, c++ system, other.'')) lst = Inr lst1" "inv lst1"
    using report [OF assms(1)] by (metis category_documented(12))
  obtain lst2 where l2: "report_if (\<not> ordered) error (mk_diag filename linenum ''build/include_alpha'' 4
        (''Include '' @ [dquote] @ include @ [dquote] @ '' not in alphabetical order'')) lst1 = Inr lst2" "inv lst2"
    using report [OF l1(2)] by (metis category_documented(11))
  show ?thesis using l1 l2 o i2
    by (auto simp: check_new_include_def Let_def inc2 intro: inc_inv_last)
qed

lemma CheckIncludeLine_returns:
  assumes "inv lst" "inc_inv inc" "0 \<le> linenum" "linenum < int (length elided)"
  shows "\<exists>lst' inc'. CheckIncludeLine error filename repo line elided linenum (lst, inc) = Inr (lst', inc') \<and>
           inv lst' \<and> inc_inv inc'"
proof -
  obtain lst1 where l1: "report_if (case re_Match include_dir_re line of None \<Rightarrow> False
       | Some m \<Rightarrow> re_Match THIRD_PARTY_HEADERS_PATTERN (group0 m 1) = None) error
       (mk_diag filename linenum ''build/include'' 4 ''Include the directory when naming .h files'') lst = Inr lst1"
    "inv lst1"
    using report_if_returns [of "mk_diag filename linenum ''build/include'' 4 ''Include the directory when naming .h files''",
        OF _ assms(1)] by auto
  have e: "\<exists>lst2. error lst1 (mk_diag filename linenum ''build/include'' 4 msg) = Inr lst2 \<and> inv lst2" for msg
    by (rule error_returns [OF _ l1(2)]) simp
  note new = check_new_include_returns [OF l1(2) assms(2-4)]
  show ?thesis
  proof (cases "re_Search RE_PATTERN_INCLUDE line")
    case None
    then show ?thesis using l1 assms(2) by (simp add: CheckIncludeLine_def)
  next
    case (Some m)
    show ?thesis
      unfolding CheckIncludeLine_def split_conv l1(1) bindR_simps Some option.case Let_def
      using new e assms(2) l1(2) by (auto simp: bindR_Inr_iff; metis bindR_simps(2))
  qed
qed

end

text \<open>With accepted filters and a line number inside the file, \<open>CheckIncludeLine\<close> run with the real
  error handler never raises, and leaves the filters valid and the include tracker well-formed.\<close>

theorem CheckIncludeLine_total:
  assumes "filters_valid lst" "inc_reachable inc" "0 \<le> linenum" "linenum < int (length elided)"
  shows "\<exists>lst' inc'. CheckIncludeLine Error filename repo line elided linenum (lst, inc) = Inr (lst', inc') \<and>
           filters_valid lst' \<and> include_list inc' \<noteq> [] \<and> inc_section inc' \<le> OTHER_H_SECTION"
  using cpplint_sink.CheckIncludeLine_returns [OF assms(1) reachable_inv [OF assms(2)] assms(3,4)]
  unfolding inc_inv_def by blast

theorem CheckIncludeLine_total_witness:
  "\<exists>lst' inc'. CheckIncludeLine Error ''a/a.cc'' ''a/a.cc'' ''#include <map>'' [[], ''#include <map>''] 1
       (lint_init, IncludeState_init) = Inr (lst', inc') \<and>
     filters_valid lst' \<and> include_list inc' \<noteq> [] \<and> inc_section inc' \<le> OTHER_H_SECTION"
  by (rule CheckIncludeLine_total)
     (simp_all add: inc_reachable.start filters_valid_def lint_init_def CppLintState_init_def
        DEFAULT_FILTERS_def filter_ok_def py_startswith_def)

end
