(* ===== verification/Lint_Cleanse.thy ===== *)
theory Lint_Cleanse
  imports Lint_Include
begin

text \<open>
  The passes of \<open>cpplint.py\<close> that prepare the lines of a file: multi-line comments, C++11 raw strings,
  comments, string literals, and \<open>CleansedLines\<close>, which holds four copies of the file. Every
  loop of the code is a recursive function with a termination proof; the proofs rest on
  what the patterns match. Shown: no pass raises, every pass keeps the number of lines, no
  multi-line comment is left, comment removal never lengthens a line.
\<close>

section \<open>Multi-line comments\<close>

definition starts_comment :: "string \<Rightarrow> bool" where
  "starts_comment line \<longleftrightarrow>
     py_startswith (py_strip line) ''/*'' \<and> find_at ''*/'' (drop 2 (py_strip line)) 2 = None"

definition ends_comment :: "string \<Rightarrow> bool" where
  "ends_comment line \<longleftrightarrow> py_endswith (py_strip line) ''*/''"

function FindNextMultiLineCommentStart :: "string list \<Rightarrow> nat \<Rightarrow> nat" where
  "FindNextMultiLineCommentStart lines lineix =
     (if lineix < length lines then
        if starts_comment (lines ! lineix) then lineix
        else FindNextMultiLineCommentStart lines (lineix + 1)
      else length lines)"
  by pat_completeness auto
termination by (relation "measure (\<lambda>(lines, ix). length lines - ix)") auto

function FindNextMultiLineCommentEnd :: "string list \<Rightarrow> nat \<Rightarrow> nat" where
  "FindNextMultiLineCommentEnd lines lineix =
     (if lineix < length lines then
        if ends_comment (lines ! lineix) then lineix
        else FindNextMultiLineCommentEnd lines (lineix + 1)
      else length lines)"
  by pat_completeness auto
termination by (relation "measure (\<lambda>(lines, ix). length lines - ix)") auto

declare FindNextMultiLineCommentStart.simps [simp del] FindNextMultiLineCommentEnd.simps [simp del]

lemma comment_start_spec:
  "ix \<le> length lines \<Longrightarrow>
   (let k = FindNextMultiLineCommentStart lines ix
    in ix \<le> k \<and> k \<le> length lines \<and> (\<forall>j. ix \<le> j \<longrightarrow> j < k \<longrightarrow> \<not> starts_comment (lines ! j)))"
proof (induction lines ix rule: FindNextMultiLineCommentStart.induct)
  case (1 lines ix)
  show ?case
  proof (cases "ix < length lines \<and> \<not> starts_comment (lines ! ix)")
    case True
    then have "FindNextMultiLineCommentStart lines ix = FindNextMultiLineCommentStart lines (ix + 1)"
      by (subst FindNextMultiLineCommentStart.simps) simp
    then show ?thesis using 1 True by (auto simp: Let_def) (metis Suc_leI le_neq_implies_less)
  next
    case False
    then show ?thesis using "1.prems" by (subst FindNextMultiLineCommentStart.simps) (auto simp: Let_def)
  qed
qed

lemma comment_end_ge:
  "ix \<le> length lines \<Longrightarrow> ix \<le> FindNextMultiLineCommentEnd lines ix"
proof (induction lines ix rule: FindNextMultiLineCommentEnd.induct)
  case (1 lines ix)
  then show ?case by (subst FindNextMultiLineCommentEnd.simps) auto
qed

definition RemoveMultiLineCommentsFromRange :: "string list \<Rightarrow> nat \<Rightarrow> nat \<Rightarrow> string list" where
  "RemoveMultiLineCommentsFromRange lines begin_ix end_ix =
     map (\<lambda>i. if begin_ix \<le> i \<and> i < end_ix then ''/**/'' else lines ! i) [0 ..< length lines]"

lemma length_remove_range [simp]: "length (RemoveMultiLineCommentsFromRange lines b e) = length lines"
  by (simp add: RemoveMultiLineCommentsFromRange_def)

lemma nth_remove_range:
  "i < length lines \<Longrightarrow>
   RemoveMultiLineCommentsFromRange lines b e ! i = (if b \<le> i \<and> i < e then ''/**/'' else lines ! i)"
  by (simp add: RemoveMultiLineCommentsFromRange_def)

text \<open>The loop of \<open>RemoveMultiLineComments\<close> from line \<open>lineix\<close>; the lines are an argument because
  the code changes them in place.\<close>

function remove_comments_from ::
  "handler \<Rightarrow> string \<Rightarrow> string list \<Rightarrow> nat \<Rightarrow> lint \<Rightarrow> (lint \<times> string list) res" where
  "remove_comments_from error filename lines lineix lst =
     (if lineix < length lines then
        let lineix_begin = FindNextMultiLineCommentStart lines lineix
        in if lineix_begin \<ge> length lines then Inr (lst, lines)
           else
             let lineix_end = FindNextMultiLineCommentEnd lines lineix_begin
             in if lineix_end \<ge> length lines then
                  bindR (error lst (mk_diag filename (int lineix_begin + 1) ''readability/multiline_comment'' 5
                           ''Could not find end of multi-line comment'')) (\<lambda>lst1. Inr (lst1, lines))
                else remove_comments_from error filename
                       (RemoveMultiLineCommentsFromRange lines lineix_begin (lineix_end + 1)) (lineix_end + 1) lst
      else Inr (lst, lines))"
  by pat_completeness auto
termination
proof (relation "measure (\<lambda>(error, f, lines, ix, lst). length lines - ix)", goal_cases)
  case 1
  then show ?case by simp
next
  case (2 error filename lines ix lst b e)
  have "ix \<le> b" using comment_start_spec [of ix lines] 2 by (simp add: Let_def)
  moreover have "b \<le> e" using comment_end_ge [of b lines] 2 by simp
  ultimately show ?case using 2 by simp
qed

declare remove_comments_from.simps [simp del]

definition RemoveMultiLineComments ::
  "handler \<Rightarrow> string \<Rightarrow> string list \<Rightarrow> lint \<Rightarrow> (lint \<times> string list) res" where
  "RemoveMultiLineComments error filename lines lst = remove_comments_from error filename lines 0 lst"

section \<open>Comments on one line\<close>

definition IsCppString :: "string \<Rightarrow> bool" where
  "IsCppString line =
     (let line = py_replace [backslash, backslash] ''XX'' line
      in odd (int (py_count line [dquote]) - int (py_count line [backslash, dquote]) -
              int (py_count line [squote, dquote, squote])))"

definition RE_C_COMMENTS :: re where
  "RE_C_COMMENTS = rseq [rlit ''/*'',
     rstar (RAlt (rnot ''*'') (RSeq (rch CHR ''*'') (RLook False (rch CHR ''/'')))), rlit ''*/'']"

definition RE_CLEANSE_LINE_C_COMMENTS :: re where
  "RE_CLEANSE_LINE_C_COMMENTS = RGroup 1 (ralt
     [rseq [rstar rspace, RE_C_COMMENTS, rstar rspace, REol],
      RSeq RE_C_COMMENTS (rplus rspace),
      rseq [rplus rspace, RE_C_COMMENTS, RLook True (RChr (\<lambda>c. \<not> is_word c))],
      RE_C_COMMENTS])"

definition CleanseComments :: "string \<Rightarrow> string" where
  "CleanseComments line =
     (let commentpos = py_find line ''//'';
          line = (if commentpos \<noteq> -1 \<and> \<not> IsCppString (py_slice line 0 commentpos)
                  then py_rstrip (py_slice line 0 commentpos) else line)
      in re_sub RE_CLEANSE_LINE_C_COMMENTS [] line)"

section \<open>Raw strings\<close>

definition raw_string_re :: re where
  "raw_string_re = rseq [RBol, RGroup 1 (rlazy rany), RWordB,
     ralt [rlit ''R'', rlit ''u8R'', rlit ''uR'', rlit ''UR'', rlit ''LR''], rch dquote,
     RGroup 2 (rstar (RChr (\<lambda>c. \<not> py_isspace c \<and> c \<notin> set [backslash, CHR ''('', CHR '')'']))),
     rch CHR ''('', RGroup 3 (rstar rany), REol]"

definition quoted_re :: "nat \<Rightarrow> char \<Rightarrow> re" where
  "quoted_re n q = rseq [rch q, rstar (RGroup n (RAlt (RSeq (rch backslash) rany) (rnot [q]))), rch q]"

definition line_comment_re :: re where
  "line_comment_re = rseq [RBol,
     rstar (RGroup 1 (ralt [rnot [squote, dquote], quoted_re 2 squote, quoted_re 3 dquote])), rlit ''//'']"

definition leading_space_re :: re where
  "leading_space_re = rseq [RBol, RGroup 1 (rstar rspace), RChr (\<lambda>c. \<not> py_isspace c)]"

lemma raw_string_groups:
  assumes "re_Match raw_string_re line = Some m"
  shows "length (group0 m 1) + 3 + length (group0 m 2) + length (group0 m 3) \<le> length line"
proof -
  let ?pre = "ralt [rlit ''R'', rlit ''u8R'', rlit ''uR'', rlit ''UR'', rlit ''LR'']"
  let ?P = "\<lambda>c. \<not> py_isspace c \<and> c \<notin> set [backslash, CHR ''('', CHR '')'']"
  note re = re_Match_Some [OF assms]
  obtain i1 f1 k f2 i3 i4 where
    a: "(i1, f1) \<in> set (mt (rlazy rany) line 0 Map.empty)"
    and b: "(k, f2) \<in> set (mt ?pre line i1 (f1(1 \<mapsto> (0, i1))))"
    and k: "k < length line" and i3: "Suc k \<le> i3" "i3 < length line"
    and i4: "Suc i3 \<le> i4" "i4 \<le> run_end (\<lambda>c. c \<noteq> newline) line (Suc i3)"
    and g: "m_groups m = (f2(2 \<mapsto> (Suc k, i3)))(3 \<mapsto> (Suc i3, i4))"
    using re(1) unfolding raw_string_re_def rseq.simps rch_def rany_def
    by (simp only: mt_sets) blast
  have f1: "f1 = Map.empty" by (rule mt_groupless [OF a]) (simp add: rany_def)
  have b1: "i1 < k" "f2 = f1(1 \<mapsto> (0, i1))"
    using b by (auto simp: mt_sets simp del: mt.simps)
  have "i4 \<le> length line" using i4(2) run_end_le [of "Suc i3" line] i3(2) by (meson Suc_leI le_trans)
  then show ?thesis using re(2) b1 k i3 i4 f1 g by (simp add: group0_Some)
qed

text \<open>The inner loop: raw strings that begin on this line. The result is the delimiter of a raw
  string that is still open, and the line.\<close>

function raw_loop :: "string \<Rightarrow> string option \<times> string" where
  "raw_loop line =
     (case re_Match raw_string_re line of
        None \<Rightarrow> (None, line)
      | Some matched \<Rightarrow>
          if re_Match line_comment_re (group0 matched 1) \<noteq> None then (None, line)
          else
            let delimiter = '')'' @ group0 matched 2 @ [dquote]
            in case find_at delimiter (group0 matched 3) 0 of
                 Some e \<Rightarrow> raw_loop (group0 matched 1 @ [dquote, dquote] @
                                     drop (e + length delimiter) (group0 matched 3))
               | None \<Rightarrow> (Some delimiter, group0 matched 1 @ [dquote, dquote]))"
  by pat_completeness auto
termination
proof (relation "measure length", goal_cases)
  case 1
  then show ?case by simp
next
  case (2 line m delimiter e)
  then have "e + length delimiter \<le> length (group0 m 3)"
    using find_at_Some [of delimiter "group0 m 3" e] prefix_length_le by fastforce
  then show ?case using raw_string_groups [OF 2(1)] 2(3) by simp
qed

declare raw_loop.simps [simp del]

text \<open>One line, given the delimiter of the open raw string, if any.\<close>

definition cleanse_raw_line :: "string option \<Rightarrow> string \<Rightarrow> (string option \<times> string) res" where
  "cleanse_raw_line delimiter line =
     (case delimiter of
        None \<Rightarrow> Inr (raw_loop line)
      | Some d \<Rightarrow>
          (case find_at d line 0 of
             None \<Rightarrow> Inr (Some d, [dquote, dquote])
           | Some e \<Rightarrow>
               (case re_Match leading_space_re line of
                  None \<Rightarrow> Inl AttributeError
                | Some m \<Rightarrow>
                    Inr (raw_loop (group0 m 1 @ [dquote, dquote] @ drop (e + length d) line)))))"

fun cleanse_raw_lines :: "string option \<Rightarrow> string list \<Rightarrow> string list res" where
  "cleanse_raw_lines delimiter [] = Inr []"
| "cleanse_raw_lines delimiter (line # lines) =
     bindR (cleanse_raw_line delimiter line) (\<lambda>(delimiter', line').
     bindR (cleanse_raw_lines delimiter' lines) (\<lambda>rest. Inr (line' # rest)))"

definition CleanseRawStrings :: "string list \<Rightarrow> string list res" where
  "CleanseRawStrings raw_lines = cleanse_raw_lines None raw_lines"

section \<open>String literals\<close>

definition RE_CLEANSE_LINE_ESCAPES :: re where
  "RE_CLEANSE_LINE_ESCAPES = RSeq (rch backslash) (RGroup 1 (ralt
     [rset (''abfnrtv?'' @ [dquote, backslash, squote]), rplus (RChr is_digit),
      RSeq (rch CHR ''x'') (rplus (RChr (\<lambda>c. is_digit c \<or> c \<in> set ''abcdefABCDEF'')))]))"

definition first_quote_re :: re where
  "first_quote_re = rseq [RBol, RGroup 1 (rstar (rnot [squote, dquote])), RGroup 2 (rset [squote, dquote]),
     RGroup 3 (rstar rany), REol]"

definition is_hex :: "char \<Rightarrow> bool" where
  "is_hex c \<longleftrightarrow> is_digit c \<or> c \<in> set ''abcdefABCDEF''"

definition number_end_re :: re where
  "number_end_re = rseq [RWordB,
     RAlt (RSeq (rch CHR ''0'') (ropt (rset ''bBxX''))) (RChr (\<lambda>c. is_digit c \<and> c \<noteq> CHR ''0'')),
     rstar (RChr is_hex), REol]"

definition digits_re :: re where
  "digits_re = rseq [RBol, RGroup 1 (rstar (RSeq (ropt (rch squote)) (RChr is_word))),
     RGroup 2 (rstar rany), REol]"

lemma first_quote_groups:
  assumes "re_Match first_quote_re line = Some m"
  shows "length (group0 m 1) + 1 + length (group0 m 3) \<le> length line \<and> newline \<notin> set (group0 m 3)"
proof -
  note re = re_Match_Some [OF assms]
  obtain i1 i2 where i1: "i1 < length line" and i2: "Suc i1 \<le> i2" "i2 \<le> run_end (\<lambda>c. c \<noteq> newline) line (Suc i1)"
    and g: "m_groups m = [1 \<mapsto> (0, i1), 2 \<mapsto> (i1, Suc i1), 3 \<mapsto> (Suc i1, i2)]"
    using re(1) unfolding first_quote_re_def rseq.simps rset_def rany_def rnot_def
    by (simp only: mt_sets) blast
  have "i2 \<le> length line" using i2(2) run_end_le [of "Suc i1" line] i1 by (meson Suc_leI le_trans)
  then show ?thesis using re(2) i1 i2 g substr_class [of newline line "Suc i1" i2 "\<lambda>c. c \<noteq> newline"]
    by (auto simp: group0_Some)
qed

lemma digits_groups:
  assumes "re_Match digits_re s = Some m"
  shows "length (group0 m 2) \<le> length s"
proof -
  note re = re_Match_Some [OF assms]
  obtain i1 f1 i2 where "i1 \<le> i2" "i2 \<le> run_end (\<lambda>c. c \<noteq> newline) s i1"
    and g: "m_groups m = (f1(1 \<mapsto> (0, i1)))(2 \<mapsto> (i1, i2))"
    and a: "(i1, f1) \<in> set (mt (rstar (RSeq (ropt (rch squote)) (RChr is_word))) s 0 Map.empty)"
    using re(1) unfolding digits_re_def rseq.simps rany_def
    by (simp only: mt_sets) blast
  moreover have "i1 \<le> length s" using mt_bounds [OF a] by simp
  ultimately show ?thesis using re(2) run_end_le [of i1 s "\<lambda>c. c \<noteq> newline"] by (simp add: group0_Some)
qed

lemma number_end_nonempty: "re_Search number_end_re head \<noteq> None \<Longrightarrow> head \<noteq> []"
proof
  assume s: "re_Search number_end_re head \<noteq> None" and "head = []"
  then have "re_Search number_end_re [] = None"
    by (simp add: re_Search_def search_from_def match_at_def number_end_re_def word_boundary_def word_at_def)
  with s \<open>head = []\<close> show False by simp
qed

function collapse_loop :: "string \<Rightarrow> string \<Rightarrow> string res" where
  "collapse_loop collapsed elided =
     (case re_Match first_quote_re elided of
        None \<Rightarrow> Inr (collapsed @ elided)
      | Some m \<Rightarrow>
          let head = group0 m 1; quote = group0 m 2; tail = group0 m 3
          in if quote = [dquote] then
               (case find_at [dquote] tail 0 of
                  Some second_quote \<Rightarrow>
                    collapse_loop (collapsed @ head @ [dquote, dquote]) (drop (second_quote + 1) tail)
                | None \<Rightarrow> Inr (collapsed @ elided))
             else if re_Search number_end_re head \<noteq> None then
               (case re_Match digits_re (squote # tail) of
                  None \<Rightarrow> Inl AttributeError
                | Some match_literal \<Rightarrow>
                    collapse_loop (collapsed @ head @ py_replace [squote] [] (group0 match_literal 1))
                      (group0 match_literal 2))
             else
               (case find_at [squote] tail 0 of
                  Some second_quote \<Rightarrow>
                    collapse_loop (collapsed @ head @ [squote, squote]) (drop (second_quote + 1) tail)
                | None \<Rightarrow> Inr (collapsed @ elided)))"
  by pat_completeness auto
termination
proof (relation "measure (\<lambda>(c, e). length e)", goal_cases)
  case 1
  then show ?case by simp
next
  case 2
  then show ?case using first_quote_groups [OF 2(1)] by auto
next
  case (3 c e m h q t x)
  have "0 < length h" using 3 number_end_nonempty by blast
  moreover have "length (group0 x 2) \<le> length (squote # t)" using digits_groups 3 by blast
  moreover have "length h + 1 + length t \<le> length e" using first_quote_groups [OF 3(1)] 3(2-4) by simp
  ultimately have "length (group0 x 2) < length e" by (simp only: list.size)
  then show ?case by simp
next
  case 4
  then show ?case using first_quote_groups [OF 4(1)] by auto
qed

declare collapse_loop.simps [simp del]

definition CollapseStrings :: "string \<Rightarrow> string res" where
  "CollapseStrings elided =
     (if re_Match RE_PATTERN_INCLUDE elided \<noteq> None then Inr elided
      else collapse_loop [] (re_sub RE_CLEANSE_LINE_ESCAPES [] elided))"

section \<open>CleansedLines\<close>

record cleansed_lines =
  cl_elided :: "string list"
  cl_lines :: "string list"
  raw_lines :: "string list"
  num_lines :: nat
  lines_without_raw_strings :: "string list"

fun elide_lines :: "string list \<Rightarrow> string list res" where
  "elide_lines [] = Inr []"
| "elide_lines (l # ls) =
     bindR (CollapseStrings l) (\<lambda>e. bindR (elide_lines ls) (\<lambda>rest. Inr (CleanseComments e # rest)))"

definition CleansedLines :: "string list \<Rightarrow> cleansed_lines res" where
  "CleansedLines lines =
     bindR (CleanseRawStrings lines) (\<lambda>without.
     bindR (elide_lines without) (\<lambda>elided.
     Inr \<lparr>cl_elided = elided, cl_lines = map CleanseComments without, raw_lines = lines,
          num_lines = length lines, lines_without_raw_strings = without\<rparr>))"

section \<open>Properties of the comment pass\<close>

lemma not_starts_marker: "\<not> starts_comment ''/**/''"
  by (simp add: starts_comment_def py_strip_def py_rstrip_def py_lstrip_def py_isspace_def)

lemma remove_comments_lines:
  "remove_comments_from error filename lines ix lst = Inr (lst', lines') \<Longrightarrow>
   length lines' = length lines \<and>
   (\<forall>i < length lines. lines' ! i = lines ! i \<or> lines' ! i = ''/**/'')"
proof (induction error filename lines ix lst rule: remove_comments_from.induct)
  case (1 error filename lines ix lst)
  let ?b = "FindNextMultiLineCommentStart lines ix"
  let ?e = "FindNextMultiLineCommentEnd lines ?b"
  show ?case
  proof (cases "ix < length lines \<and> ?b < length lines \<and> ?e < length lines")
    case True
    let ?lines = "RemoveMultiLineCommentsFromRange lines ?b (?e + 1)"
    have "remove_comments_from error filename ?lines (?e + 1) lst = Inr (lst', lines')"
      using "1.prems" True by (subst (asm) remove_comments_from.simps) (simp add: Let_def)
    from "1.IH" [OF _ refl _ refl _ this] True
    have l: "length lines' = length lines"
      and s: "\<And>i. i < length lines \<Longrightarrow> lines' ! i = ?lines ! i \<or> lines' ! i = ''/**/''" by auto
    have "lines' ! i = lines ! i \<or> lines' ! i = ''/**/''" if "i < length lines" for i
      using s [OF that] nth_remove_range [OF that, of ?b "?e + 1"] by (simp split: if_splits)
    with l show ?thesis by blast
  next
    case False
    then show ?thesis using "1.prems"
      by (subst (asm) remove_comments_from.simps) (auto simp: Let_def bindR_Inr_iff split: if_splits)
  qed
qed

lemma remove_comments_clean:
  assumes "remove_comments_from error filename lines ix lst = Inr (lst', lines')"
    "\<forall>j < ix. j < length lines \<longrightarrow> \<not> starts_comment (lines ! j)" "ix \<le> length lines"
  shows "(\<forall>j < length lines'. \<not> starts_comment (lines' ! j)) \<or>
         (\<exists>b. error lst (mk_diag filename (int b + 1) ''readability/multiline_comment'' 5
                 ''Could not find end of multi-line comment'') = Inr lst')"
  using assms
proof (induction error filename lines ix lst rule: remove_comments_from.induct)
  case (1 error filename lines ix lst)
  let ?b = "FindNextMultiLineCommentStart lines ix"
  let ?e = "FindNextMultiLineCommentEnd lines ?b"
  have b: "ix \<le> ?b" "?b \<le> length lines" "\<And>j. ix \<le> j \<Longrightarrow> j < ?b \<Longrightarrow> \<not> starts_comment (lines ! j)"
    using comment_start_spec [OF "1.prems"(3)] by (auto simp: Let_def)
  have before: "\<not> starts_comment (lines ! j)" if "j < ?b" for j
    using "1.prems"(2,3) b that by (cases "j < ix") auto
  consider "\<not> (ix < length lines \<and> ?b < length lines)"
    | "ix < length lines" "?b < length lines" "\<not> ?e < length lines"
    | "ix < length lines" "?b < length lines" "?e < length lines" by blast
  then show ?case
  proof cases
    case 1
    then have "lines' = lines" "\<forall>j < length lines. \<not> starts_comment (lines ! j)"
      using "1.prems" b(2) before
      by (auto simp: remove_comments_from.simps [of error filename lines ix lst] Let_def split: if_splits)
    then show ?thesis by simp
  next
    case 2
    then show ?thesis using "1.prems"(1)
      by (subst (asm) remove_comments_from.simps) (auto simp: Let_def bindR_Inr_iff)
  next
    case 3
    let ?lines = "RemoveMultiLineCommentsFromRange lines ?b (?e + 1)"
    have r: "remove_comments_from error filename ?lines (?e + 1) lst = Inr (lst', lines')"
      using "1.prems"(1) 3 by (subst (asm) remove_comments_from.simps) (simp add: Let_def)
    have "\<forall>j < ?e + 1. j < length ?lines \<longrightarrow> \<not> starts_comment (?lines ! j)"
      using before not_starts_marker by (auto simp: nth_remove_range not_le)
    then show ?thesis
      using "1.IH" [OF 3(1) refl _ refl _ r] 3 by (simp add: not_le)
  qed
qed

context error_sink
begin

lemma remove_comments_returns:
  "inv lst \<Longrightarrow> \<exists>lst' lines'. remove_comments_from error filename lines ix lst = Inr (lst', lines') \<and> inv lst'"
proof (induction "length lines - ix" arbitrary: lines ix rule: less_induct)
  case less
  let ?b = "FindNextMultiLineCommentStart lines ix"
  let ?e = "FindNextMultiLineCommentEnd lines ?b"
  show ?case
  proof (cases "ix < length lines \<and> ?b < length lines \<and> ?e < length lines")
    case True
    have "ix \<le> ?b" using comment_start_spec [of ix lines] True by (simp add: Let_def)
    moreover have "?b \<le> ?e" using comment_end_ge [of ?b lines] True by simp
    ultimately have "\<exists>lst' lines'. remove_comments_from error filename
        (RemoveMultiLineCommentsFromRange lines ?b (?e + 1)) (?e + 1) lst = Inr (lst', lines') \<and> inv lst'"
      by (intro less.hyps) (use True less.prems in auto)
    then show ?thesis using True by (subst remove_comments_from.simps) (simp add: Let_def)
  next
    case False
    obtain lst1 where "error lst (mk_diag filename (int ?b + 1) ''readability/multiline_comment'' 5
        ''Could not find end of multi-line comment'') = Inr lst1" "inv lst1"
      using error_returns [of "mk_diag filename (int ?b + 1) ''readability/multiline_comment'' 5
        ''Could not find end of multi-line comment''", OF _ less.prems] by auto
    then show ?thesis using False less.prems
      by (subst remove_comments_from.simps) (auto simp: Let_def)
  qed
qed

end

text \<open>C19: \<open>RemoveMultiLineComments\<close> with the real error handler always ends; it keeps the number of lines,
  changes a line only to the marker comment, and afterwards no line starts a comment
  that is not closed on the same line, unless it reported a comment without an end.\<close>

theorem RemoveMultiLineComments_spec:
  assumes "filters_valid lst"
  shows "\<exists>lst' lines'. RemoveMultiLineComments Error filename lines lst = Inr (lst', lines') \<and>
           length lines' = length lines \<and>
           (\<forall>i < length lines. lines' ! i = lines ! i \<or> lines' ! i = ''/**/'') \<and>
           ((\<forall>i < length lines'. \<not> starts_comment (lines' ! i)) \<or>
            (\<exists>b. Error lst (mk_diag filename (int b + 1) ''readability/multiline_comment'' 5
                    ''Could not find end of multi-line comment'') = Inr lst'))"
proof -
  obtain lst' lines' where r: "remove_comments_from Error filename lines 0 lst = Inr (lst', lines')"
    using cpplint_sink.remove_comments_returns [OF assms] by blast
  then show ?thesis
    using remove_comments_lines [OF r] remove_comments_clean [OF r] unfolding RemoveMultiLineComments_def by simp
qed

theorem RemoveMultiLineComments_spec_witness:
  "\<exists>lst' lines'. RemoveMultiLineComments Error ''a.cc'' [''/* a'', ''b */'', ''int x;''] lint_init = Inr (lst', lines') \<and>
     length lines' = 3"
  using RemoveMultiLineComments_spec [of lint_init "''a.cc''" "[''/* a'', ''b */'', ''int x;'']"]
  by (auto simp: filters_valid_def lint_init_def CppLintState_init_def DEFAULT_FILTERS_def filter_ok_def
      py_startswith_def)

section \<open>Properties of the cleansed lines\<close>

lemma leading_space_matches:
  assumes "c \<in> set line" "\<not> py_isspace c"
  shows "re_Match leading_space_re line \<noteq> None"
proof -
  obtain u d t where l: "line = u @ d # t" "\<not> py_isspace d" "list_all py_isspace u"
    using split_list_first_prop [of line "\<lambda>c. \<not> py_isspace c"] assms by (auto simp: list_all_iff)
  have "run_end py_isspace line 0 = length u"
    using run_end_rest [of 0 line u d t py_isspace] l by simp
  then have "(Suc (length u), [1 \<mapsto> (0, length u)]) \<in> set (mt leading_space_re line 0 Map.empty)"
    unfolding leading_space_re_def rseq.simps rspace_def
    using l by (simp add: mt_sets nth_append del: mt.simps)
  then show ?thesis by (auto simp: re_Match_None)
qed

lemma raw_loop_delimiter: "raw_loop line = (Some d, line') \<Longrightarrow> CHR '')'' \<in> set d"
proof (induction line rule: raw_loop.induct)
  case (1 line)
  show ?case
  proof (cases "re_Match raw_string_re line")
    case None
    then show ?thesis using "1.prems" by (simp add: raw_loop.simps)
  next
    case (Some m)
    show ?thesis
      using "1.prems" "1.IH" [OF Some _ refl]
      by (subst (asm) raw_loop.simps) (auto simp: Some Let_def split: if_splits option.splits)
  qed
qed

lemma cleanse_raw_line_returns:
  assumes "\<forall>d. delimiter = Some d \<longrightarrow> CHR '')'' \<in> set d"
  shows "\<exists>d' line'. cleanse_raw_line delimiter line = Inr (d', line') \<and>
           (\<forall>d. d' = Some d \<longrightarrow> CHR '')'' \<in> set d)"
proof (cases delimiter)
  case None
  then show ?thesis using raw_loop_delimiter [of line]
    by (cases "raw_loop line") (auto simp: cleanse_raw_line_def)
next
  case (Some d)
  show ?thesis
  proof (cases "find_at d line 0")
    case None
    then show ?thesis using Some assms by (simp add: cleanse_raw_line_def)
  next
    case (Some e)
    then have "prefix d (drop e line)" by (simp add: find_at_Some)
    then have "CHR '')'' \<in> set line"
      using assms \<open>delimiter = Some d\<close> set_mono_prefix set_drop_subset by (metis in_mono)
    then obtain m where "re_Match leading_space_re line = Some m"
      using leading_space_matches [of "CHR '')''" line] by (auto simp: py_isspace_def)
    then show ?thesis using Some \<open>delimiter = Some d\<close>
        raw_loop_delimiter [of "group0 m 1 @ [dquote, dquote] @ drop (e + length d) line"]
      by (cases "raw_loop (group0 m 1 @ [dquote, dquote] @ drop (e + length d) line)")
         (auto simp: cleanse_raw_line_def)
  qed
qed

lemma cleanse_raw_lines_returns:
  "\<forall>d. delimiter = Some d \<longrightarrow> CHR '')'' \<in> set d \<Longrightarrow>
   \<exists>lines'. cleanse_raw_lines delimiter lines = Inr lines' \<and> length lines' = length lines"
proof (induction lines arbitrary: delimiter)
  case (Cons l ls)
  obtain d' l' where l': "cleanse_raw_line delimiter l = Inr (d', l')"
      "\<forall>d. d' = Some d \<longrightarrow> CHR '')'' \<in> set d"
    using cleanse_raw_line_returns [OF Cons.prems] by blast
  from Cons.IH [OF l'(2)] l'(1) show ?case by auto
qed simp

lemma digits_matches:
  assumes "newline \<notin> set s" shows "re_Match digits_re s \<noteq> None"
proof -
  have "run_end (\<lambda>c. c \<noteq> newline) s 0 = length s"
  proof -
    have "takeWhile (\<lambda>c. c \<noteq> newline) s = s" using assms by (subst takeWhile_eq_all_conv) auto
    then show ?thesis by (simp only: run_end_def drop_0)
  qed
  then have g2: "(length s, [1 \<mapsto> (0, 0), 2 \<mapsto> (0, length s)]) \<in>
      set (mt (RGroup 2 (rstar (RChr (\<lambda>c. c \<noteq> newline)))) s 0 [1 \<mapsto> (0, 0)])"
    by (simp add: mt_sets del: mt.simps)
  have "(0, Map.empty) \<in> set (mt (rstar (RSeq (ropt (rch squote)) (RChr is_word))) s 0 Map.empty)"
    by (subst mt_star_set) simp
  then have g1: "(0, [1 \<mapsto> (0, 0)]) \<in>
      set (mt (RGroup 1 (rstar (RSeq (ropt (rch squote)) (RChr is_word)))) s 0 Map.empty)"
    by (simp only: mt_group_set) blast
  have ends: "(length s, h) \<in> set (mt REol s (length s) h)" "(0, h) \<in> set (mt RBol s 0 h)" for h by simp_all
  have "(length s, [1 \<mapsto> (0, 0), 2 \<mapsto> (0, length s)]) \<in> set (mt digits_re s 0 Map.empty)"
    unfolding digits_re_def rseq.simps rany_def mt_seq_set using g1 g2 ends by blast
  then show ?thesis by (auto simp: re_Match_None)
qed

lemma collapse_loop_returns: "\<exists>r. collapse_loop collapsed elided = Inr r"
proof (induction collapsed elided rule: collapse_loop.induct)
  case (1 collapsed elided)
  show ?case
  proof (cases "re_Match first_quote_re elided")
    case None
    then show ?thesis by (simp add: collapse_loop.simps)
  next
    case (Some m)
    have "newline \<notin> set (squote # group0 m 3)" using first_quote_groups [OF Some] by simp
    then obtain x where x: "re_Match digits_re (squote # group0 m 3) = Some x"
      using digits_matches by blast
    note IH = "1.IH" [OF Some refl refl refl]
    show ?thesis using IH
      by (subst collapse_loop.simps) (auto simp: Some Let_def x split: option.splits)
  qed
qed

lemma elide_lines_returns: "\<exists>es. elide_lines ls = Inr es \<and> length es = length ls"
proof (induction ls)
  case (Cons l ls)
  obtain e where "CollapseStrings l = Inr e"
    using collapse_loop_returns [of "[]" "re_sub RE_CLEANSE_LINE_ESCAPES [] l"]
    by (cases "re_Match RE_PATTERN_INCLUDE l = None") (auto simp: CollapseStrings_def)
  with Cons show ?case by auto
qed simp

lemma CleansedLines_returns:
  "\<exists>cl. CleansedLines lines = Inr cl \<and> num_lines cl = length lines \<and> raw_lines cl = lines \<and>
        length (cl_elided cl) = length lines \<and> length (cl_lines cl) = length lines \<and>
        length (lines_without_raw_strings cl) = length lines"
proof -
  obtain w where w: "CleanseRawStrings lines = Inr w" "length w = length lines"
    using cleanse_raw_lines_returns [of None lines] by (auto simp: CleanseRawStrings_def)
  obtain es where "elide_lines w = Inr es" "length es = length w" using elide_lines_returns by blast
  with w show ?thesis by (simp add: CleansedLines_def)
qed

text \<open>C14: \<open>CleansedLines\<close> never raises, whatever the lines, and its four copies of the file all have the
  length of the input, as its documentation promises.\<close>

theorem CleansedLines_lengths:
  "\<exists>cl. CleansedLines lines = Inr cl \<and> num_lines cl = length lines \<and> raw_lines cl = lines \<and>
        length (cl_elided cl) = length lines \<and> length (cl_lines cl) = length lines \<and>
        length (lines_without_raw_strings cl) = length lines"
  by (rule CleansedLines_returns)

section \<open>Properties of comment removal\<close>

lemma length_py_rstrip: "length (py_rstrip s) \<le> length s"
  using length_dropWhile_le [of py_isspace "rev s"] by (simp add: py_rstrip_def)

lemma c_comment_prefix: "(j, h) \<in> set (mt RE_C_COMMENTS s i g) \<Longrightarrow> sublist ''/*'' s"
  unfolding RE_C_COMMENTS_def rseq.simps
  by (simp only: mt_sets) (metis prefix_imp_sublist sublist_drop sublist_order.order_trans)

lemma cleanse_pattern_prefix: "(j, h) \<in> set (mt RE_CLEANSE_LINE_C_COMMENTS s i g) \<Longrightarrow> sublist ''/*'' s"
  unfolding RE_CLEANSE_LINE_C_COMMENTS_def ralt.simps rseq.simps
  by (simp only: mt_sets) (blast dest: c_comment_prefix)

lemma cleanse_absent: "\<not> sublist ''/*'' s \<Longrightarrow> re_sub RE_CLEANSE_LINE_C_COMMENTS [] s = s"
proof (rule re_sub_absent, unfold search_from_None, intro allI impI)
  fix k assume n: "\<not> sublist ''/*'' s"
  show "match_at RE_CLEANSE_LINE_C_COMMENTS s k = None"
  proof (cases "match_at RE_CLEANSE_LINE_C_COMMENTS s k")
    case (Some m)
    then show ?thesis using match_at_Some(1) [OF Some] cleanse_pattern_prefix n by blast
  qed simp
qed

text \<open>\<open>CleanseComments\<close> never makes a line longer, and leaves a line without comment markers
  exactly as it is.\<close>

theorem CleanseComments_spec:
  "length (CleanseComments line) \<le> length line \<and>
   (\<not> sublist ''//'' line \<and> \<not> sublist ''/*'' line \<longrightarrow> CleanseComments line = line)"
proof
  let ?l = "if py_find line ''//'' \<noteq> -1 \<and> \<not> IsCppString (py_slice line 0 (py_find line ''//''))
            then py_rstrip (py_slice line 0 (py_find line ''//'')) else line"
  have "length (py_slice line 0 (py_find line ''//'')) \<le> length line"
    by (simp add: py_slice_def Let_def)
  then have "length ?l \<le> length line" using length_py_rstrip le_trans by fastforce
  then show "length (CleanseComments line) \<le> length line"
    using re_sub_shorter [of RE_CLEANSE_LINE_C_COMMENTS ?l] by (simp add: CleanseComments_def Let_def)
  show "\<not> sublist ''//'' line \<and> \<not> sublist ''/*'' line \<longrightarrow> CleanseComments line = line"
    by (simp add: CleanseComments_def Let_def py_find_none cleanse_absent)
qed

theorem CleanseComments_spec_witness:
  "CleanseComments ''int x = 3;'' = ''int x = 3;''"
  using CleanseComments_spec [of "''int x = 3;''"] by (simp add: sublist_Cons_right)

end
