(* ===== verification/Lint_Expr.thy ===== *)
theory Lint_Expr
  imports Lint_Cleanse
begin

text \<open>
  Matching of parentheses, brackets, braces and template brackets across lines:
  \<open>FindEndOfExpressionInLine\<close>, \<open>CloseExpression\<close> and their mirror images. The nesting stack has its
  top first. Shown: a position that is returned lies behind (at) a bracket that
  matches the given one; on bracketed text without template brackets and semicolons both
  directions find each other's end.
\<close>

section \<open>Forward\<close>

text \<open>The outcome of a scan: the position behind the end, an unclosed expression, or the stack at
  the end of the line: \<open>(i + 1, None)\<close>, \<open>(-1, None)\<close> and \<open>(-1, stack)\<close> in the code.\<close>

datatype scan = Found nat | GiveUp | Go "char list"

fun closes :: "char \<Rightarrow> char \<Rightarrow> bool" where
  "closes a b \<longleftrightarrow> (a = CHR ''('' \<and> b = CHR '')'') \<or> (a = CHR ''['' \<and> b = CHR '']'') \<or>
                   (a = CHR ''{'' \<and> b = CHR ''}'')"

definition operator_re :: re where
  "operator_re = rseq [RWordB, rlit ''operator'', rstar rspace, REol]"

definition drop_pending :: "char \<Rightarrow> char list \<Rightarrow> char list" where
  "drop_pending c stack = dropWhile (\<lambda>d. d = c) stack"

definition pop_or :: "scan \<Rightarrow> char list \<Rightarrow> scan" where
  "pop_or r stack = (if tl stack = [] then r else Go (tl stack))"

definition end_step :: "string \<Rightarrow> nat \<Rightarrow> char list \<Rightarrow> scan" where
  "end_step line i stack =
     (let char = line ! i
      in if char \<in> set ''([{'' then Go (char # stack)
         else if char = CHR ''<'' then
           if i > 0 \<and> line ! (i - 1) = CHR ''<'' then
             if stack \<noteq> [] \<and> hd stack = CHR ''<'' then pop_or GiveUp stack else Go stack
           else if i > 0 \<and> re_Search operator_re (take i line) \<noteq> None then Go stack
           else Go (CHR ''<'' # stack)
         else if char \<in> set '')]}'' then
           let stack = drop_pending CHR ''<'' stack
           in if stack = [] then GiveUp
              else if closes (hd stack) char then pop_or (Found (i + 1)) stack
              else GiveUp
         else if char = CHR ''>'' then
           if i > 0 \<and> (line ! (i - 1) = CHR ''-'' \<or> re_Search operator_re (take (i - 1) line) \<noteq> None)
           then Go stack
           else if stack \<noteq> [] \<and> hd stack = CHR ''<'' then pop_or (Found (i + 1)) stack
           else Go stack
         else if char = CHR '';'' then
           let stack = drop_pending CHR ''<'' stack in if stack = [] then GiveUp else Go stack
         else Go stack)"

function FindEndOfExpressionInLine :: "string \<Rightarrow> nat \<Rightarrow> char list \<Rightarrow> scan" where
  "FindEndOfExpressionInLine line i stack =
     (if i < length line then
        (case end_step line i stack of
           Go stack' \<Rightarrow> FindEndOfExpressionInLine line (i + 1) stack'
         | r \<Rightarrow> r)
      else Go stack)"
  by pat_completeness auto
termination by (relation "measure (\<lambda>(line, i, stack). length line - i)") auto

declare FindEndOfExpressionInLine.simps [simp del]

text \<open>The loop of \<open>CloseExpression\<close> over the following lines.\<close>

function close_lines :: "string list \<Rightarrow> nat \<Rightarrow> char list \<Rightarrow> string \<times> int \<times> int" where
  "close_lines elided linenum stack =
     (if stack \<noteq> [] \<and> linenum + 1 < length elided then
        (case FindEndOfExpressionInLine (elided ! (linenum + 1)) 0 stack of
           Found e \<Rightarrow> (elided ! (linenum + 1), int (linenum + 1), int e)
         | GiveUp \<Rightarrow> (elided ! (linenum + 1), int (length elided), -1)
         | Go stack' \<Rightarrow> close_lines elided (linenum + 1) stack')
      else (elided ! linenum, int (length elided), -1))"
  by pat_completeness auto
termination by (relation "measure (\<lambda>(elided, n, stack). length elided - n)") auto

declare close_lines.simps [simp del]

definition shift_re :: re where
  "shift_re = RSeq (rch CHR ''<'') (rset ''<='')"

definition CloseExpression :: "string list \<Rightarrow> nat \<Rightarrow> nat \<Rightarrow> (string \<times> int \<times> int) res" where
  "CloseExpression elided linenum pos =
     bindR (indexR elided linenum) (\<lambda>line.
     bindR (indexR line pos) (\<lambda>char.
       if char \<notin> set ''({[<'' \<or> re_Match shift_re (drop pos line) \<noteq> None
       then Inr (line, int (length elided), -1)
       else (case FindEndOfExpressionInLine line pos [] of
               Found e \<Rightarrow> Inr (line, int linenum, int e)
             | GiveUp \<Rightarrow> Inr (line, int (length elided), -1)
             | Go stack \<Rightarrow> Inr (close_lines elided linenum stack))))"

section \<open>Backward\<close>

definition ge_re :: re where
  "ge_re = rseq [rspace, rlit ''>='', rspace]"

text \<open>The step at position \<open>i\<close>; the second component says that the position before it is skipped.\<close>

definition start_step :: "string \<Rightarrow> nat \<Rightarrow> char list \<Rightarrow> scan \<times> bool" where
  "start_step line i stack =
     (let char = line ! i
      in if char \<in> set '')]}'' then (Go (char # stack), False)
         else if char = CHR ''>'' then
           if i > 0 \<and> (line ! (i - 1) = CHR ''-'' \<or> re_Match ge_re (drop (i - 1) line) \<noteq> None \<or>
                       re_Search operator_re (take i line) \<noteq> None)
           then (Go stack, True)
           else (Go (CHR ''>'' # stack), False)
         else if char = CHR ''<'' then
           if i > 0 \<and> line ! (i - 1) = CHR ''<'' then (Go stack, True)
           else if stack \<noteq> [] \<and> hd stack = CHR ''>'' then (pop_or (Found i) stack, False)
           else (Go stack, False)
         else if char \<in> set ''([{'' then
           let stack = drop_pending CHR ''>'' stack
           in if stack = [] then (GiveUp, False)
              else if closes char (hd stack) then (pop_or (Found i) stack, False)
              else (GiveUp, False)
         else if char = CHR '';'' then
           let stack = drop_pending CHR ''>'' stack
           in if stack = [] then (GiveUp, False) else (Go stack, False)
         else (Go stack, False))"

text \<open>The first argument is the number of characters still to be read, \<open>i + 1\<close> in the code.\<close>

fun find_start :: "string \<Rightarrow> nat \<Rightarrow> char list \<Rightarrow> scan" where
  "find_start line 0 stack = Go stack"
| "find_start line (Suc i) stack =
     (case start_step line i stack of
        (Go stack', skip) \<Rightarrow> find_start line (if skip then i - 1 else i) stack'
      | (r, skip) \<Rightarrow> r)"

definition FindStartOfExpressionInLine :: "string \<Rightarrow> int \<Rightarrow> char list \<Rightarrow> scan" where
  "FindStartOfExpressionInLine line endpos stack = find_start line (nat (endpos + 1)) stack"

fun reverse_lines :: "string list \<Rightarrow> nat \<Rightarrow> char list \<Rightarrow> string \<times> int \<times> int" where
  "reverse_lines elided 0 stack = (elided ! 0, 0, -1)"
| "reverse_lines elided (Suc n) stack =
     (if stack \<noteq> [] then
        (case FindStartOfExpressionInLine (elided ! n) (int (length (elided ! n)) - 1) stack of
           Found e \<Rightarrow> (elided ! n, int n, int e)
         | GiveUp \<Rightarrow> (elided ! n, 0, -1)
         | Go stack' \<Rightarrow> reverse_lines elided n stack')
      else (elided ! Suc n, 0, -1))"

definition ReverseCloseExpression :: "string list \<Rightarrow> nat \<Rightarrow> nat \<Rightarrow> (string \<times> int \<times> int) res" where
  "ReverseCloseExpression elided linenum pos =
     bindR (indexR elided linenum) (\<lambda>line.
     bindR (indexR line pos) (\<lambda>char.
       if char \<notin> set '')}]>'' then Inr (line, 0, -1)
       else (case FindStartOfExpressionInLine line (int pos) [] of
               Found e \<Rightarrow> Inr (line, int linenum, int e)
             | GiveUp \<Rightarrow> Inr (line, 0, -1)
             | Go stack \<Rightarrow> Inr (reverse_lines elided linenum stack))))"

section \<open>Positions found match the bracket\<close>

definition matches :: "char \<Rightarrow> char \<Rightarrow> bool" where
  "matches a b \<longleftrightarrow> closes a b \<or> (a = CHR ''<'' \<and> b = CHR ''>'')"

text \<open>The bracket at the bottom of the stack is the one the scan started from.\<close>

definition bottom :: "char \<Rightarrow> char list \<Rightarrow> bool" where
  "bottom a stack \<longleftrightarrow> stack \<noteq> [] \<and> last stack = a"

declare closes.simps [simp del]

lemma bottom_Cons: "bottom a (c # stack) \<longleftrightarrow> (if stack = [] then c = a else bottom a stack)"
  by (auto simp: bottom_def)

lemma bottom_tl: "bottom a stack \<Longrightarrow> tl stack \<noteq> [] \<Longrightarrow> bottom a (tl stack)"
  by (cases stack) (auto simp: bottom_def)

lemma bottom_single: "bottom a stack \<Longrightarrow> tl stack = [] \<Longrightarrow> hd stack = a"
  by (cases stack) (auto simp: bottom_def)

lemma bottom_push: "bottom a stack \<Longrightarrow> bottom a (c # stack)"
  by (auto simp: bottom_def)

lemma bottom_drop_pending: "bottom a stack \<Longrightarrow> drop_pending c stack \<noteq> [] \<Longrightarrow> bottom a (drop_pending c stack)"
  unfolding drop_pending_def by (induction stack) (auto simp: bottom_def split: if_splits)

lemma pop_or_Go [simp]: "pop_or r stack = Go s \<longleftrightarrow> (if tl stack = [] then r = Go s else s = tl stack)"
  by (auto simp: pop_or_def)

lemma pop_or_Found [simp]: "pop_or r stack = Found e \<longleftrightarrow> tl stack = [] \<and> r = Found e"
  by (auto simp: pop_or_def)

lemma end_step_Go:
  "end_step line i stack = Go stack' \<Longrightarrow> bottom a stack \<Longrightarrow> bottom a stack'"
  using bottom_drop_pending [of a stack "CHR ''<''"] bottom_push [of a stack]
    bottom_tl [of a stack] bottom_tl [of a "drop_pending CHR ''<'' stack"]
  by (auto simp: end_step_def Let_def split: if_splits)

lemma end_step_Found:
  assumes "end_step line i stack = Found e" "bottom a stack"
  shows "e = i + 1 \<and> matches a (line ! i)"
  using assms bottom_drop_pending [of a stack "CHR ''<''"]
    bottom_single [of a stack] bottom_single [of a "drop_pending CHR ''<'' stack"]
  by (auto simp: end_step_def Let_def matches_def split: if_splits)

lemma FindEnd_sound:
  "bottom a stack \<Longrightarrow>
   (FindEndOfExpressionInLine line i stack = Found e \<longrightarrow>
      i < e \<and> e \<le> length line \<and> matches a (line ! (e - 1))) \<and>
   (FindEndOfExpressionInLine line i stack = Go stack' \<longrightarrow> bottom a stack')"
proof (induction line i stack rule: FindEndOfExpressionInLine.induct)
  case (1 line i stack)
  show ?case
  proof (cases "i < length line")
    case True
    note unfold = FindEndOfExpressionInLine.simps [of line i stack]
    show ?thesis
    proof (cases "end_step line i stack")
      case (Found k)
      then show ?thesis using True end_step_Found [OF Found "1.prems"] by (auto simp: unfold)
    next
      case GiveUp
      then show ?thesis using True by (simp add: unfold)
    next
      case (Go st)
      then show ?thesis using True "1.IH" [OF True Go end_step_Go [OF Go "1.prems"]] by (auto simp: unfold)
    qed
  next
    case False
    then show ?thesis using "1.prems" by (auto simp: FindEndOfExpressionInLine.simps)
  qed
qed

lemma FindEnd_first:
  assumes "i < length line" "line ! i \<in> set ''({[<''"
    "FindEndOfExpressionInLine line i [] = r" "re_Search operator_re (take i line) = None \<or> line ! i \<noteq> CHR ''<''"
    "i = 0 \<or> line ! (i - 1) \<noteq> CHR ''<'' \<or> line ! i \<noteq> CHR ''<''"
  shows "r = FindEndOfExpressionInLine line (i + 1) [line ! i]"
  using assms by (subst (asm) FindEndOfExpressionInLine.simps) (auto simp: end_step_def Let_def)

text \<open>The results of scanning from an empty stack: the first bracket pushed is at or behind the
  given position, and is the bottom from then on.\<close>

lemma close_lines_sound:
  "bottom a stack \<Longrightarrow> n < length elided \<Longrightarrow>
   close_lines elided n stack = (l, k, p) \<Longrightarrow> p \<noteq> -1 \<Longrightarrow>
   int n < k \<and> k < int (length elided) \<and> l = elided ! nat k \<and> 0 < p \<and> p \<le> int (length l) \<and>
   matches a (l ! nat (p - 1))"
proof (induction elided n stack rule: close_lines.induct)
  case (1 elided n stack)
  note unfold = close_lines.simps [of elided n stack]
  let ?scan = "FindEndOfExpressionInLine (elided ! (n + 1)) 0 stack"
  show ?case
  proof (cases "stack \<noteq> [] \<and> n + 1 < length elided")
    case True
    show ?thesis
    proof (cases ?scan)
      case (Found e)
      then have "0 < e \<and> e \<le> length (elided ! (n + 1)) \<and> matches a (elided ! (n + 1) ! (e - 1))"
        using FindEnd_sound [OF "1.prems"(1)] by blast
      moreover have "l = elided ! (n + 1)" "k = int (n + 1)" "p = int e"
        using "1.prems"(3) True Found by (auto simp: unfold)
      moreover have "nat (1 + int n) = Suc n" by simp
      ultimately show ?thesis using True by (simp add: nat_diff_distrib)
    next
      case GiveUp
      then show ?thesis using "1.prems"(3,4) True by (simp add: unfold)
    next
      case (Go st)
      have "bottom a st" using FindEnd_sound [OF "1.prems"(1)] Go by blast
      moreover have "close_lines elided (n + 1) st = (l, k, p)" using "1.prems"(3) True Go by (simp add: unfold)
      ultimately have "int (n + 1) < k \<and> k < int (length elided) \<and> l = elided ! nat k \<and> 0 < p \<and> p \<le> int (length l) \<and>
          matches a (l ! nat (p - 1))"
        using "1.IH" [OF True Go] "1.prems"(4) True by blast
      moreover from this have "int n < k" by simp
      ultimately show ?thesis by blast
    qed
  next
    case False
    then have "p = -1" using "1.prems"(3) by (auto simp: unfold split: if_splits)
    then show ?thesis using "1.prems"(4) by simp
  qed
qed

section \<open>Nesting of brackets\<close>

text \<open>Properly nested sequences of parentheses, brackets and braces, and the brackets of a text.\<close>

inductive nested :: "string \<Rightarrow> bool" where
  nested_Nil: "nested []"
| nested_pair: "nested u \<Longrightarrow> nested v \<Longrightarrow> closes a b \<Longrightarrow> nested (a # u @ b # v)"

definition brackets :: "string \<Rightarrow> string" where
  "brackets s = filter (\<lambda>c. c \<in> set ''([{)]}'') s"

lemma brackets_append [simp]: "brackets (s @ t) = brackets s @ brackets t"
  by (simp add: brackets_def)

lemma brackets_Nil [simp]: "brackets [] = []"
  by (simp add: brackets_def)

text \<open>The same language by a stack of open brackets.\<close>

fun nest_run :: "char list \<Rightarrow> string \<Rightarrow> char list option" where
  "nest_run s [] = Some s"
| "nest_run s (c # w) =
     (if c \<in> set ''([{'' then nest_run (c # s) w
      else case s of [] \<Rightarrow> None | a # s' \<Rightarrow> if closes a c then nest_run s' w else None)"

lemma nest_run_append: "nest_run s (u @ v) = Option.bind (nest_run s u) (\<lambda>s'. nest_run s' v)"
  by (induction u arbitrary: s) (auto split: list.splits)

fun nested_rest :: "char list \<Rightarrow> string \<Rightarrow> bool" where
  "nested_rest [] w = nested w"
| "nested_rest (a # s) w = (\<exists>u b v. w = u @ b # v \<and> nested u \<and> closes a b \<and> nested_rest s v)"

lemma nest_run_rest: "nest_run s w = Some [] \<Longrightarrow> nested_rest s w"
proof (induction w arbitrary: s)
  case Nil
  then show ?case by (simp add: nested_Nil)
next
  case (Cons c w)
  show ?case
  proof (cases "c \<in> set ''([{''")
    case True
    then have "nest_run (c # s) w = Some []" using Cons.prems by simp
    then obtain u b v where w: "w = u @ b # v" "nested u" "closes c b" "nested_rest s v" using Cons.IH by fastforce
    show ?thesis
    proof (cases s)
      case Nil
      then show ?thesis using nested_pair [OF w(2) _ w(3), of v] w(1,4) by simp
    next
      case (Cons a s')
      then obtain u' b' v' where v: "v = u' @ b' # v'" "nested u'" "closes a b'" "nested_rest s' v'" using w(4) by auto
      have "c # w = (c # u @ b # u') @ b' # v'" using w(1) v(1) by simp
      moreover have "nested (c # u @ b # u')" using nested_pair [OF w(2) v(2) w(3)] .
      ultimately show ?thesis unfolding Cons nested_rest.simps using v(3,4) by blast
    qed
  next
    case False
    then obtain a s' where s: "s = a # s'" "closes a c" "nest_run s' w = Some []"
      using Cons.prems by (auto split: list.splits if_splits)
    then have "nested_rest s' w" using Cons.IH by blast
    then show ?thesis using s by (auto intro!: exI [of _ "[]"] nested_Nil)
  qed
qed

text \<open>The stack of a scan without its template brackets; the bracket at the bottom is left out.\<close>

definition open_of :: "char list \<Rightarrow> char list" where
  "open_of st = filter (\<lambda>c. c \<noteq> CHR ''<'') st"

lemma open_of_dropWhile: "open_of (dropWhile (\<lambda>d. d = CHR ''<'') st) = open_of st"
  unfolding open_of_def by (induction st) auto

lemma drop_pending_bottom:
  "a \<noteq> CHR ''<'' \<Longrightarrow> drop_pending CHR ''<'' (st @ [a]) = dropWhile (\<lambda>d. d = CHR ''<'') st @ [a]"
  unfolding drop_pending_def by (induction st) auto

lemma end_step_nest:
  assumes "end_step line i (st @ [a]) = Go st'" "a \<noteq> CHR ''<''"
  shows "\<exists>st1. st' = st1 @ [a] \<and> nest_run (open_of st) (brackets [line ! i]) = Some (open_of st1)"
proof -
  let ?c = "line ! i" and ?d = "dropWhile (\<lambda>d. d = CHR ''<'') st"
  note d = drop_pending_bottom [OF assms(2), of st]
  consider (op) "?c \<in> set ''([{''" | (lt) "?c = CHR ''<''" | (cl) "?c \<in> set '')]}''" | (gt) "?c = CHR ''>''" | (semi) "?c = CHR '';''"
    | (other) "?c \<notin> set ''([{<)]}>;''" by auto
  then show ?thesis
  proof cases
    case op
    then show ?thesis using assms by (intro exI [of _ "?c # st"]) (auto simp: end_step_def brackets_def open_of_def)
  next
    case lt
    then consider "st' = st @ [a]" | "st' = CHR ''<'' # st @ [a]" | st2 where "st = CHR ''<'' # st2" "st' = st2 @ [a]"
      using assms by (cases st) (simp_all add: end_step_def Let_def pop_or_def split: if_splits)
    then show ?thesis by cases (use lt in \<open>auto simp: brackets_def open_of_def intro: exI [of _ "CHR ''<'' # st"]\<close>)
  next
    case cl
    then have g: "pop_or (Found (i + 1)) (?d @ [a]) = Go st'" "closes (hd (?d @ [a])) ?c"
      using assms by (auto simp: end_step_def Let_def d split: if_splits)
    have "tl (?d @ [a]) \<noteq> []" "st' = tl (?d @ [a])" using g(1) by (simp_all only: pop_or_Go scan.distinct not_False_eq_True split: if_splits)
    then obtain x xs where x: "?d = x # xs" "st' = xs @ [a]" by (cases "?d" rule: list.exhaust) simp_all
    have "x \<noteq> CHR ''<''" using hd_dropWhile [of "\<lambda>d. d = CHR ''<''" st] unfolding x(1) by simp
    then have "open_of st = x # open_of xs" using open_of_dropWhile [of st] x(1) by (simp add: open_of_def)
    then show ?thesis using x g(2) cl by (auto simp: brackets_def)
  next
    case gt
    then consider "st' = st @ [a]" | st2 where "st = CHR ''<'' # st2" "st' = st2 @ [a]"
      using assms by (cases st) (simp_all add: end_step_def Let_def pop_or_def split: if_splits)
    then show ?thesis by cases (use gt in \<open>auto simp: brackets_def open_of_def\<close>)
  next
    case semi
    then have "st' = ?d @ [a]" using assms by (auto simp: end_step_def Let_def d split: if_splits)
    then show ?thesis using semi by (simp add: brackets_def open_of_dropWhile)
  next
    case other
    then have "st' = st @ [a]" using assms by (auto simp: end_step_def Let_def split: if_splits)
    then show ?thesis using other by (auto simp: brackets_def)
  qed
qed

lemma end_step_last:
  assumes "end_step line i (st @ [a]) = Found e" "a \<noteq> CHR ''<''"
  shows "open_of st = [] \<and> e = i + 1 \<and> closes a (line ! i)"
proof -
  note d = drop_pending_bottom [OF assms(2), of st]
  have "line ! i \<in> set '')]}''" using assms
    by (cases st) (auto simp: end_step_def Let_def split: if_splits)
  then have "pop_or (Found (i + 1)) (dropWhile (\<lambda>d. d = CHR ''<'') st @ [a]) = Found e"
      "closes (hd (dropWhile (\<lambda>d. d = CHR ''<'') st @ [a])) (line ! i)"
    using assms(1) by (auto simp: end_step_def Let_def d split: if_splits)
  then have "dropWhile (\<lambda>d. d = CHR ''<'') st = []" "e = i + 1" "closes a (line ! i)"
    by (cases "dropWhile (\<lambda>d. d = CHR ''<'') st"; auto)+
  then show ?thesis using open_of_dropWhile [of st] by (simp add: open_of_def)
qed

lemma FindEnd_nest:
  assumes "a \<noteq> CHR ''<''"
  shows "case FindEndOfExpressionInLine line i (st @ [a]) of
      Found e \<Rightarrow> i < e \<and> e \<le> length line \<and> closes a (line ! (e - 1)) \<and>
        nest_run (open_of st) (brackets (take (e - 1 - i) (drop i line))) = Some []
    | GiveUp \<Rightarrow> True
    | Go st' \<Rightarrow> \<exists>st1. st' = st1 @ [a] \<and> nest_run (open_of st) (brackets (drop i line)) = Some (open_of st1)"
proof (induction "length line - i" arbitrary: i st)
  case 0
  then show ?case by (simp add: FindEndOfExpressionInLine.simps)
next
  case (Suc n)
  then have i: "i < length line" by simp
  note unfold = FindEndOfExpressionInLine.simps [of line i "st @ [a]"]
  have dr: "drop i line = line ! i # drop (i + 1) line" using i by (simp add: Cons_nth_drop_Suc)
  show ?case
  proof (cases "end_step line i (st @ [a])")
    case (Found e)
    then show ?thesis using end_step_last [OF Found assms] i by (simp add: unfold)
  next
    case GiveUp
    then show ?thesis using i by (simp add: unfold)
  next
    case (Go st')
    then obtain st1 where s: "st' = st1 @ [a]" "nest_run (open_of st) (brackets [line ! i]) = Some (open_of st1)"
      using end_step_nest [OF Go assms] by blast
    have run: "nest_run (open_of st) (brackets (line ! i # w)) = nest_run (open_of st1) (brackets w)" for w
      using s(2) brackets_append [of "[line ! i]" w] by (simp add: nest_run_append)
    have "n = length line - (i + 1)" using Suc.hyps(2) by simp
    from Suc.hyps(1) [OF this, of st1] show ?thesis
      using i Go s(1) run by (auto simp: unfold dr take_Cons' split: scan.splits)
  qed
qed

definition text_between :: "string list \<Rightarrow> nat \<Rightarrow> nat \<Rightarrow> nat \<Rightarrow> nat \<Rightarrow> string" where
  "text_between elided n i k j =
     (if k = n then take (j - (i + 1)) (drop (i + 1) (elided ! n))
      else drop (i + 1) (elided ! n) @ concat (map ((!) elided) [n + 1 ..< k]) @ take j (elided ! k))"

lemma close_lines_nest:
  assumes "a \<noteq> CHR ''<''" "close_lines elided n (st @ [a]) = (l, k, p)" "p \<noteq> -1"
  shows "\<exists>m j. k = int m \<and> n < m \<and> m < length elided \<and> l = elided ! m \<and> p = int (Suc j) \<and> j < length l \<and> closes a (l ! j) \<and>
    nest_run (open_of st) (brackets (concat (map ((!) elided) [n + 1 ..< m]) @ take j l)) = Some []"
  using assms(2)
proof (induction "length elided - n" arbitrary: n st)
  case 0
  then show ?case using assms(3) by (simp add: close_lines.simps [of elided n])
next
  case (Suc x)
  note unfold = close_lines.simps [of elided n "st @ [a]"]
  show ?case
  proof (cases "n + 1 < length elided")
    case True
    let ?line = "elided ! (n + 1)"
    note f = FindEnd_nest [OF assms(1), where line = ?line and i = 0 and st = st]
    show ?thesis
    proof (cases "FindEndOfExpressionInLine ?line 0 (st @ [a])")
      case (Found e)
      then have "0 < e" "e \<le> length ?line" "closes a (?line ! (e - 1))" "nest_run (open_of st) (brackets (take (e - 1) ?line)) = Some []"
        using f by simp_all
      moreover have "l = ?line" "k = int (n + 1)" "p = int e" using Suc.prems True Found by (auto simp: unfold)
      ultimately show ?thesis using True by (intro exI [of _ "n + 1"] exI [of _ "e - 1"]) auto
    next
      case GiveUp
      then show ?thesis using Suc.prems True assms(3) by (simp add: unfold)
    next
      case (Go st')
      then obtain st1 where s: "st' = st1 @ [a]" "nest_run (open_of st) (brackets ?line) = Some (open_of st1)" using f by auto
      have "close_lines elided (n + 1) (st1 @ [a]) = (l, k, p)" "x = length elided - (n + 1)"
        using Suc.prems Suc.hyps(2) True Go s(1) by (simp_all add: unfold)
      from Suc.hyps(1) [OF this(2,1)] obtain m j where m: "k = int m" "n + 1 < m" "m < length elided" "l = elided ! m" "p = int (Suc j)"
          "j < length l" "closes a (l ! j)"
          "nest_run (open_of st1) (brackets (concat (map ((!) elided) [n + 1 + 1 ..< m]) @ take j l)) = Some []"
        by blast
      have "[n + 1 ..< m] = (n + 1) # [n + 1 + 1 ..< m]" using m(2) by (simp add: upt_conv_Cons)
      then have "nest_run (open_of st) (brackets (concat (map ((!) elided) [n + 1 ..< m]) @ take j l)) = Some []"
        using s(2) m(8) by (simp add: nest_run_append del: upt_Suc)
      then show ?thesis using m by (intro exI [of _ m] exI [of _ j]) simp
    qed
  qed (use Suc.prems assms(3) in \<open>auto simp: unfold\<close>)
qed

text \<open>C15: When \<open>CloseExpression\<close> is asked about an opening parenthesis, bracket or brace, not a template bracket, and returns a
  position, it is a position behind the given one, on a line of the file, the character before it is the closing character of
  the same kind, and the brackets of the text in between, which may span lines, are properly nested: it is the matching
  bracket.\<close>

theorem CloseExpression_matches:
  assumes "CloseExpression elided linenum pos = Inr (l, k, p)" "p \<noteq> -1"
    "elided ! linenum ! pos \<in> set ''({[''"
  shows "(int linenum < k \<or> (k = int linenum \<and> int pos + 1 < p)) \<and> k < int (length elided) \<and>
         l = elided ! nat k \<and> 0 < p \<and> p \<le> int (length l) \<and>
         closes (elided ! linenum ! pos) (l ! nat (p - 1)) \<and>
         nested (brackets (text_between elided linenum pos (nat k) (nat (p - 1))))"
proof -
  let ?line = "elided ! linenum" and ?a = "elided ! linenum ! pos"
  have ix: "linenum < length elided" "pos < length ?line"
    using assms(1) by (auto simp: CloseExpression_def bindR_Inr_iff)
  have a: "?a \<noteq> CHR ''<''" "?a \<in> set ''({[<''" using assms(3) by auto
  have first: "FindEndOfExpressionInLine ?line pos [] = FindEndOfExpressionInLine ?line (pos + 1) [?a]"
    using FindEnd_first [OF ix(2) a(2) refl] a(1) by blast
  have res: "(case FindEndOfExpressionInLine ?line (pos + 1) [?a] of
      Found e \<Rightarrow> Inr (?line, int linenum, int e)
    | GiveUp \<Rightarrow> Inr (?line, int (length elided), -1)
    | Go stack \<Rightarrow> Inr (close_lines elided linenum stack)) = (Inr (l, k, p) :: (string \<times> int \<times> int) res)"
    using assms ix a(2) by (auto simp: CloseExpression_def indexR_def first split: if_splits)
  have n: "nested w" if "nest_run [] w = Some []" for w using nest_run_rest [OF that] by simp
  note f = FindEnd_nest [OF a(1), where line = ?line and i = "pos + 1" and st = "[]", simplified append_Nil]
  show ?thesis
  proof (cases "FindEndOfExpressionInLine ?line (pos + 1) [?a]")
    case (Found e)
    then have e: "pos + 1 < e" "e \<le> length ?line" "closes ?a (?line ! (e - 1))"
        "nest_run [] (brackets (take (e - 1 - (pos + 1)) (drop (pos + 1) ?line))) = Some []"
      using f by (simp_all add: open_of_def)
    moreover have "l = ?line" "k = int linenum" "p = int e" using res Found by simp_all
    moreover have "nat (int e - 1) = e - 1" by simp
    ultimately show ?thesis using ix n [OF e(4)] by (simp add: text_between_def)
  next
    case GiveUp
    then show ?thesis using res assms(2) by simp
  next
    case (Go st)
    then obtain st1 where s: "st = st1 @ [?a]" "nest_run [] (brackets (drop (pos + 1) ?line)) = Some (open_of st1)"
      using f by (auto simp: open_of_def)
    have "close_lines elided linenum (st1 @ [?a]) = (l, k, p)" using res Go s(1) by simp
    from close_lines_nest [OF a(1) this assms(2)] obtain m j where m: "k = int m" "linenum < m" "m < length elided" "l = elided ! m"
        "p = int (Suc j)" "j < length l" "closes ?a (l ! j)"
        "nest_run (open_of st1) (brackets (concat (map ((!) elided) [linenum + 1 ..< m]) @ take j l)) = Some []"
      by blast
    have "nest_run [] (brackets (text_between elided linenum pos m j)) = Some []"
      using s(2) m(2,4,8) by (simp add: text_between_def nest_run_append del: upt_Suc)
    then show ?thesis using m n by simp
  qed
qed

theorem CloseExpression_matches_witness:
  "closes CHR ''('' (''f(a, g(b));'' ! nat (10 - 1)) \<and> nested (brackets (text_between [''f(a, g(b));''] 0 1 (nat 0) (nat (10 - 1))))"
proof -
  have "CloseExpression [''f(a, g(b));''] 0 1 = Inr (''f(a, g(b));'', 0, 10)" by code_simp
  from CloseExpression_matches [OF this] show ?thesis by simp
qed

section \<open>Bracketed text\<close>

definition plain :: "char \<Rightarrow> bool" where
  "plain c \<longleftrightarrow> c \<notin> set ''()[]{}<>;''"

inductive bracketed :: "string \<Rightarrow> bool" where
  empty: "bracketed []"
| char: "plain c \<Longrightarrow> bracketed w \<Longrightarrow> bracketed (c # w)"
| pair: "closes a b \<Longrightarrow> bracketed w \<Longrightarrow> bracketed v \<Longrightarrow> bracketed (a # w @ b # v)"

lemma closes_cases:
  assumes "closes a b"
  shows "a \<in> set ''([{'' \<and> b \<in> set '')]}'' \<and> a \<noteq> CHR ''<'' \<and> b \<noteq> CHR ''>'' \<and> b \<noteq> CHR ''<'' \<and>
         a \<noteq> CHR ''>'' \<and> a \<notin> set '')]}'' \<and> b \<notin> set ''([{''"
  using assms by (auto simp: closes.simps)

lemma FindEnd_char:
  "plain c \<Longrightarrow> FindEndOfExpressionInLine (u @ c # t) (length u) st =
     FindEndOfExpressionInLine (u @ c # t) (Suc (length u)) st"
  by (subst FindEndOfExpressionInLine.simps) (simp add: end_step_def plain_def)

lemma FindEnd_open:
  "closes a b \<Longrightarrow> FindEndOfExpressionInLine (u @ a # t) (length u) st =
     FindEndOfExpressionInLine (u @ a # t) (Suc (length u)) (a # st)"
  using closes_cases [of a b]
  by (subst FindEndOfExpressionInLine.simps) (auto simp: end_step_def Let_def)

lemma FindEnd_close:
  assumes "closes a b"
  shows "FindEndOfExpressionInLine (u @ b # t) (length u) (a # st) =
     (if st = [] then Found (Suc (length u)) else FindEndOfExpressionInLine (u @ b # t) (Suc (length u)) st)"
  using closes_cases [OF assms] assms
  by (subst FindEndOfExpressionInLine.simps) (auto simp: end_step_def Let_def pop_or_def drop_pending_def)

lemma FindEnd_bracketed:
  "bracketed w \<Longrightarrow> st \<noteq> [] \<Longrightarrow>
   FindEndOfExpressionInLine (u @ w @ t) (length u) st =
   FindEndOfExpressionInLine (u @ w @ t) (length u + length w) st"
proof (induction w arbitrary: u t st rule: bracketed.induct)
  case (char c w)
  have "FindEndOfExpressionInLine (u @ (c # w) @ t) (length u) st =
      FindEndOfExpressionInLine (u @ (c # w) @ t) (Suc (length u)) st"
    using FindEnd_char [OF char(1), of u "w @ t"] by simp
  then show ?case using char.IH [of st "u @ [c]" t] char.prems by simp
next
  case (pair a b w v)
  have "FindEndOfExpressionInLine (u @ (a # w @ b # v) @ t) (length u) st =
      FindEndOfExpressionInLine (u @ (a # w @ b # v) @ t) (Suc (length u)) (a # st)"
    using FindEnd_open [OF pair(1), of u "w @ b # v @ t"] by simp
  also have "\<dots> = FindEndOfExpressionInLine (u @ (a # w @ b # v) @ t) (Suc (length u) + length w) (a # st)"
    using pair.IH(1) [of "a # st" "u @ [a]" "b # v @ t"] by simp
  also have "\<dots> = FindEndOfExpressionInLine (u @ (a # w @ b # v) @ t) (Suc (Suc (length u) + length w)) st"
    using FindEnd_close [OF pair(1), of "u @ a # w" "v @ t"] pair.prems by simp
  also have "\<dots> = FindEndOfExpressionInLine (u @ (a # w @ b # v) @ t) (length u + length (a # w @ b # v)) st"
    using pair.IH(2) [of st "u @ a # w @ [b]" t] pair.prems by (simp add: add.assoc)
  finally show ?case .
qed simp

lemma FindEnd_pair:
  assumes "closes a b" "bracketed w"
  shows "FindEndOfExpressionInLine (u @ a # w @ b # v) (length u) [] = Found (length u + length w + 2)"
proof -
  have "FindEndOfExpressionInLine (u @ a # w @ b # v) (length u) [] =
      FindEndOfExpressionInLine (u @ a # w @ b # v) (Suc (length u)) [a]"
    using FindEnd_open [OF assms(1), of u "w @ b # v"] by simp
  also have "\<dots> = FindEndOfExpressionInLine (u @ a # w @ b # v) (Suc (length u) + length w) [a]"
    using FindEnd_bracketed [OF assms(2), of "[a]" "u @ [a]" "b # v"] by simp
  finally show ?thesis using FindEnd_close [OF assms(1), of "u @ a # w" v "[]"] by simp
qed

text \<open>The same backwards: reading from the right end of a bracketed text.\<close>

lemma find_start_char: "plain c \<Longrightarrow> find_start (u @ c # t) (Suc (length u)) st = find_start (u @ c # t) (length u) st"
  by (simp add: start_step_def plain_def Let_def)

lemma find_start_close:
  "closes a b \<Longrightarrow> find_start (u @ b # t) (Suc (length u)) st = find_start (u @ b # t) (length u) (b # st)"
  using closes_cases [of a b] by (auto simp: start_step_def Let_def)

lemma find_start_open:
  assumes "closes a b"
  shows "find_start (u @ a # t) (Suc (length u)) (b # st) =
     (if st = [] then Found (length u) else find_start (u @ a # t) (length u) st)"
  using closes_cases [OF assms] assms
  by (auto simp: start_step_def Let_def pop_or_def drop_pending_def)

lemma find_start_bracketed:
  "bracketed w \<Longrightarrow> st \<noteq> [] \<Longrightarrow>
   find_start (u @ w @ t) (length u + length w) st = find_start (u @ w @ t) (length u) st"
proof (induction w arbitrary: u t st rule: bracketed.induct)
  case (char c w)
  have "find_start (u @ (c # w) @ t) (length u + length (c # w)) st = find_start (u @ (c # w) @ t) (Suc (length u)) st"
    using char.IH [of st "u @ [c]" t] char.prems by simp
  then show ?case using find_start_char [OF char(1), of u "w @ t" st] by (simp del: find_start.simps)
next
  case (pair a b w v)
  have "find_start (u @ (a # w @ b # v) @ t) (length u + length (a # w @ b # v)) st =
      find_start (u @ (a # w @ b # v) @ t) (Suc (Suc (length u) + length w)) st"
    using pair.IH(2) [of st "u @ a # w @ [b]" t] pair.prems by (simp add: add.assoc del: find_start.simps)
  also have "\<dots> = find_start (u @ (a # w @ b # v) @ t) (Suc (length u) + length w) (b # st)"
    using find_start_close [OF pair(1), of "u @ a # w" "v @ t" st] by (simp del: find_start.simps)
  also have "\<dots> = find_start (u @ (a # w @ b # v) @ t) (Suc (length u)) (b # st)"
    using pair.IH(1) [of "b # st" "u @ [a]" "b # v @ t"] by (simp del: find_start.simps)
  also have "\<dots> = find_start (u @ (a # w @ b # v) @ t) (length u) st"
    using find_start_open [OF pair(1), of u "w @ b # v @ t" st] pair.prems by (simp del: find_start.simps)
  finally show ?case .
qed simp

lemma find_start_pair:
  assumes "closes a b" "bracketed w"
  shows "find_start (u @ a # w @ b # v) (length u + length w + 2) [] = Found (length u)"
proof -
  have "find_start (u @ a # w @ b # v) (Suc (length (u @ a # w))) [] =
      find_start (u @ a # w @ b # v) (Suc (length u) + length w) [b]"
    using find_start_close [OF assms(1), of "u @ a # w" v "[]"] by (simp del: find_start.simps)
  also have "\<dots> = find_start (u @ a # w @ b # v) (Suc (length u)) [b]"
    using find_start_bracketed [OF assms(2), of "[b]" "u @ [a]" "b # v"] by (simp del: find_start.simps)
  also have "\<dots> = Found (length u)"
    using find_start_open [OF assms(1), of u "w @ b # v" "[]"] by (simp del: find_start.simps)
  finally show ?thesis by (simp del: find_start.simps)
qed

text \<open>C16: On a line with a pair of matching brackets around properly bracketed text without template
  brackets and semicolons, \<open>CloseExpression\<close> at the opening bracket points just behind the closing one, and
  \<open>ReverseCloseExpression\<close> at the closing bracket points back at the opening one.\<close>

theorem Close_Reverse_roundtrip:
  assumes "n < length elided" "elided ! n = u @ a # w @ b # v" "closes a b" "bracketed w"
  shows "CloseExpression elided n (length u) = Inr (elided ! n, int n, int (length u + length w + 2)) \<and>
         ReverseCloseExpression elided n (length u + length w + 1) = Inr (elided ! n, int n, int (length u))"
proof
  note c = closes_cases [OF assms(3)]
  have nth: "elided ! n ! length u = a" "elided ! n ! (length u + length w + 1) = b"
    using assms(2) by (auto simp: nth_append)
  have len: "length u < length (elided ! n)" "length u + length w + 1 < length (elided ! n)"
    using assms(2) by auto
  have sh: "re_Match shift_re (drop (length u) (elided ! n)) = None"
    using assms(2) c by (simp add: re_Match_None shift_re_def rch_def)
  show "CloseExpression elided n (length u) = Inr (elided ! n, int n, int (length u + length w + 2))"
    using FindEnd_pair [OF assms(3,4), of u v] nth(1) len(1) sh c assms(1,2)
    by (auto simp: CloseExpression_def indexR_def)
  have "nat (int (length u + length w + 1) + 1) = length u + length w + 2" by simp
  then have "FindStartOfExpressionInLine (elided ! n) (int (length u + length w + 1)) [] = Found (length u)"
    using find_start_pair [OF assms(3,4), of u v] assms(2) by (simp only: FindStartOfExpressionInLine_def)
  then show "ReverseCloseExpression elided n (length u + length w + 1) = Inr (elided ! n, int n, int (length u))"
    using nth(2) len(2) c assms(1) by (auto simp: ReverseCloseExpression_def indexR_def)
qed

theorem Close_Reverse_roundtrip_witness:
  "CloseExpression [''f(a[i]) + 1''] 0 (length ''f'') = Inr (''f(a[i]) + 1'', 0, 7) \<and>
   ReverseCloseExpression [''f(a[i]) + 1''] 0 (length ''f(a[i]'') = Inr (''f(a[i]) + 1'', 0, 1)"
proof -
  have "bracketed (CHR ''a'' # CHR ''['' # ''i'' @ CHR '']'' # [])"
    by (intro bracketed.intros) (simp_all add: plain_def closes.simps)
  then have "bracketed ''a[i]''" by simp
  from Close_Reverse_roundtrip [of 0 "[''f(a[i]) + 1'']" "''f''" "CHR ''(''" "''a[i]''" "CHR '')''" "'' + 1''", OF _ _ _ this]
  show ?thesis by (simp add: closes.simps)
qed

end
