(* ===== verification/Lint_Function.thy ===== *)
theory Lint_Function
  imports Lint_Cleanse
begin

text \<open>
  Function lengths: \<open>_FunctionState\<close> and \<open>CheckForFunctionLengths\<close>. Shown: a report is made
  exactly when the body is longer than the trigger, its level is the capped binary
  logarithm of the excess and never below the verbosity; the check never raises.
\<close>

section \<open>The function state\<close>

record function_state =
  in_a_function :: bool
  lines_in_function :: nat
  current_function :: string

definition NORMAL_TRIGGER :: nat where "NORMAL_TRIGGER = 250"
definition TEST_TRIGGER :: nat where "TEST_TRIGGER = 400"

definition FunctionState_init :: function_state where
  "FunctionState_init = \<lparr>in_a_function = False, lines_in_function = 0, current_function = []\<rparr>"

definition fn_Begin :: "string \<Rightarrow> function_state \<Rightarrow> function_state" where
  "fn_Begin name fs = fs\<lparr>in_a_function := True, lines_in_function := 0, current_function := name\<rparr>"

definition fn_Count :: "function_state \<Rightarrow> function_state" where
  "fn_Count fs = (if in_a_function fs then fs\<lparr>lines_in_function := lines_in_function fs + 1\<rparr> else fs)"

definition fn_End :: "function_state \<Rightarrow> function_state" where
  "fn_End fs = fs\<lparr>in_a_function := False\<rparr>"

text \<open>\<open>int(math.log(q, 2))\<close> for a positive integer; \<open>math.log(0)\<close> raises.\<close>

fun floor_log2 :: "nat \<Rightarrow> nat" where
  "floor_log2 q = (if q < 2 then 0 else Suc (floor_log2 (q div 2)))"

declare floor_log2.simps [simp del]

text \<open>\<open>base * 2 ** level\<close>, a fraction when the level is negative.\<close>

definition exceeds_trigger :: "nat \<Rightarrow> nat \<Rightarrow> int \<Rightarrow> bool" where
  "exceeds_trigger n base level =
     (if 0 \<le> level then n > base * 2 ^ nat level else n * 2 ^ nat (- level) > base)"

definition shown_trigger :: "nat \<Rightarrow> int \<Rightarrow> nat" where
  "shown_trigger base level =
     (if 0 \<le> level then base * 2 ^ nat level else base div 2 ^ nat (- level))"

definition test_name_re :: re where
  "test_name_re = RSeq (rch CHR ''T'') (RGroup 1 (RAlt (rlit ''EST'') (rlit ''est'')))"

definition base_trigger :: "string \<Rightarrow> nat" where
  "base_trigger name = (if re_Match test_name_re name \<noteq> None then TEST_TRIGGER else NORMAL_TRIGGER)"

definition fn_Check :: "handler \<Rightarrow> string \<Rightarrow> int \<Rightarrow> function_state \<Rightarrow> lint \<Rightarrow> lint res" where
  "fn_Check error filename linenum fs lst =
     (if \<not> in_a_function fs then Inr lst
      else
        let base = base_trigger (current_function fs);
            level = verbose_level (cpp_state lst);
            n = lines_in_function fs
        in if exceeds_trigger n base level then
             if n div base = 0 then Inl ValueError
             else error lst (mk_diag filename linenum ''readability/fn_size''
                    (int (min 5 (floor_log2 (n div base))))
                    (''Small and focused functions are preferred: '' @ current_function fs @ '' has '' @
                     py_str_int (int n) @ '' non-comment lines (error triggered by exceeding '' @
                     py_str_int (int (shown_trigger base level)) @ '' lines).''))
           else Inr lst)"

section \<open>CheckForFunctionLengths\<close>

definition function_decl_re :: re where
  "function_decl_re = RSeq (RGroup 1 (RSeq (RChr is_word)
     (rstar (RGroup 2 (ralt [RChr is_word, rlit ''::'', rch CHR ''*'', rch CHR ''&'', rspace]))))) (rch CHR ''('')"

definition macro_name_re :: re where
  "macro_name_re = RSeq (rplus (RChr (\<lambda>c. is_upper c \<or> c = CHR ''_''))) REol"

definition trivial_body_re :: re where
  "trivial_body_re = RGroup 1 (RAlt (rch CHR '';'') (rch CHR ''}''))"

definition function_name_re :: re where
  "function_name_re = RSeq (RGroup 1 (rstar (RGroup 2 (RAlt (RChr is_word) (rch CHR '':''))))) (rch CHR ''('')"

definition parameter_re :: re where
  "parameter_re = RGroup 1 (rseq [rch CHR ''('', rstar rany, rch CHR '')''])"

definition closing_brace_re :: re where
  "closing_brace_re = rseq [RBol, rch CHR ''}'', rstar rspace, REol]"

definition blank_re :: re where
  "blank_re = rseq [RBol, rstar rspace, REol]"

definition starts_function :: "string \<Rightarrow> bool" where
  "starts_function line =
     (case re_Match function_decl_re line of
        None \<Rightarrow> False
      | Some m \<Rightarrow>
          let function_name = last (py_split_ws (group0 m 1))
          in function_name = ''TEST'' \<or> function_name = ''TEST_F'' \<or> re_Match macro_name_re function_name = None)"

definition tracked_name :: "string \<Rightarrow> string \<Rightarrow> string res" where
  "tracked_name line joined_line =
     (case re_Search function_name_re line of
        None \<Rightarrow> Inl AttributeError
      | Some m \<Rightarrow>
          let function = group0 m 1
          in if re_Match (rlit ''TEST'') function \<noteq> None then
               (case re_Search parameter_re joined_line of
                  None \<Rightarrow> Inr function
                | Some p \<Rightarrow> Inr (function @ group0 p 1))
             else Inr (function @ ''()''))"

text \<open>The search for the body: \<open>None\<close> when neither a brace nor an end was found.\<close>

fun find_body :: "string \<Rightarrow> string \<Rightarrow> string list \<Rightarrow> function_state \<Rightarrow> function_state option res" where
  "find_body line joined_line [] fs = Inr None"
| "find_body line joined_line (start_line # rest) fs =
     (let joined_line = joined_line @ '' '' @ py_lstrip start_line
      in if re_Search trivial_body_re start_line \<noteq> None then Inr (Some fs)
         else if re_Search (rch CHR ''{'') start_line \<noteq> None then
           bindR (tracked_name line joined_line) (\<lambda>function. Inr (Some (fn_Begin function fs)))
         else find_body line joined_line rest fs)"

definition CheckForFunctionLengths ::
  "handler \<Rightarrow> string \<Rightarrow> string list \<Rightarrow> nat \<Rightarrow> lint \<times> function_state \<Rightarrow> (lint \<times> function_state) res" where
  "CheckForFunctionLengths error filename lines linenum =
     (\<lambda>(lst, fs).
       bindR (indexR lines linenum) (\<lambda>line.
         if starts_function line then
           bindR (find_body line [] (drop linenum lines) fs) (\<lambda>body.
             case body of
               Some fs' \<Rightarrow> Inr (lst, fs')
             | None \<Rightarrow>
                 bindR (error lst (mk_diag filename (int linenum) ''readability/fn_size'' 5
                          ''Lint failed to find start of function body.'')) (\<lambda>lst'. Inr (lst', fs)))
         else if re_Match closing_brace_re line \<noteq> None then
           bindR (fn_Check error filename (int linenum) fs lst) (\<lambda>lst'. Inr (lst', fn_End fs))
         else if re_Match blank_re line = None then Inr (lst, fn_Count fs)
         else Inr (lst, fs)))"

section \<open>Properties\<close>

lemma floor_log2_bounds: "0 < q \<Longrightarrow> 2 ^ floor_log2 q \<le> q \<and> q < 2 ^ Suc (floor_log2 q)"
proof (induction q rule: floor_log2.induct)
  case (1 q)
  show ?case
  proof (cases "q < 2")
    case True
    then show ?thesis using "1.prems" by (simp add: floor_log2.simps)
  next
    case False
    let ?k = "floor_log2 (q div 2)"
    have h: "2 ^ ?k \<le> q div 2" "q div 2 < 2 ^ Suc ?k" using "1.IH" [OF False] False by auto
    have "2 * 2 ^ ?k \<le> 2 * (q div 2)" using h(1) by simp
    then have "2 * 2 ^ ?k \<le> q" by linarith
    moreover have "q < 2 * 2 ^ Suc ?k" using h(2) by linarith
    ultimately show ?thesis using False by (simp add: floor_log2.simps [of q])
  qed
qed

lemma floor_log2_ge: "2 ^ v \<le> q \<Longrightarrow> v \<le> floor_log2 q"
proof -
  assume q: "2 ^ v \<le> q"
  have "0 < q" using q by (metis gr_zeroI le_zero_eq power_not_zero zero_neq_numeral)
  then have "(2 :: nat) ^ v < 2 ^ Suc (floor_log2 q)" using floor_log2_bounds [of q] q by linarith
  then have "v < Suc (floor_log2 q)" by (rule power_less_imp_less_exp [rotated]) simp
  then show ?thesis by simp
qed

lemma base_trigger_pos: "0 < base_trigger name"
  by (simp add: base_trigger_def TEST_TRIGGER_def NORMAL_TRIGGER_def)

lemma exceeds_quotient:
  assumes "exceeds_trigger n base level" "0 \<le> level" "0 < base"
  shows "2 ^ nat level \<le> n div base"
proof -
  have "base * 2 ^ nat level \<le> n" using assms by (simp add: exceeds_trigger_def)
  then show ?thesis using assms(3) by (simp add: less_eq_div_iff_mult_less_eq mult.commute)
qed

lemma fn_Check_report:
  assumes "0 \<le> verbose_level (cpp_state lst)" "in_a_function fs"
    "base = base_trigger (current_function fs)" "n = lines_in_function fs"
  shows "if n > base * 2 ^ nat (verbose_level (cpp_state lst))
         then \<exists>k msg. fn_Check error filename linenum fs lst =
                error lst (mk_diag filename linenum ''readability/fn_size'' (int (min 5 k)) msg) \<and>
              2 ^ k * base \<le> n \<and> n < 2 ^ Suc k * base \<and>
              (verbose_level (cpp_state lst) \<le> 5 \<longrightarrow> verbose_level (cpp_state lst) \<le> int (min 5 k))
         else fn_Check error filename linenum fs lst = Inr lst"
proof -
  let ?v = "verbose_level (cpp_state lst)" and ?q = "n div base"
  have b: "0 < base" using assms(3) base_trigger_pos by simp
  have e: "exceeds_trigger n base ?v \<longleftrightarrow> n > base * 2 ^ nat ?v" using assms(1) by (simp add: exceeds_trigger_def)
  show ?thesis
  proof (cases "n > base * 2 ^ nat ?v")
    case True
    then have q: "2 ^ nat ?v \<le> ?q" using exceeds_quotient [OF _ assms(1) b] e by simp
    then have q0: "0 < ?q" by (metis gr_zeroI le_zero_eq power_not_zero zero_neq_numeral)
    let ?k = "floor_log2 ?q"
    have k: "2 ^ ?k \<le> ?q" "?q < 2 ^ Suc ?k" using floor_log2_bounds [OF q0] by auto
    have "2 ^ ?k * base \<le> n" using k(1) b by (simp add: less_eq_div_iff_mult_less_eq)
    moreover have "n < 2 ^ Suc ?k * base" using k(2) b by (simp only: div_less_iff_less_mult)
    moreover have "nat ?v \<le> ?k" by (rule floor_log2_ge [OF q])
    moreover have "fn_Check error filename linenum fs lst =
        error lst (mk_diag filename linenum ''readability/fn_size'' (int (min 5 ?k))
          (''Small and focused functions are preferred: '' @ current_function fs @ '' has '' @
           py_str_int (int n) @ '' non-comment lines (error triggered by exceeding '' @
           py_str_int (int (shown_trigger base ?v)) @ '' lines).''))"
      using True e q0 assms(2-4) by (simp add: fn_Check_def Let_def)
    ultimately show ?thesis using True by (auto intro!: exI [of _ ?k])
  next
    case False
    then show ?thesis using e assms(2-4) by (simp add: fn_Check_def Let_def)
  qed
qed

text \<open>C40: At the end of a function, with a verbosity that is not negative, \<open>Check\<close> reports exactly when the
  body has more lines than the trigger; the level of the report is the capped
  binary logarithm of the number of lines over the base trigger, and it reaches the verbosity
  whenever that is at most 5, so the report is not lost. The base is 250 lines, 400 for tests, so that 800
  lines are of level 1, and not of level 4 as the comment in the code has it.\<close>

theorem fn_Check_spec:
  assumes "0 \<le> verbose_level (cpp_state lst)" "in_a_function fs"
    "base = base_trigger (current_function fs)" "n = lines_in_function fs"
  shows "if n > base * 2 ^ nat (verbose_level (cpp_state lst))
         then \<exists>k msg. fn_Check error filename linenum fs lst =
                error lst (mk_diag filename linenum ''readability/fn_size'' (int (min 5 k)) msg) \<and>
              2 ^ k * base \<le> n \<and> n < 2 ^ Suc k * base \<and>
              (verbose_level (cpp_state lst) \<le> 5 \<longrightarrow> verbose_level (cpp_state lst) \<le> int (min 5 k))
         else fn_Check error filename linenum fs lst = Inr lst"
  by (rule fn_Check_report [OF assms])

theorem fn_Check_spec_witness:
  "\<exists>k msg. fn_Check Error ''a.cc'' 900 \<lparr>in_a_function = True, lines_in_function = 800, current_function = ''f()''\<rparr> lint_init =
       Error lint_init (mk_diag ''a.cc'' 900 ''readability/fn_size'' (int (min 5 k)) msg) \<and>
     2 ^ k * 250 \<le> (800 :: nat) \<and> (800 :: nat) < 2 ^ Suc k * 250"
proof -
  have b: "250 = base_trigger ''f()''" by code_simp
  have v: "verbose_level (cpp_state lint_init) = 1" by (simp add: lint_init_def CppLintState_init_def)
  show ?thesis
    using fn_Check_spec [of lint_init "\<lparr>in_a_function = True, lines_in_function = 800, current_function = ''f()''\<rparr>"
        250 800 Error "''a.cc''" 900] b
    by (auto simp: v)
qed

text \<open>With accepted filters the check fails exactly when the verbosity is negative and the body is shorter than the base trigger but
  longer than the fraction of it that the verbosity asks for: the logarithm of 0 is taken then.\<close>

theorem fn_Check_negative_verbosity:
  assumes "filters_valid lst" "in_a_function fs" "base = base_trigger (current_function fs)"
  shows "fn_Check Error filename linenum fs lst = Inl ValueError \<longleftrightarrow>
    verbose_level (cpp_state lst) < 0 \<and> lines_in_function fs < base \<and>
    base < lines_in_function fs * 2 ^ nat (- verbose_level (cpp_state lst))"
proof -
  let ?n = "lines_in_function fs" and ?v = "verbose_level (cpp_state lst)"
  have b: "0 < base" using assms(3) by (simp add: base_trigger_def TEST_TRIGGER_def NORMAL_TRIGGER_def)
  have e: "Error lst d \<noteq> Inl ValueError" for d using Error_returns [OF assms(1), of d] by auto
  have "fn_Check Error filename linenum fs lst = Inl ValueError \<longleftrightarrow> exceeds_trigger ?n base ?v \<and> ?n div base = 0"
    using e by (simp add: fn_Check_def Let_def assms(2) assms(3) [symmetric])
  also have "?n div base = 0 \<longleftrightarrow> ?n < base" using b by (simp add: div_eq_0_iff)
  also have "exceeds_trigger ?n base ?v \<and> ?n < base \<longleftrightarrow> ?v < 0 \<and> ?n < base \<and> base < ?n * 2 ^ nat (- ?v)"
  proof (cases "0 \<le> ?v")
    case True
    have "base \<le> base * 2 ^ nat ?v" using mult_le_mono2 [of 1 "2 ^ nat ?v" base] by (simp only: mult_1_right one_le_power one_le_numeral)
    then have "\<not> (base * 2 ^ nat ?v < ?n \<and> ?n < base)" by linarith
    then show ?thesis using True by (auto simp: exceeds_trigger_def)
  qed (auto simp: exceeds_trigger_def)
  finally show ?thesis .
qed

lemma open_paren_matches: "re_Match function_decl_re line \<noteq> None \<Longrightarrow> re_Search function_name_re line \<noteq> None"
proof
  assume "re_Match function_decl_re line \<noteq> None" and none: "re_Search function_name_re line = None"
  then obtain m where m: "re_Match function_decl_re line = Some m" by blast
  obtain k where k: "k < length line" "line ! k = CHR ''(''"
    using re_Match_Some(1) [OF m] unfolding function_decl_re_def rch_def
    by (simp only: mt_seq_set [of "m_end m"] mt_chr_set [of "m_end m"]) blast
  let ?star = "rstar (RGroup 2 (RAlt (RChr is_word) (rch CHR '':'')))"
  have "(k, Map.empty) \<in> set (mt ?star line k Map.empty)" by (subst mt_star_set) simp
  then have g: "(k, [1 \<mapsto> (k, k)]) \<in> set (mt (RGroup 1 ?star) line k Map.empty)"
    by (simp only: mt_group_set) blast
  have "(Suc k, [1 \<mapsto> (k, k)]) \<in> set (mt (rch CHR ''('') line k [1 \<mapsto> (k, k)])"
    using k by (simp add: rch_def)
  then have "(Suc k, [1 \<mapsto> (k, k)]) \<in> set (mt function_name_re line k Map.empty)"
    unfolding function_name_re_def mt_seq_set using g by blast
  then have "match_at function_name_re line k \<noteq> None" by (auto simp: match_at_def split: list.splits)
  then show False using none k(1) search_from_None [of function_name_re line 0] by (simp add: re_Search_def)
qed

lemma find_body_returns:
  "starts_function line \<Longrightarrow> \<exists>r. find_body line joined_line rest fs = Inr r"
proof (induction rest arbitrary: joined_line)
  case (Cons s rest)
  have "re_Match function_decl_re line \<noteq> None"
    using Cons.prems by (cases "re_Match function_decl_re line") (simp_all add: starts_function_def)
  then obtain m where "re_Search function_name_re line = Some m" using open_paren_matches by blast
  then have "\<exists>r. tracked_name line j = Inr r" for j
    by (auto simp: tracked_name_def Let_def split: option.splits)
  then have "\<exists>r. bindR (tracked_name line j) (\<lambda>function. Inr (Some (fn_Begin function fs))) = Inr r" for j
    by (metis bindR_simps(2))
  then show ?case using Cons.IH [OF Cons.prems] by (simp add: Let_def)
qed simp

context error_sink
begin

lemma fn_Check_returns:
  assumes "inv lst" "0 \<le> verbose_level (cpp_state lst)"
  shows "\<exists>lst'. fn_Check error filename linenum fs lst = Inr lst' \<and> inv lst'"
proof (cases "in_a_function fs")
  case True
  show ?thesis
    using fn_Check_report [OF assms(2) True refl refl, of "error" filename linenum] error_returns [OF _ assms(1)]
      assms(1) by (fastforce split: if_splits)
next
  case False
  then show ?thesis using assms(1) by (simp add: fn_Check_def)
qed

lemma CheckForFunctionLengths_returns:
  assumes "inv lst" "0 \<le> verbose_level (cpp_state lst)" "linenum < length lines"
  shows "\<exists>lst' fs'. CheckForFunctionLengths error filename lines linenum (lst, fs) = Inr (lst', fs') \<and> inv lst'"
proof -
  let ?line = "lines ! linenum"
  consider (start) "starts_function ?line"
    | (brace) "\<not> starts_function ?line" "re_Match closing_brace_re ?line \<noteq> None"
    | (other) "\<not> starts_function ?line" "re_Match closing_brace_re ?line = None" by blast
  then show ?thesis
  proof cases
    case start
    obtain r where r: "find_body ?line [] (drop linenum lines) fs = Inr r" using find_body_returns [OF start] by blast
    obtain lst' where "error lst (mk_diag filename (int linenum) ''readability/fn_size'' 5
        ''Lint failed to find start of function body.'') = Inr lst'" "inv lst'"
      using error_returns [of "mk_diag filename (int linenum) ''readability/fn_size'' 5
        ''Lint failed to find start of function body.''", OF _ assms(1)] by auto
    then show ?thesis using start r assms(1,3) by (cases r) (simp_all add: CheckForFunctionLengths_def indexR_def)
  next
    case brace
    obtain lst' where "fn_Check error filename (int linenum) fs lst = Inr lst'" "inv lst'"
      using fn_Check_returns [OF assms(1,2)] by blast
    then show ?thesis using brace assms(3) by (simp add: CheckForFunctionLengths_def indexR_def)
  next
    case other
    then show ?thesis using assms(1,3) by (simp add: CheckForFunctionLengths_def indexR_def)
  qed
qed

end

text \<open>\<open>CheckForFunctionLengths\<close> with the real error handler never raises on a line of the file, for accepted
  filters and a verbosity that is not negative: in particular the second
  search for the function name always succeeds.\<close>

theorem CheckForFunctionLengths_total:
  assumes "filters_valid lst" "0 \<le> verbose_level (cpp_state lst)" "linenum < length lines"
  shows "\<exists>lst' fs'. CheckForFunctionLengths Error filename lines linenum (lst, fs) = Inr (lst', fs') \<and>
           filters_valid lst'"
  by (rule cpplint_sink.CheckForFunctionLengths_returns [OF assms])

theorem CheckForFunctionLengths_total_witness:
  "\<exists>lst' fs'. CheckForFunctionLengths Error ''a.cc'' [''int f() {'', ''}''] 0 (lint_init, FunctionState_init) =
       Inr (lst', fs') \<and> filters_valid lst'"
  by (rule CheckForFunctionLengths_total)
     (simp_all add: filters_valid_def lint_init_def CppLintState_init_def DEFAULT_FILTERS_def filter_ok_def
        py_startswith_def)

end
