(* ===== verification/Lint_File.thy ===== *)
theory Lint_File
  imports Lint_Cleanse
begin

text \<open>
  The checks of \<open>cpplint.py\<close> that look at a whole file: copyright line, header guard, bad characters,
  newline at the end, and the per-line check for multi-line comments and strings. A line
  is a list of characters of the model, which has 256 of them. Shown: the shape of the suggested guard variable; a file with a correct guard gets no
  report; a file without one gets exactly one; none of the checks raises.
\<close>

section \<open>Copyright, indentation, characters, end of file\<close>

text \<open>\<open>re.search(r'Copyright', line, re.I)\<close>\<close>

definition has_copyright :: "string \<Rightarrow> bool" where
  "has_copyright line \<longleftrightarrow> py_in ''copyright'' (py_lower line)"

definition CheckForCopyright :: "handler \<Rightarrow> string \<Rightarrow> string list \<Rightarrow> lint \<Rightarrow> lint res" where
  "CheckForCopyright error filename lines lst =
     (if list_ex (\<lambda>i. has_copyright (lines ! i)) [1 ..< min (length lines) 11] then Inr lst
      else error lst (mk_diag filename 0 ''legal/copyright'' 5
             (''No copyright message found.  You should have a line: '' @ [dquote] @
              ''Copyright [year] <Copyright Owner>'' @ [dquote])))"

definition indent_re :: re where
  "indent_re = rseq [RBol, RGroup 1 (rstar (rch CHR '' '')), RChr (\<lambda>c. \<not> py_isspace c)]"

definition GetIndentLevel :: "string \<Rightarrow> nat" where
  "GetIndentLevel line =
     (case re_Match indent_re line of None \<Rightarrow> 0 | Some m \<Rightarrow> length (group0 m 1))"

text \<open>The replacement character is a parameter: how it is written depends on the encoding of the lines.\<close>

definition bad_character_diags :: "string \<Rightarrow> string \<Rightarrow> int \<Rightarrow> string \<Rightarrow> diag list" where
  "bad_character_diags replacement filename linenum line =
     (if py_in replacement line then
        [mk_diag filename linenum ''readability/utf8'' 5
           ''Line contains invalid UTF-8 (or Unicode replacement character).''] else []) @
     (if py_in [CHR 0x00] line then
        [mk_diag filename linenum ''readability/nul'' 5 ''Line contains NUL byte.''] else [])"

definition CheckForBadCharacters :: "handler \<Rightarrow> string \<Rightarrow> string \<Rightarrow> string list \<Rightarrow> lint \<Rightarrow> lint res" where
  "CheckForBadCharacters error replacement filename lines lst =
     foldR error lst
       (concat (map (\<lambda>(i, line). bad_character_diags replacement filename (int i) line)
                  (enumerate 0 lines)))"

definition CheckForNewlineAtEOF :: "handler \<Rightarrow> string \<Rightarrow> string list \<Rightarrow> lint \<Rightarrow> lint res" where
  "CheckForNewlineAtEOF error filename lines lst =
     (if length lines < 3 \<or> lines ! (length lines - 2) \<noteq> []
      then error lst (mk_diag filename (int (length lines) - 2) ''whitespace/ending_newline'' 5
             ''Could not find a newline character at the end of the file.'')
      else Inr lst)"

definition CheckForMultilineCommentsAndStrings ::
  "handler \<Rightarrow> string \<Rightarrow> string list \<Rightarrow> nat \<Rightarrow> lint \<Rightarrow> lint res" where
  "CheckForMultilineCommentsAndStrings error filename elided linenum lst =
     bindR (indexR elided linenum) (\<lambda>line0.
       let line = py_replace [backslash, backslash] [] line0
       in bindR (report_if (py_count line ''/*'' > py_count line ''*/'') error
                  (mk_diag filename (int linenum) ''readability/multiline_comment'' 5
                    (''Complex multi-line /*...*/-style comment found. Lint may give bogus warnings.  '' @
                     ''Consider replacing these with //-style comments, with #if 0...#endif, '' @
                     ''or with more clearly structured multi-line comments.'')) lst) (\<lambda>lst1.
          report_if (odd (int (py_count line [dquote]) - int (py_count line [backslash, dquote]))) error
            (mk_diag filename (int linenum) ''readability/multiline_string'' 5
              (''Multi-line string ('' @ [dquote] @ ''...'' @ [dquote] @ '') found.  This lint script doesn'' @
               [squote] @ ''t do well with such strings, and may give bogus warnings.  '' @
               ''Use C++11 raw strings or concatenation instead.'')) lst1))"

section \<open>Header guards\<close>

definition flymake_suffix_re :: re where
  "flymake_suffix_re = RSeq (rlit ''_flymake.h'') REol"

definition flymake_dir_re :: re where
  "flymake_dir_re = rseq [rlit ''/.flymake/'', RGroup 1 (rstar (rnot ''/'')), REol]"

text \<open>\<open>re.sub(r'/\.flymake/([^/]*)$', r'/\1', filename)\<close>: the pattern matches once at most.\<close>

definition drop_flymake_dir :: "string \<Rightarrow> string" where
  "drop_flymake_dir filename =
     (case re_Search flymake_dir_re filename of
        None \<Rightarrow> filename
      | Some m \<Rightarrow> take (m_start m) filename @ ''/'' @ group0 m 1 @ drop (m_end m) filename)"

definition restore_filename :: "string \<Rightarrow> string" where
  "restore_filename filename =
     py_replace ''c++'' ''cpp'' (py_replace ''C++'' ''cpp''
       (drop_flymake_dir (re_sub flymake_suffix_re ''.h'' filename)))"

definition is_alnum :: "char \<Rightarrow> bool" where
  "is_alnum c \<longleftrightarrow> is_lower c \<or> is_upper c \<or> is_digit c"

text \<open>\<open>repository_name\<close> is \<open>FileInfo(...).RepositoryName()\<close>, \<open>root\<close> the pattern
  \<open>'^' + _root + os.sep\<close> made from the \<open>--root\<close> flag.\<close>

definition GetHeaderGuardCPPVariable :: "(string \<Rightarrow> string) \<Rightarrow> re option \<Rightarrow> string \<Rightarrow> string" where
  "GetHeaderGuardCPPVariable repository_name root filename =
     (let path = repository_name (restore_filename filename);
          path = (case root of None \<Rightarrow> path | Some r \<Rightarrow> re_sub r [] path)
      in py_upper (map (\<lambda>c. if is_alnum c then c else CHR ''_'') path) @ ''_'')"

record guard_scan =
  g_ifndef :: string
  g_ifndef_linenum :: nat
  g_define :: string
  g_endif :: string
  g_endif_linenum :: nat

definition guard_init :: guard_scan where
  "guard_init = \<lparr>g_ifndef = [], g_ifndef_linenum = 0, g_define = [], g_endif = [], g_endif_linenum = 0\<rparr>"

definition guard_step :: "guard_scan \<Rightarrow> nat \<times> string \<Rightarrow> guard_scan" where
  "guard_step g = (\<lambda>(linenum, line).
     let linesplit = py_split_ws line;
         g1 = (if 2 \<le> length linesplit \<and> g_ifndef g = [] \<and> linesplit ! 0 = ''#ifndef''
               then g\<lparr>g_ifndef := linesplit ! 1, g_ifndef_linenum := linenum\<rparr> else g);
         g2 = (if 2 \<le> length linesplit \<and> g_define g1 = [] \<and> linesplit ! 0 = ''#define''
               then g1\<lparr>g_define := linesplit ! 1\<rparr> else g1)
     in if py_startswith line ''#endif'' then g2\<lparr>g_endif := line, g_endif_linenum := linenum\<rparr> else g2)"

definition scan_guard :: "string list \<Rightarrow> guard_scan" where
  "scan_guard lines = foldl guard_step guard_init (enumerate 0 lines)"

definition nolint_guard_re :: re where
  "nolint_guard_re = rseq [rlit ''//'', rstar rspace, rlit ''NOLINT(build/header_guard)'']"

definition endif_comment_re :: "string \<Rightarrow> re" where
  "endif_comment_re cppvar = rseq [rlit ''#endif'', rstar rspace, rlit ''//'', rstar rspace, rlit cppvar,
     ropt (RGroup 1 (rch CHR ''_'')), RWordB]"

definition endif_block_re :: "string \<Rightarrow> re" where
  "endif_block_re cppvar = rseq [rlit ''#endif'', rstar rspace, rlit ''/*'', rstar rspace, rlit cppvar,
     ropt (RGroup 1 (rch CHR ''_'')), rstar rspace, rlit ''*/'']"

definition quoted_dot_re :: "char \<Rightarrow> re" where
  "quoted_dot_re q = rseq [rch q, rstar (RAlt (rch CHR ''.'') (rnot [q])), rch q]"

definition any_line_comment_re :: re where
  "any_line_comment_re = rseq [RBol,
     rstar (ralt [quoted_dot_re squote, quoted_dot_re dquote, rnot [squote, dquote]]), rlit ''//'']"

definition guard_diag :: "string \<Rightarrow> int \<Rightarrow> int \<Rightarrow> string \<Rightarrow> diag" where
  "guard_diag filename linenum level message = mk_diag filename linenum ''build/header_guard'' level message"

text \<open>The part of \<open>CheckForHeaderGuard\<close> behind the test that a guard is present: the style of the guard,
  and the comment on the last \<open>#endif\<close>.\<close>

definition check_endif :: "handler \<Rightarrow> string \<Rightarrow> string \<Rightarrow> string list \<Rightarrow> guard_scan \<Rightarrow> lint \<Rightarrow> lint res" where
  "check_endif error filename cppvar rlines g lst =
     (let line_style = ''#endif line should be '' @ [dquote] @ ''#endif  // '' @ cppvar @ [dquote];
          block_style = ''#endif line should be '' @ [dquote] @ ''#endif  /* '' @ cppvar @ '' */'' @ [dquote];
          at_line = int (g_endif_linenum g)
      in (case re_Match (endif_comment_re cppvar) (g_endif g) of
           Some m \<Rightarrow> report_if (group m 1 = Some ''_'') error (guard_diag filename at_line 0 line_style) lst
         | None \<Rightarrow>
             let no_single_line_comments =
                   \<not> list_ex (\<lambda>i. re_Match any_line_comment_re (rlines ! i) \<noteq> None) [1 ..< length rlines - 1];
                 block = (if no_single_line_comments then re_Match (endif_block_re cppvar) (g_endif g) else None)
             in (case block of
                  Some m \<Rightarrow> report_if (group m 1 = Some ''_'') error (guard_diag filename at_line 0 block_style) lst
                | None \<Rightarrow> error lst (guard_diag filename at_line 5 line_style))))"

definition CheckForHeaderGuard ::
  "handler \<Rightarrow> (string \<Rightarrow> string) \<Rightarrow> re option \<Rightarrow> string \<Rightarrow> string list \<Rightarrow> lint \<Rightarrow> lint res" where
  "CheckForHeaderGuard error repository_name root filename rlines lst =
     (if list_ex (\<lambda>line. re_Search nolint_guard_re line \<noteq> None) rlines then Inr lst
      else
        let cppvar = GetHeaderGuardCPPVariable repository_name root filename;
            g = scan_guard rlines
        in if g_ifndef g = [] \<or> g_define g = [] \<or> g_ifndef g \<noteq> g_define g then
             error lst (guard_diag filename 0 5
               (''No #ifndef header guard found, suggested CPP variable is: '' @ cppvar))
           else
             bindR (if g_ifndef g \<noteq> cppvar then
                      bindR (ParseNolintSuppressions error filename (rlines ! g_ifndef_linenum g)
                               (int (g_ifndef_linenum g)) lst) (\<lambda>lst1.
                      error lst1 (guard_diag filename (int (g_ifndef_linenum g))
                        (if g_ifndef g \<noteq> cppvar @ ''_'' then 5 else 0)
                        (''#ifndef header guard has wrong style, please use: '' @ cppvar)))
                    else Inr lst) (\<lambda>lst2.
             bindR (ParseNolintSuppressions error filename (rlines ! g_endif_linenum g)
                      (int (g_endif_linenum g)) lst2) (\<lambda>lst3.
             check_endif error filename cppvar rlines g lst3)))"

section \<open>Properties\<close>

lemma is_upper_char_cases: "is_alnum c \<Longrightarrow> is_upper (upper_char c) \<or> is_digit (upper_char c)"
proof -
  assume "is_alnum c"
  moreover have "is_digit c \<Longrightarrow> upper_char c = c"
    by (simp add: upper_char_def is_lower_def is_digit_def in_range_def)
  ultimately show ?thesis by (auto simp: is_alnum_def is_upper_upper_char)
qed

lemma guard_chars:
  "c \<in> set (py_upper (map (\<lambda>c. if is_alnum c then c else CHR ''_'') path) @ ''_'') \<Longrightarrow>
   is_upper c \<or> is_digit c \<or> c = CHR ''_''"
proof -
  have "upper_char CHR ''_'' = CHR ''_''" by (simp add: upper_char_def is_lower_def in_range_def)
  then show "c \<in> set (py_upper (map (\<lambda>c. if is_alnum c then c else CHR ''_'') path) @ ''_'') \<Longrightarrow>
      is_upper c \<or> is_digit c \<or> c = CHR ''_''"
    by (auto simp: py_upper_def split: if_splits dest: is_upper_char_cases)
qed

text \<open>The guard variable that the linter suggests is always a macro name: it is made of capital letters,
  digits and underscores, and ends in an underscore.\<close>

theorem guard_variable_shape:
  "list_all (\<lambda>c. is_upper c \<or> is_digit c \<or> c = CHR ''_'') (GetHeaderGuardCPPVariable repository_name root filename) \<and>
   last (GetHeaderGuardCPPVariable repository_name root filename) = CHR ''_''"
  using guard_chars by (auto simp: GetHeaderGuardCPPVariable_def Let_def list_all_iff)

lemma guard_variable_word:
  "c \<in> set (GetHeaderGuardCPPVariable repository_name root filename) \<Longrightarrow> is_word c \<and> \<not> py_isspace c"
proof -
  assume "c \<in> set (GetHeaderGuardCPPVariable repository_name root filename)"
  then have "is_upper c \<or> is_digit c \<or> c = CHR ''_''"
    using guard_chars unfolding GetHeaderGuardCPPVariable_def Let_def by blast
  then show ?thesis
    by (auto simp: is_word_def py_isspace_def is_upper_def is_digit_def in_range_def)
qed

text \<open>Scanning a guarded header.\<close>

definition no_guard_line :: "string \<Rightarrow> bool" where
  "no_guard_line line \<longleftrightarrow>
     length (py_split_ws line) < 2 \<or> (py_split_ws line ! 0 \<noteq> ''#ifndef'' \<and> py_split_ws line ! 0 \<noteq> ''#define'')"

lemma words_aux_append: "list_all (\<lambda>c. \<not> py_isspace c) u \<Longrightarrow> words_aux acc (u @ s) = words_aux (rev u @ acc) s"
  by (induction u arbitrary: acc) auto

lemma words_two:
  assumes "list_all (\<lambda>c. \<not> py_isspace c) u" "u \<noteq> []" "list_all (\<lambda>c. \<not> py_isspace c) v" "v \<noteq> []"
  shows "py_split_ws (u @ '' '' @ v) = [u, v]"
  using words_aux_append [OF assms(1), of "[]" "'' '' @ v"] words_aux_append [OF assms(3), of "[]" "[]"] assms(2,4)
  by (simp add: py_split_ws_def py_isspace_def)

lemma in_set_enumerate_snd: "(i, x) \<in> set (enumerate n xs) \<Longrightarrow> x \<in> set xs"
  by (auto simp: enumerate_eq_zip dest: set_zip_rightD)

lemma guard_step_top:
  "no_guard_line line \<Longrightarrow> g_ifndef (guard_step g (i, line)) = g_ifndef g \<and> g_define (guard_step g (i, line)) = g_define g"
  by (auto simp: guard_step_def no_guard_line_def Let_def)

lemma guard_steps_top:
  "\<forall>(i, line) \<in> set xs. no_guard_line line \<Longrightarrow>
   g_ifndef (foldl guard_step g xs) = g_ifndef g \<and> g_define (foldl guard_step g xs) = g_define g"
  by (induction xs arbitrary: g) (auto simp: guard_step_top)

lemma guard_steps_body:
  "g_ifndef g \<noteq> [] \<Longrightarrow> g_define g \<noteq> [] \<Longrightarrow>
   g_ifndef (foldl guard_step g xs) = g_ifndef g \<and> g_define (foldl guard_step g xs) = g_define g"
  by (induction xs arbitrary: g) (auto simp: guard_step_def Let_def)

lemma guard_steps_rest:
  "\<forall>(i, line) \<in> set xs. \<not> py_startswith line ''#endif'' \<Longrightarrow>
   g_endif (foldl guard_step g xs) = g_endif g \<and> g_endif_linenum (foldl guard_step g xs) = g_endif_linenum g"
  by (induction xs arbitrary: g) (auto simp: guard_step_def Let_def)

lemma mt_lit_then: "mt (RSeq (rlit cs) q) s i g = (if prefix cs (drop i s) then mt q s (i + length cs) g else [])"
  by (simp add: mt_rlit)

lemma space_then_lit:
  assumes "cs \<noteq> []" "\<not> py_isspace (hd cs)"
  shows "mt (RSeq (rstar rspace) (RSeq (rlit cs) q)) s i g = mt (RSeq (rlit cs) q) s (run_end py_isspace s i) g"
  unfolding rspace_def
proof (rule mt_class_then)
  fix k assume "i \<le> k" "k < run_end py_isspace s i"
  then have k: "k < length s" "py_isspace (s ! k)" using in_run by blast+
  obtain c cs' where "cs = c # cs'" using assms(1) by (cases cs) auto
  then have "\<not> prefix cs (drop k s)" using k assms(2) by (auto simp: Cons_nth_drop_Suc [symmetric])
  then show "mt (RSeq (rlit cs) q) s k g = []" by (simp add: mt_lit_then del: mt.simps)
qed

lemma word_boundary_end: "s \<noteq> [] \<Longrightarrow> is_word (last s) \<Longrightarrow> word_boundary s (length s)"
  by (simp add: word_boundary_def word_at_def last_conv_nth)

lemma endif_comment_matches:
  assumes "cppvar \<noteq> []" "\<And>c. c \<in> set cppvar \<Longrightarrow> is_word c \<and> \<not> py_isspace c"
  shows "\<exists>m. re_Match (endif_comment_re cppvar) (''#endif  // '' @ cppvar) = Some m \<and> group m 1 = None"
proof -
  let ?s = "''#endif  // '' @ cppvar" and ?opt = "RSeq (ropt (RGroup 1 (rch CHR ''_''))) RWordB"
  obtain c cs where c: "cppvar = c # cs" using assms(1) by (cases cppvar) auto
  have sp: "\<not> py_isspace c" using assms(2) [of c] c by simp
  have "run_end py_isspace ?s 6 = 6 + length ''  ''"
    by (rule run_end_rest [of _ _ _ "CHR ''/''" "''/ '' @ cppvar"]) (simp_all add: py_isspace_def)
  then have r6: "run_end py_isspace ?s 6 = 8" by simp
  have "run_end py_isspace ?s 10 = 10 + length '' ''"
    by (rule run_end_rest [of _ _ _ c cs]) (use sp c in \<open>simp_all add: py_isspace_def\<close>)
  then have r10: "run_end py_isspace ?s 10 = 11" by simp
  have wb: "word_boundary ?s (length ?s)"
    by (rule word_boundary_end) (use assms last_in_set [OF assms(1)] in simp_all)
  have a1: "mt (RSeq (rlit ''#endif'') q) ?s 0 g = mt q ?s 6 g" for q g
    by (simp add: mt_lit_then eval_nat_numeral del: mt.simps)
  have a2: "mt (RSeq (rstar rspace) (RSeq (rlit ''//'') q)) ?s 6 g = mt (RSeq (rlit ''//'') q) ?s 8 g" for q g
    unfolding r6 [symmetric] by (rule space_then_lit) (simp_all add: py_isspace_def)
  have a3: "mt (RSeq (rlit ''//'') q) ?s 8 g = mt q ?s 10 g" for q g
    by (simp add: mt_lit_then del: mt.simps)
  have a4: "mt (RSeq (rstar rspace) (RSeq (rlit cppvar) q)) ?s 10 g = mt (RSeq (rlit cppvar) q) ?s 11 g" for q g
    unfolding r10 [symmetric] by (rule space_then_lit) (use sp c in simp_all)
  have a5: "mt (RSeq (rlit cppvar) q) ?s 11 g = mt q ?s (length ?s) g" for q g
    by (simp add: mt_lit_then eval_nat_numeral del: mt.simps)
  have a6: "mt ?opt ?s (length ?s) g = [(length ?s, g)]" for g
    using wb by (simp add: ropt_def rch_def)
  have "mt (endif_comment_re cppvar) ?s 0 Map.empty = [(length ?s, Map.empty)]"
    unfolding endif_comment_re_def rseq.simps by (simp only: a1 a2 a3 a4 a5 a6)
  then show ?thesis by (simp add: re_Match_def match_at_def group_def)
qed

lemma scan_guard_guarded:
  assumes lines: "rlines = pre @ (''#ifndef '' @ v) # (''#define '' @ v) # body @ (''#endif  // '' @ v) # rest"
    and v: "v \<noteq> []" "list_all (\<lambda>c. \<not> py_isspace c) v"
    and pre: "list_all no_guard_line pre"
    and rest: "list_all (\<lambda>l. \<not> py_startswith l ''#endif'') rest"
  shows "g_ifndef (scan_guard rlines) = v \<and> g_define (scan_guard rlines) = v \<and>
         g_endif (scan_guard rlines) = ''#endif  // '' @ v \<and>
         g_endif_linenum (scan_guard rlines) = length pre + 2 + length body"
proof -
  have w1: "py_split_ws (''#ifndef '' @ v) = [''#ifndef'', v]"
    using words_two [of "''#ifndef''" v] v by (simp add: py_isspace_def)
  have w2: "py_split_ws (''#define '' @ v) = [''#define'', v]"
    using words_two [of "''#define''" v] v by (simp add: py_isspace_def)
  define n where "n = length pre"
  define xs ys zs where "xs = enumerate 0 pre" and "ys = enumerate (Suc (Suc n)) body"
    and "zs = enumerate (Suc (n + 2 + length body)) rest"
  have zip: "enumerate 0 rlines = xs @ (n, ''#ifndef '' @ v) # (Suc n, ''#define '' @ v) # ys @
      (n + 2 + length body, ''#endif  // '' @ v) # zs"
    by (simp add: lines xs_def ys_def zs_def n_def enumerate_append_eq)
  define g1 where "g1 = foldl guard_step guard_init xs"
  have g1: "g_ifndef g1 = []" "g_define g1 = []"
    using guard_steps_top [of xs guard_init] pre
    by (auto simp: g1_def xs_def guard_init_def list_all_iff dest: in_set_enumerate_snd)
  define g2 where "g2 = guard_step (guard_step g1 (n, ''#ifndef '' @ v)) (Suc n, ''#define '' @ v)"
  have g2: "g_ifndef g2 = v" "g_define g2 = v"
    using g1 w1 w2 by (simp_all add: g2_def guard_step_def py_startswith_def)
  define g3 where "g3 = foldl guard_step g2 ys"
  have g3: "g_ifndef g3 = v" "g_define g3 = v"
    using guard_steps_body [of g2 ys] g2 v(1) by (simp_all add: g3_def)
  define g4 where "g4 = guard_step g3 (n + 2 + length body, ''#endif  // '' @ v)"
  have g4: "g_ifndef g4 = v" "g_define g4 = v" "g_endif g4 = ''#endif  // '' @ v"
      "g_endif_linenum g4 = n + 2 + length body"
    using g3 v(1) by (simp_all add: g4_def guard_step_def py_startswith_def)
  have "scan_guard rlines = foldl guard_step g4 zs"
    by (simp add: scan_guard_def zip g1_def g2_def g3_def g4_def)
  moreover have "\<forall>(i, line) \<in> set zs. \<not> py_startswith line ''#endif''"
    using rest by (auto simp: zs_def list_all_iff dest: in_set_enumerate_snd)
  ultimately show ?thesis
    using guard_steps_rest [of zs g4] guard_steps_body [of g4 zs] g4 v(1) by (simp add: n_def)
qed

text \<open>C27: A header with the suggested guard passes: when the file is some lines without guard directives, then
  \<open>#ifndef\<close> and \<open>#define\<close> of the suggested variable, any body, the closing
  \<open>#endif\<close> with the variable in a comment, and no further \<open>#endif\<close>, the check makes no report of its own; it
  only reads a possible \<open>NOLINT\<close> on the last line.\<close>

theorem header_guard_accepted:
  assumes "v = GetHeaderGuardCPPVariable repository_name root filename"
    "rlines = pre @ (''#ifndef '' @ v) # (''#define '' @ v) # body @ (''#endif  // '' @ v) # rest"
    "list_all no_guard_line pre" "list_all (\<lambda>l. \<not> py_startswith l ''#endif'') rest"
    "\<not> list_ex (\<lambda>line. re_Search nolint_guard_re line \<noteq> None) rlines"
  shows "CheckForHeaderGuard error repository_name root filename rlines lst =
           ParseNolintSuppressions error filename (''#endif  // '' @ v) (int (length pre + 2 + length body)) lst"
proof -
  let ?g = "scan_guard rlines" and ?k = "length pre + 2 + length body"
  have v: "v \<noteq> []" "\<And>c. c \<in> set v \<Longrightarrow> is_word c \<and> \<not> py_isspace c"
    using guard_variable_word unfolding assms(1) by (auto simp: GetHeaderGuardCPPVariable_def Let_def)
  then have "list_all (\<lambda>c. \<not> py_isspace c) v" by (simp add: list_all_iff)
  note g = scan_guard_guarded [OF assms(2) v(1) this assms(3,4)]
  obtain m where m: "re_Match (endif_comment_re v) (''#endif  // '' @ v) = Some m" "group m 1 = None"
    using endif_comment_matches [OF v] by blast
  have endif: "check_endif error filename v rlines ?g = Inr"
    using g m by (simp add: check_endif_def report_if_def fun_eq_iff)
  have nth: "rlines ! ?k = ''#endif  // '' @ v" by (simp add: assms(2) nth_append)
  have "bindR r Inr = r" for r :: "lint res" by (cases r) auto
  then show ?thesis
    using g v(1) assms(5) nth by (simp add: CheckForHeaderGuard_def Let_def endif assms(1) [symmetric])
qed

text \<open>A header without a guard is reported exactly once, at line 0, whatever else it contains, unless
  a comment suppresses the check.\<close>

theorem header_guard_missing:
  assumes "list_all no_guard_line rlines" "\<not> list_ex (\<lambda>line. re_Search nolint_guard_re line \<noteq> None) rlines"
  shows "CheckForHeaderGuard error repository_name root filename rlines lst =
           error lst (mk_diag filename 0 ''build/header_guard'' 5
             (''No #ifndef header guard found, suggested CPP variable is: '' @
              GetHeaderGuardCPPVariable repository_name root filename))"
proof -
  have "g_ifndef (scan_guard rlines) = []"
    using guard_steps_top [of "enumerate 0 rlines" guard_init] assms(1)
    by (auto simp: scan_guard_def guard_init_def list_all_iff dest: in_set_enumerate_snd)
  then show ?thesis using assms(2) by (simp add: CheckForHeaderGuard_def Let_def guard_diag_def)
qed

theorem header_guard_missing_witness:
  "CheckForHeaderGuard Error id None ''a.h'' [''int x;''] lint_init =
     Error lint_init (mk_diag ''a.h'' 0 ''build/header_guard'' 5
       (''No #ifndef header guard found, suggested CPP variable is: '' @ GetHeaderGuardCPPVariable id None ''a.h''))"
proof (rule header_guard_missing)
  show "list_all no_guard_line [''int x;'']" by code_simp
  show "\<not> list_ex (\<lambda>line. re_Search nolint_guard_re line \<noteq> None) [''int x;'']" by code_simp
qed

theorem header_guard_accepted_witness:
  "CheckForHeaderGuard Error id None ''a.h'' [''//'', ''#ifndef A_H_'', ''#define A_H_'', ''int x;'', ''#endif  // A_H_'', []]
     lint_init = ParseNolintSuppressions Error ''a.h'' ''#endif  // A_H_'' 4 lint_init"
proof -
  have v: "''A_H_'' = GetHeaderGuardCPPVariable id None ''a.h''" by code_simp
  have n: "\<not> list_ex (\<lambda>line. re_Search nolint_guard_re line \<noteq> None)
      [''//'', ''#ifndef A_H_'', ''#define A_H_'', ''int x;'', ''#endif  // A_H_'', []]" by code_simp
  have t: "list_all no_guard_line [''//'']" by code_simp
  show ?thesis
    using header_guard_accepted [OF v _ t _ n, of "[''int x;'']" "[[]]" Error lint_init]
    by (simp add: py_startswith_def)
qed

section \<open>The checks return\<close>

context error_sink
begin

lemma CheckForCopyright_returns:
  "inv lst \<Longrightarrow> \<exists>lst'. CheckForCopyright error filename lines lst = Inr lst' \<and> inv lst'"
  using error_returns by (auto simp: CheckForCopyright_def)

lemma CheckForBadCharacters_returns:
  "inv lst \<Longrightarrow> \<exists>lst'. CheckForBadCharacters error replacement filename lines lst = Inr lst' \<and> inv lst'"
  unfolding CheckForBadCharacters_def
  by (rule reports_return) (auto simp: list_all_iff bad_character_diags_def)

lemma CheckForNewlineAtEOF_returns:
  "inv lst \<Longrightarrow> \<exists>lst'. CheckForNewlineAtEOF error filename lines lst = Inr lst' \<and> inv lst'"
  using error_returns by (auto simp: CheckForNewlineAtEOF_def)

lemma check_endif_returns:
  "inv lst \<Longrightarrow> \<exists>lst'. check_endif error filename cppvar rlines g lst = Inr lst' \<and> inv lst'"
  using error_returns report_if_returns
  by (auto simp: check_endif_def Let_def guard_diag_def split: option.splits)

lemma CheckForHeaderGuard_returns:
  assumes "inv lst"
  shows "\<exists>lst'. CheckForHeaderGuard error repository_name root filename rlines lst = Inr lst' \<and> inv lst'"
proof -
  let ?cppvar = "GetHeaderGuardCPPVariable repository_name root filename" and ?g = "scan_guard rlines"
  have style: "\<exists>lst2. (if g_ifndef ?g \<noteq> ?cppvar then
      bindR (ParseNolintSuppressions error filename (rlines ! g_ifndef_linenum ?g) (int (g_ifndef_linenum ?g)) lst)
        (\<lambda>lst1. error lst1 (guard_diag filename (int (g_ifndef_linenum ?g))
           (if g_ifndef ?g \<noteq> ?cppvar @ ''_'' then 5 else 0)
           (''#ifndef header guard has wrong style, please use: '' @ ?cppvar))) else Inr lst) = Inr lst2 \<and> inv lst2"
  proof (cases "g_ifndef ?g = ?cppvar")
    case False
    obtain lst1 where "ParseNolintSuppressions error filename (rlines ! g_ifndef_linenum ?g)
        (int (g_ifndef_linenum ?g)) lst = Inr lst1" "inv lst1" using nolint_returns [OF assms] by blast
    then show ?thesis using error_returns False by (simp add: guard_diag_def)
  qed (use assms in simp)
  then obtain lst2 where l2: "(if g_ifndef ?g \<noteq> ?cppvar then
      bindR (ParseNolintSuppressions error filename (rlines ! g_ifndef_linenum ?g) (int (g_ifndef_linenum ?g)) lst)
        (\<lambda>lst1. error lst1 (guard_diag filename (int (g_ifndef_linenum ?g))
           (if g_ifndef ?g \<noteq> ?cppvar @ ''_'' then 5 else 0)
           (''#ifndef header guard has wrong style, please use: '' @ ?cppvar))) else Inr lst) = Inr lst2" "inv lst2"
    by blast
  obtain lst3 where l3: "ParseNolintSuppressions error filename (rlines ! g_endif_linenum ?g)
      (int (g_endif_linenum ?g)) lst2 = Inr lst3" "inv lst3" using nolint_returns [OF l2(2)] by blast
  obtain lst4 where l4: "check_endif error filename ?cppvar rlines ?g lst3 = Inr lst4" "inv lst4"
    using check_endif_returns [OF l3(2)] by blast
  obtain lst5 where l5: "error lst (guard_diag filename 0 5
      (''No #ifndef header guard found, suggested CPP variable is: '' @ ?cppvar)) = Inr lst5" "inv lst5"
    using error_returns [of "guard_diag filename 0 5
      (''No #ifndef header guard found, suggested CPP variable is: '' @ ?cppvar)", OF _ assms]
    by (auto simp: guard_diag_def)
  show ?thesis
    unfolding CheckForHeaderGuard_def Let_def l2(1) l5(1) bindR_simps l3(1) l4(1)
    using assms l4(2) l5(2) by simp
qed

end

text \<open>With accepted filters the checks of whole files never raise when they report to the real error
  handler, for any file: copyright, header guard, bad characters, newline at the end.\<close>

theorem file_checks_total:
  assumes "filters_valid lst"
  shows "(\<exists>lst'. CheckForCopyright Error filename lines lst = Inr lst' \<and> filters_valid lst') \<and>
         (\<exists>lst'. CheckForHeaderGuard Error repository_name root filename lines lst = Inr lst' \<and> filters_valid lst') \<and>
         (\<exists>lst'. CheckForBadCharacters Error replacement filename lines lst = Inr lst' \<and> filters_valid lst') \<and>
         (\<exists>lst'. CheckForNewlineAtEOF Error filename lines lst = Inr lst' \<and> filters_valid lst')"
  using cpplint_sink.CheckForCopyright_returns [OF assms] cpplint_sink.CheckForHeaderGuard_returns [OF assms]
    cpplint_sink.CheckForBadCharacters_returns [OF assms] cpplint_sink.CheckForNewlineAtEOF_returns [OF assms]
  by blast

theorem file_checks_total_witness:
  "\<exists>lst'. CheckForHeaderGuard Error id None ''a.h'' [''#ifndef X'', ''#define X'', ''#endif''] lint_init = Inr lst' \<and>
     filters_valid lst'"
proof -
  have "filters_valid lint_init"
    by (simp add: filters_valid_def lint_init_def CppLintState_init_def DEFAULT_FILTERS_def filter_ok_def
        py_startswith_def)
  from file_checks_total [OF this] show ?thesis by blast
qed

end
