(* ===== verification/Lint_Check.thy ===== *)
theory Lint_Check
  imports Py_Re_Facts Lint_Expr Lint_Function Lint_File
begin

text \<open>
  The frame of the checks that look at one line: a check is an action on the state of the linter,
  built from reports, conditions, sequences and computations that may raise. \<open>keeps\<close> is total
  correctness for an invariant of that state, with one rule per construct (collection
  \<open>keeps_intros\<close>); inside the contract of the error handler every documented report keeps the
  invariant. Then the bounds of the positions \<open>CloseExpression\<close> and \<open>ReverseCloseExpression\<close> return, for
  any bracket, and the small checks of single lines.
\<close>

section \<open>Actions\<close>

type_synonym act = "lint \<Rightarrow> lint res"

abbreviation skip :: act where "skip \<equiv> Inr"

definition report :: "handler \<Rightarrow> string \<Rightarrow> int \<Rightarrow> string \<Rightarrow> int \<Rightarrow> string \<Rightarrow> act" where
  "report error filename linenum category confidence message lst =
     error lst (mk_diag filename linenum category confidence message)"

definition onlyif :: "bool \<Rightarrow> act \<Rightarrow> act" where
  "onlyif b a = (if b then a else skip)"

definition seqA :: "act list \<Rightarrow> act" where
  "seqA as lst = foldR (\<lambda>s a. a s) lst as"

definition withR :: "'a res \<Rightarrow> ('a \<Rightarrow> act) \<Rightarrow> act" where
  "withR r f lst = bindR r (\<lambda>x. f x lst)"

text \<open>\<open>if match: ...\<close> with the match at hand.\<close>

definition on_some :: "'a option \<Rightarrow> ('a \<Rightarrow> act) \<Rightarrow> act" where
  "on_some r f = (case r of None \<Rightarrow> skip | Some x \<Rightarrow> f x)"

definition keeps :: "(lint \<Rightarrow> bool) \<Rightarrow> act \<Rightarrow> bool" where
  "keeps I a \<longleftrightarrow> (\<forall>st. I st \<longrightarrow> (\<exists>st'. a st = Inr st' \<and> I st'))"

named_theorems keeps_intros \<open>invariants of the linter state through the constructs of a check\<close>

lemma keepsD: "keeps I a \<Longrightarrow> I st \<Longrightarrow> \<exists>st'. a st = Inr st' \<and> I st'"
  by (simp add: keeps_def)

lemma keeps_skip [keeps_intros]: "keeps I skip"
  by (simp add: keeps_def)

lemma keeps_onlyif [keeps_intros]: "(b \<Longrightarrow> keeps I a) \<Longrightarrow> keeps I (onlyif b a)"
  by (simp add: onlyif_def keeps_skip)

lemma keeps_if [keeps_intros]: "(b \<Longrightarrow> keeps I a) \<Longrightarrow> (\<not> b \<Longrightarrow> keeps I c) \<Longrightarrow> keeps I (if b then a else c)"
  by simp

lemma keeps_seq_Nil [keeps_intros]: "keeps I (seqA [])"
  by (simp add: keeps_def seqA_def)

lemma keeps_seq_Cons [keeps_intros]: "keeps I a \<Longrightarrow> keeps I (seqA as) \<Longrightarrow> keeps I (seqA (a # as))"
  unfolding keeps_def seqA_def by fastforce

lemma keeps_seq: "(\<And>a. a \<in> set as \<Longrightarrow> keeps I a) \<Longrightarrow> keeps I (seqA as)"
  by (induction as) (auto intro: keeps_intros)

lemma keeps_on_some [keeps_intros]: "(\<And>x. r = Some x \<Longrightarrow> keeps I (f x)) \<Longrightarrow> keeps I (on_some r f)"
  by (cases r) (auto simp: on_some_def intro: keeps_intros)

lemma keeps_case_option [keeps_intros]:
  "(r = None \<Longrightarrow> keeps I a) \<Longrightarrow> (\<And>x. r = Some x \<Longrightarrow> keeps I (f x)) \<Longrightarrow>
   keeps I (case r of None \<Rightarrow> a | Some x \<Rightarrow> f x)"
  by (cases r) auto

lemma keeps_case_prod [keeps_intros]: "(\<And>x y. r = (x, y) \<Longrightarrow> keeps I (f x y)) \<Longrightarrow> keeps I (case r of (x, y) \<Rightarrow> f x y)"
  by (cases r) auto

lemma keeps_Let [keeps_intros]: "(\<And>x. x = t \<Longrightarrow> keeps I (f x)) \<Longrightarrow> keeps I (Let t f)"
  by simp

lemma keeps_withR: "\<exists>x. r = Inr x \<and> keeps I (f x) \<Longrightarrow> keeps I (withR r f)"
  by (auto simp: keeps_def withR_def)

lemma keeps_withR_Inr [keeps_intros]: "keeps I (f x) \<Longrightarrow> keeps I (withR (Inr x) f)"
  by (simp add: keeps_def withR_def)

lemma keeps_index [keeps_intros]:
  "i < length xs \<Longrightarrow> keeps I (f (xs ! i)) \<Longrightarrow> keeps I (withR (indexR xs i) f)"
  by (simp add: keeps_withR indexR_def)

lemma keeps_returns: "\<exists>x. r = Inr x \<Longrightarrow> (\<And>x. keeps I (f x)) \<Longrightarrow> keeps I (withR r f)"
  by (auto intro: keeps_withR)

lemma keeps_map: "(\<And>x. keeps I (f x)) \<Longrightarrow> keeps I (seqA (map f xs))"
  by (rule keeps_seq) auto

context error_sink
begin

lemma keeps_report [keeps_intros]:
  "c \<in> set ERROR_CATEGORIES \<Longrightarrow> 0 \<le> n \<Longrightarrow> n \<le> 5 \<Longrightarrow> keeps inv (report error f l c n m)"
  by (simp add: keeps_def report_def error_returns)

lemma keeps_nolint [keeps_intros]: "keeps inv (ParseNolintSuppressions error filename raw_line linenum)"
  using nolint_returns by (simp add: keeps_def)

end

section \<open>Python's view of positions\<close>

text \<open>\<open>s.find(sub, start)\<close> for a start that is not negative.\<close>

definition py_find_from :: "string \<Rightarrow> string \<Rightarrow> nat \<Rightarrow> int" where
  "py_find_from s sub start =
     (if length s < start then -1
      else case find_at sub (drop start s) start of None \<Rightarrow> -1 | Some i \<Rightarrow> int i)"

lemma py_index_nat [simp]: "py_index xs (int i) = indexR xs i"
  by (auto simp: py_index_def indexR_def)

section \<open>Where CloseExpression ends\<close>

lemma end_step_Found_pos: "end_step line i stack = Found e \<Longrightarrow> e = i + 1"
  by (auto simp: end_step_def Let_def pop_or_def split: if_splits)

lemma end_step_empty: "end_step line i [] \<noteq> Found e"
  by (auto simp: end_step_def Let_def pop_or_def drop_pending_def split: if_splits)

lemma FindEnd_pos:
  "FindEndOfExpressionInLine line i stack = Found e \<Longrightarrow> i < e \<and> e \<le> length line \<and> (stack = [] \<longrightarrow> i + 1 < e)"
proof (induction line i stack rule: FindEndOfExpressionInLine.induct)
  case (1 line i stack)
  note unfold = FindEndOfExpressionInLine.simps [of line i stack]
  have i: "i < length line" using "1.prems" by (auto simp: unfold split: if_splits)
  show ?case
  proof (cases "end_step line i stack")
    case (Found k)
    then show ?thesis using "1.prems" i end_step_Found_pos [OF Found] end_step_empty [of line i]
      by (cases "stack = []") (auto simp: unfold)
  next
    case GiveUp
    then show ?thesis using "1.prems" i by (simp add: unfold)
  next
    case (Go st)
    then show ?thesis using "1.prems" "1.IH" [OF i Go] i by (auto simp: unfold)
  qed
qed

text \<open>A position that was found: its line number and column as natural numbers.\<close>

definition found_at :: "string list \<Rightarrow> string \<Rightarrow> int \<Rightarrow> int \<Rightarrow> nat \<Rightarrow> nat \<Rightarrow> bool" where
  "found_at elided l k p n q \<longleftrightarrow> k = int n \<and> p = int q \<and> n < length elided \<and> l = elided ! n \<and> q \<le> length l"

lemma close_lines_pos:
  "close_lines elided n stack = (l, k, p) \<Longrightarrow>
   (p = -1 \<and> k = int (length elided)) \<or> (\<exists>m q. found_at elided l k p m q \<and> n < m \<and> 0 < q)"
proof (induction elided n stack rule: close_lines.induct)
  case (1 elided n stack)
  note unfold = close_lines.simps [of elided n stack]
  let ?scan = "FindEndOfExpressionInLine (elided ! (n + 1)) 0 stack"
  show ?case
  proof (cases "stack \<noteq> [] \<and> n + 1 < length elided")
    case True
    show ?thesis
    proof (cases ?scan)
      case (Found e)
      have "found_at elided l k p (n + 1) e"
        using FindEnd_pos [OF Found] "1.prems" True Found by (auto simp: unfold found_at_def)
      then show ?thesis using FindEnd_pos [OF Found] by auto
    next
      case GiveUp
      then show ?thesis using "1.prems" True by (auto simp: unfold)
    next
      case (Go st)
      then have "close_lines elided (n + 1) st = (l, k, p)" using "1.prems" True by (simp add: unfold)
      from "1.IH" [OF True Go this] show ?thesis by (auto intro: Suc_lessD)
    qed
  next
    case False
    then show ?thesis using "1.prems" by (auto simp: unfold split: if_splits)
  qed
qed

lemma CloseExpression_pos:
  assumes "CloseExpression elided n pos = Inr (l, k, p)"
  shows "(p = -1 \<and> k = int (length elided)) \<or>
         (\<exists>m q. found_at elided l k p m q \<and> 0 < q \<and> (n < m \<or> (m = n \<and> pos + 1 < q)))"
proof -
  have ix: "n < length elided" "pos < length (elided ! n)"
    using assms by (auto simp: CloseExpression_def bindR_Inr_iff)
  show ?thesis
  proof (cases "FindEndOfExpressionInLine (elided ! n) pos []")
    case (Found e)
    then show ?thesis using assms ix FindEnd_pos [OF Found]
      by (auto simp: CloseExpression_def indexR_def found_at_def split: if_splits)
  next
    case GiveUp
    then show ?thesis using assms ix by (auto simp: CloseExpression_def indexR_def split: if_splits)
  next
    case (Go st)
    then show ?thesis using assms ix close_lines_pos [of elided n st l k p]
      by (auto simp: CloseExpression_def indexR_def split: if_splits)
  qed
qed

lemma CloseExpression_returns:
  "n < length elided \<Longrightarrow> pos < length (elided ! n) \<Longrightarrow> \<exists>l k p. CloseExpression elided n pos = Inr (l, k, p)"
  by (cases "FindEndOfExpressionInLine (elided ! n) pos []") (auto simp: CloseExpression_def indexR_def intro: prod_cases3)

text \<open>How a check uses the result: nothing was found and the column is -1, or the end is behind the start.\<close>

lemma keeps_CloseExpression:
  assumes "n < length elided" "pos < length (elided ! n)"
    and "\<And>l. keeps I (f (l, int (length elided), -1))"
    and "\<And>m q. m < length elided \<Longrightarrow> q \<le> length (elided ! m) \<Longrightarrow> 0 < q \<Longrightarrow> n < m \<or> (m = n \<and> pos + 1 < q) \<Longrightarrow>
           keeps I (f (elided ! m, int m, int q))"
  shows "keeps I (withR (CloseExpression elided n pos) f)"
proof -
  obtain l k p where r: "CloseExpression elided n pos = Inr (l, k, p)"
    using CloseExpression_returns [OF assms(1,2)] by blast
  have "keeps I (f (l, k, p))" using CloseExpression_pos [OF r] assms(3,4) by (auto simp: found_at_def)
  with r show ?thesis by (auto intro: keeps_withR)
qed

section \<open>Where ReverseCloseExpression ends\<close>

lemma start_step_Found_pos: "start_step line i stack = (Found e, b) \<Longrightarrow> e = i"
  by (auto simp: start_step_def Let_def pop_or_def split: if_splits)

lemma find_start_pos: "find_start line i stack = Found e \<Longrightarrow> e < i"
proof (induction i arbitrary: stack rule: less_induct)
  case (less i)
  then obtain j where j: "i = Suc j" by (cases i) auto
  obtain r b where r: "start_step line j stack = (r, b)" by (cases "start_step line j stack")
  show ?case
  proof (cases r)
    case (Found k)
    then show ?thesis using less.prems r start_step_Found_pos [of line j stack k b] by (simp add: j)
  next
    case (Go st)
    let ?i = "if b then j - 1 else j"
    have "?i < i" by (auto simp: j)
    moreover have "find_start line ?i st = Found e" using less.prems Go r by (simp add: j)
    ultimately have "e < ?i" by (rule less.IH)
    with \<open>?i < i\<close> show ?thesis by simp
  qed (use less.prems r in \<open>simp add: j\<close>)
qed

lemma FindStart_pos: "FindStartOfExpressionInLine line endpos stack = Found e \<Longrightarrow> int e \<le> endpos"
  using find_start_pos [of line "nat (endpos + 1)" stack e] by (simp add: FindStartOfExpressionInLine_def)

lemma reverse_lines_pos:
  "reverse_lines elided n stack = (l, k, p) \<Longrightarrow> n < length elided \<Longrightarrow>
   (p = -1 \<and> k = 0) \<or> (\<exists>m q. found_at elided l k p m q \<and> q < length l \<and> m < n)"
proof (induction elided n stack rule: reverse_lines.induct)
  case (2 elided n stack)
  let ?scan = "FindStartOfExpressionInLine (elided ! n) (int (length (elided ! n)) - 1) stack"
  show ?case
  proof (cases ?scan)
    case (Found e)
    then show ?thesis using 2 FindStart_pos [OF Found] by (auto simp: found_at_def split: if_splits)
  next
    case GiveUp
    then show ?thesis using 2 by (auto split: if_splits)
  next
    case (Go st)
    then show ?thesis using "2.prems" "2.IH" [OF _ Go] by (auto split: if_splits intro: less_SucI)
  qed
qed simp

lemma ReverseCloseExpression_pos:
  assumes "ReverseCloseExpression elided n pos = Inr (l, k, p)"
  shows "(p = -1 \<and> k = 0) \<or> (\<exists>m q. found_at elided l k p m q \<and> q < length l \<and> m \<le> n)"
proof -
  have ix: "n < length elided" "pos < length (elided ! n)"
    using assms by (auto simp: ReverseCloseExpression_def bindR_Inr_iff)
  show ?thesis
  proof (cases "FindStartOfExpressionInLine (elided ! n) (int pos) []")
    case (Found e)
    then show ?thesis using assms ix FindStart_pos [OF Found]
      by (auto simp: ReverseCloseExpression_def indexR_def found_at_def split: if_splits)
  next
    case GiveUp
    then show ?thesis using assms ix by (auto simp: ReverseCloseExpression_def indexR_def split: if_splits)
  next
    case (Go st)
    then show ?thesis using assms ix reverse_lines_pos [of elided n st l k p]
      by (auto simp: ReverseCloseExpression_def indexR_def split: if_splits intro: less_imp_le)
  qed
qed

lemma ReverseCloseExpression_returns:
  "n < length elided \<Longrightarrow> pos < length (elided ! n) \<Longrightarrow> \<exists>l k p. ReverseCloseExpression elided n pos = Inr (l, k, p)"
  by (cases "FindStartOfExpressionInLine (elided ! n) (int pos) []")
    (auto simp: ReverseCloseExpression_def indexR_def intro: prod_cases3)

lemma keeps_ReverseCloseExpression:
  assumes "n < length elided" "pos < length (elided ! n)"
    and "\<And>l. keeps I (f (l, 0, -1))"
    and "\<And>m q. m < length elided \<Longrightarrow> q < length (elided ! m) \<Longrightarrow> m \<le> n \<Longrightarrow>
           keeps I (f (elided ! m, int m, int q))"
  shows "keeps I (withR (ReverseCloseExpression elided n pos) f)"
proof -
  obtain l k p where r: "ReverseCloseExpression elided n pos = Inr (l, k, p)"
    using ReverseCloseExpression_returns [OF assms(1,2)] by blast
  have "keeps I (f (l, k, p))" using ReverseCloseExpression_pos [OF r] assms(3,4) by (auto simp: found_at_def)
  with r show ?thesis by (auto intro: keeps_withR)
qed

end
