(* ===== verification/Lint_Nesting.thy ===== *)
theory Lint_Nesting
  imports Lint_Check
begin

text \<open>
  \<open>NestingState\<close> of \<open>cpplint.py\<close> with the blocks it stacks: \<open>_BlockInfo\<close>, \<open>_ExternCInfo\<close>, \<open>_ClassInfo\<close>,
  \<open>_NamespaceInfo\<close>, and the checkpoints of the preprocessor. A stack is a list with its top first.
  Blocks are objects that the linter compares by identity, so each carries the number under which
  it was created, and \<open>copy.deepcopy\<close> gives new numbers. \<open>previous_stack_top\<close> shares its object with
  the stack; only its identity and its class are read, which never change.
\<close>

section \<open>Blocks\<close>

datatype asm_state = NO_ASM | INSIDE_ASM | END_ASM | BLOCK_ASM

record class_info =
  ci_name :: string
  is_derived :: bool
  ci_access :: string
  is_struct :: bool
  class_indent :: nat
  last_line :: nat

datatype block_kind = BlockInfo | ExternCInfo | ClassInfo class_info | NamespaceInfo string

record block =
  block_id :: nat
  starting_linenum :: nat
  seen_open_brace :: bool
  open_parentheses :: int
  inline_asm :: asm_state
  check_namespace_indentation :: bool
  bkind :: block_kind

definition mk_block :: "nat \<Rightarrow> nat \<Rightarrow> bool \<Rightarrow> block_kind \<Rightarrow> block" where
  "mk_block n linenum seen k =
     \<lparr>block_id = n, starting_linenum = linenum, seen_open_brace = seen, open_parentheses = 0,
      inline_asm = NO_ASM,
      check_namespace_indentation = (case k of ClassInfo c \<Rightarrow> True | NamespaceInfo s \<Rightarrow> True | _ \<Rightarrow> False),
      bkind = k\<rparr>"

definition is_class :: "block \<Rightarrow> bool" where
  "is_class b \<longleftrightarrow> (case bkind b of ClassInfo c \<Rightarrow> True | _ \<Rightarrow> False)"

definition is_namespace :: "block \<Rightarrow> bool" where
  "is_namespace b \<longleftrightarrow> (case bkind b of NamespaceInfo s \<Rightarrow> True | _ \<Rightarrow> False)"

definition is_extern_c :: "block \<Rightarrow> bool" where
  "is_extern_c b \<longleftrightarrow> bkind b = ExternCInfo"

text \<open>The search for the end of a class in \<open>_ClassInfo.__init__\<close>.\<close>

fun class_end :: "nat \<Rightarrow> int \<Rightarrow> string list \<Rightarrow> nat" where
  "class_end i depth [] = 0"
| "class_end i depth (line # rest) =
     (let depth = depth + (int (py_count line ''{'') - int (py_count line ''}''))
      in if depth = 0 then i else class_end (i + 1) depth rest)"

definition ClassInfo_init :: "string \<Rightarrow> string \<Rightarrow> cleansed_lines \<Rightarrow> nat \<Rightarrow> block_kind res" where
  "ClassInfo_init name class_or_struct cl linenum =
     bindR (indexR (raw_lines cl) linenum) (\<lambda>raw.
       Inr (ClassInfo
         \<lparr>ci_name = name, is_derived = False,
          ci_access = (if class_or_struct = ''struct'' then ''public'' else ''private''),
          is_struct = (class_or_struct = ''struct''), class_indent = GetIndentLevel raw,
          last_line = class_end linenum 0 (drop linenum (cl_elided cl))\<rparr>))"

definition class_parent :: "class_info \<Rightarrow> string" where
  "class_parent c = (if is_struct c then ''struct '' else ''class '') @ ci_name c"

definition CheckBegin :: "cleansed_lines \<Rightarrow> nat \<Rightarrow> block \<Rightarrow> block res" where
  "CheckBegin cl linenum b =
     (case bkind b of
        ClassInfo c \<Rightarrow>
          bindR (indexR (cl_elided cl) linenum) (\<lambda>line.
            Inr (if SearchB ''(^|[^:]):($|[^:])'' line then b\<lparr>bkind := ClassInfo (c\<lparr>is_derived := True\<rparr>)\<rparr> else b))
      | _ \<Rightarrow> Inr b)"

text \<open>The name of a class is put into the pattern as it is; Python compiles the pattern on every line.\<close>

definition disallow_pattern :: "string \<Rightarrow> string" where
  "disallow_pattern name =
     unquote ''`b(DISALLOW_COPY_AND_ASSIGN|DISALLOW_IMPLICIT_CONSTRUCTORS)`('' @ name @ unquote ''`)''"

fun check_disallow :: "handler \<Rightarrow> string \<Rightarrow> string list \<Rightarrow> string \<Rightarrow> bool \<Rightarrow> nat list \<Rightarrow> act" where
  "check_disallow error filename elided name seen_last_thing_in_class [] = skip"
| "check_disallow error filename elided name seen_last_thing_in_class (i # is) =
     withR (indexR elided i) (\<lambda>line.
     withR (re_compile (disallow_pattern name)) (\<lambda>r.
       case re_Search r line of
         Some m \<Rightarrow>
           onlyif seen_last_thing_in_class
             (report error filename (int i) ''readability/constructors'' 3
                (group0 m 1 @ '' should be the last thing in the class''))
       | None \<Rightarrow>
           check_disallow error filename elided name
             (seen_last_thing_in_class \<or> \<not> MatchB ''^`s*$'' line) is))"

definition class_CheckEnd :: "handler \<Rightarrow> string \<Rightarrow> cleansed_lines \<Rightarrow> nat \<Rightarrow> nat \<Rightarrow> class_info \<Rightarrow> act" where
  "class_CheckEnd error filename cl linenum start c =
     seqA
       [check_disallow error filename (cl_elided cl) (ci_name c) False (rev [start + 1 ..< linenum]),
        withR (indexR (cl_elided cl) linenum) (\<lambda>line.
          on_some (Match ''^( *)`}'' line) (\<lambda>indent.
            onlyif (length (group0 indent 1) \<noteq> class_indent c)
              (report error filename (int linenum) ''whitespace/indent'' 3
                 (''Closing brace should be aligned with beginning of '' @ class_parent c))))]"

definition namespace_end_pattern :: "string \<Rightarrow> string" where
  "namespace_end_pattern name =
     unquote ''^`s*};*`s*(//|/`*).*`bnamespace`s+'' @ re_escape name @ unquote ''[`*/`.```s]*$''"

definition namespace_CheckEnd :: "handler \<Rightarrow> string \<Rightarrow> cleansed_lines \<Rightarrow> nat \<Rightarrow> nat \<Rightarrow> string \<Rightarrow> act" where
  "namespace_CheckEnd error filename cl linenum start name =
     withR (indexR (raw_lines cl) linenum) (\<lambda>line.
       if int linenum - int start < 10 \<and> \<not> MatchB ''^`s*};*`s*(//|/`*).*`bnamespace`b'' line then skip
       else if name \<noteq> [] then
         withR (re_compile (namespace_end_pattern name))
           (\<lambda>r. onlyif (re_Match r line = None)
             (report error filename (int linenum) ''readability/namespace'' 5
                (''Namespace should be terminated with '' @ [dquote] @ ''// namespace '' @ name @ [dquote])))
       else
         onlyif (\<not> MatchB ''^`s*};*`s*(//|/`*).*`bnamespace[`*/`.```s]*$'' line)
           (if MatchB ''^`s*}.*`b(namespace anonymous|anonymous namespace)`b'' line then
              report error filename (int linenum) ''readability/namespace'' 5
                (''Anonymous namespace should be terminated with '' @ [dquote] @ ''// namespace'' @ [dquote] @
                 '' or '' @ [dquote] @ ''// anonymous namespace'' @ [dquote])
            else
              report error filename (int linenum) ''readability/namespace'' 5
                (''Anonymous namespace should be terminated with '' @ [dquote] @ ''// namespace'' @ [dquote])))"

definition CheckEnd :: "handler \<Rightarrow> string \<Rightarrow> cleansed_lines \<Rightarrow> nat \<Rightarrow> block \<Rightarrow> act" where
  "CheckEnd error filename cl linenum b =
     (case bkind b of
        ClassInfo c \<Rightarrow> class_CheckEnd error filename cl linenum (starting_linenum b) c
      | NamespaceInfo name \<Rightarrow> namespace_CheckEnd error filename cl linenum (starting_linenum b) name
      | _ \<Rightarrow> skip)"

section \<open>The state\<close>

record preprocessor_info =
  stack_before_if :: "block list"
  stack_before_else :: "block list"
  seen_else :: bool

record nesting =
  nstack :: "block list"
  previous_stack_top :: "block option"
  pp_stack :: "preprocessor_info list"
  next_id :: nat

definition NestingState_init :: nesting where
  "NestingState_init = \<lparr>nstack = [], previous_stack_top = None, pp_stack = [], next_id = 0\<rparr>"

definition SeenOpenBrace :: "nesting \<Rightarrow> bool" where
  "SeenOpenBrace ns \<longleftrightarrow> nstack ns = [] \<or> seen_open_brace (hd (nstack ns))"

definition InNamespaceBody :: "nesting \<Rightarrow> bool" where
  "InNamespaceBody ns \<longleftrightarrow> nstack ns \<noteq> [] \<and> is_namespace (hd (nstack ns))"

definition InExternC :: "nesting \<Rightarrow> bool" where
  "InExternC ns \<longleftrightarrow> nstack ns \<noteq> [] \<and> is_extern_c (hd (nstack ns))"

definition InClassDeclaration :: "nesting \<Rightarrow> bool" where
  "InClassDeclaration ns \<longleftrightarrow> nstack ns \<noteq> [] \<and> is_class (hd (nstack ns))"

definition InAsmBlock :: "nesting \<Rightarrow> bool" where
  "InAsmBlock ns \<longleftrightarrow> nstack ns \<noteq> [] \<and> inline_asm (hd (nstack ns)) \<noteq> NO_ASM"

definition push_block :: "nat \<Rightarrow> bool \<Rightarrow> block_kind \<Rightarrow> nesting \<Rightarrow> nesting" where
  "push_block linenum seen k ns =
     ns\<lparr>nstack := mk_block (next_id ns) linenum seen k # nstack ns, next_id := next_id ns + 1\<rparr>"

definition map_top :: "(block \<Rightarrow> block) \<Rightarrow> nesting \<Rightarrow> nesting" where
  "map_top f ns = ns\<lparr>nstack := (case nstack ns of [] \<Rightarrow> [] | b # bs \<Rightarrow> f b # bs)\<rparr>"

definition pop_block :: "nesting \<Rightarrow> nesting" where
  "pop_block ns = ns\<lparr>nstack := tl (nstack ns)\<rparr>"

definition InnermostClass :: "nesting \<Rightarrow> block option" where
  "InnermostClass ns = find is_class (nstack ns)"

subsection \<open>Template argument lists\<close>

definition template_token :: "string \<Rightarrow> re_match option" where
  "template_token rest = Match ''^[^{};=`[`]`.<>]*(.)'' rest"

function InTemplateArgumentList :: "string list \<Rightarrow> nat \<Rightarrow> nat \<Rightarrow> bool res" where
  "InTemplateArgumentList elided linenum pos =
     (if linenum < length elided then
        (case template_token (drop pos (elided ! linenum)) of
           None \<Rightarrow> InTemplateArgumentList elided (linenum + 1) 0
         | Some m \<Rightarrow>
             let token = group0 m 1;
                 pos' = pos + length (group_all m)
             in if token = ''{'' \<or> token = ''}'' \<or> token = '';'' then Inr False
                else if token = ''>'' \<or> token = ''='' \<or> token = ''['' \<or> token = '']'' \<or> token = ''.'' then Inr True
                else if token \<noteq> ''<'' then
                  (if length (elided ! linenum) \<le> pos' + 1 then InTemplateArgumentList elided (linenum + 1) 0
                   else InTemplateArgumentList elided linenum (pos' + 1))
                else
                  bindR (CloseExpression elided linenum (pos' - 1)) (\<lambda>(l, end_line, end_pos).
                    if end_pos < 0 then Inr False
                    else InTemplateArgumentList elided (nat end_line) (nat end_pos)))
      else Inr False)"
  by pat_completeness auto
termination
proof (relation "measures [\<lambda>(elided, n, pos). length elided - n, \<lambda>(elided, n, pos). length (elided ! n) - pos]",
    goal_cases)
  case (5 elided linenum pos m token pos' r x y end_line end_pos)
  then have c: "CloseExpression elided linenum (pos' - 1) = Inr (x, end_line, end_pos)" by simp
  then obtain k q where "found_at elided x end_line end_pos k q" "0 < q" "linenum < k \<or> (k = linenum \<and> pos' - 1 + 1 < q)"
    using CloseExpression_pos [OF c] 5 by auto
  then show ?case using 5 by (auto simp: found_at_def)
qed auto

declare InTemplateArgumentList.simps [simp del]

subsection \<open>The preprocessor\<close>

definition deepcopy :: "nat \<Rightarrow> block list \<Rightarrow> block list" where
  "deepcopy n bs = map (\<lambda>(i, b). b\<lparr>block_id := i\<rparr>) (enumerate n bs)"

definition UpdatePreprocessor :: "string \<Rightarrow> nesting \<Rightarrow> nesting" where
  "UpdatePreprocessor line ns =
     (let n = next_id ns; size = length (nstack ns)
      in if MatchB ''^`s*#`s*(if|ifdef|ifndef)`b'' line then
           ns\<lparr>pp_stack := \<lparr>stack_before_if = deepcopy n (nstack ns), stack_before_else = [], seen_else = False\<rparr> # pp_stack ns,
              next_id := n + size\<rparr>
         else if MatchB ''^`s*#`s*(else|elif)`b'' line then
           (case pp_stack ns of
              [] \<Rightarrow> ns
            | pp # pps \<Rightarrow>
                let pp' = (if seen_else pp then pp
                           else pp\<lparr>seen_else := True, stack_before_else := deepcopy n (nstack ns)\<rparr>)
                in ns\<lparr>nstack := deepcopy (n + size) (stack_before_if pp'), pp_stack := pp' # pps,
                      next_id := n + size + length (stack_before_if pp')\<rparr>)
         else if MatchB ''^`s*#`s*endif`b'' line then
           (case pp_stack ns of
              [] \<Rightarrow> ns
            | pp # pps \<Rightarrow>
                if seen_else pp then ns\<lparr>nstack := stack_before_else pp, pp_stack := pps\<rparr>
                else ns\<lparr>pp_stack := pps\<rparr>)
         else ns)"

subsection \<open>Update\<close>

definition MATCH_ASM :: string where
  "MATCH_ASM = ''^`s*(?:asm|_asm|__asm|__asm__)(?:`s+(volatile|__volatile__))?`s*[{(]''"

definition count_parens :: "string \<Rightarrow> block \<Rightarrow> block" where
  "count_parens line b =
     (let depth_change = int (py_count line ''('') - int (py_count line '')'');
          b1 = b\<lparr>open_parentheses := open_parentheses b + depth_change\<rparr>
      in if inline_asm b1 = NO_ASM \<or> inline_asm b1 = END_ASM then
           (if depth_change \<noteq> 0 \<and> open_parentheses b1 = 1 \<and> MatchB MATCH_ASM line
            then b1\<lparr>inline_asm := INSIDE_ASM\<rparr> else b1\<lparr>inline_asm := NO_ASM\<rparr>)
         else if inline_asm b1 = INSIDE_ASM \<and> open_parentheses b1 = 0 then b1\<lparr>inline_asm := END_ASM\<rparr>
         else b1)"

definition namespace_pattern :: string where
  "namespace_pattern = ''^`s*namespace`b`s*([:`w]+)?(.*)$''"

lemma namespace_rest: "Match namespace_pattern line = Some m \<Longrightarrow> length (group0 m 2) < length line"
proof (rule Match_rest_group)
  show "gspan 2 (rx namespace_pattern) = Some (Suc 8, False, 0)" by code_simp
qed

function consume_namespaces :: "nat \<Rightarrow> string \<Rightarrow> nesting \<Rightarrow> string \<times> nesting" where
  "consume_namespaces linenum line ns =
     (case Match namespace_pattern line of
        None \<Rightarrow> (line, ns)
      | Some m \<Rightarrow>
          let rest = group0 m 2;
              brace = py_find rest ''{''
          in consume_namespaces linenum
               (if brace \<noteq> -1 then drop (nat brace + 1) rest else rest)
               (push_block linenum (brace \<noteq> -1) (NamespaceInfo (group0 m 1)) ns))"
  by pat_completeness auto
termination
  by (relation "measure (\<lambda>(linenum, line, ns). length line)") (auto dest: namespace_rest)

declare consume_namespaces.simps [simp del]

definition class_decl_pattern :: string where
  "class_decl_pattern =
     ''^(`s*(?:template`s*<[`w`s<>,:]*>`s*)?(class|struct)`s+(?:[A-Z_]+`s+)*(`w+(?:::`w+)*))(.*)$''"

definition consume_class :: "cleansed_lines \<Rightarrow> nat \<Rightarrow> string \<Rightarrow> nesting \<Rightarrow> (string \<times> nesting) res" where
  "consume_class cl linenum line ns =
     (case Match class_decl_pattern line of
        None \<Rightarrow> Inr (line, ns)
      | Some m \<Rightarrow>
          if nstack ns = [] \<or> open_parentheses (hd (nstack ns)) = 0 then
            bindR (InTemplateArgumentList (cl_elided cl) linenum (length (group0 m 1))) (\<lambda>in_list.
              if in_list then Inr (line, ns)
              else bindR (ClassInfo_init (group0 m 3) (group0 m 2) cl linenum) (\<lambda>k.
                     Inr (group0 m 4, push_block linenum False k ns)))
          else Inr (line, ns))"

definition check_begin :: "cleansed_lines \<Rightarrow> nat \<Rightarrow> nesting \<Rightarrow> nesting res" where
  "check_begin cl linenum ns =
     (if SeenOpenBrace ns then Inr ns
      else bindR (CheckBegin cl linenum (hd (nstack ns))) (\<lambda>b. Inr (map_top (\<lambda>_. b) ns)))"

definition access_pattern :: string where
  "access_pattern = ''^(.*)`b(public|private|protected|signals)(`s+(?:slots`s*)?)?:(?:[^:]|$)''"

definition update_access :: "handler \<Rightarrow> string \<Rightarrow> nat \<Rightarrow> string \<Rightarrow> nesting \<times> lint \<Rightarrow> (nesting \<times> lint) res" where
  "update_access error filename linenum line =
     (\<lambda>(ns, lst).
       case nstack ns of
         [] \<Rightarrow> Inr (ns, lst)
       | b # bs \<Rightarrow>
           (case bkind b of
              ClassInfo c \<Rightarrow>
                (case Match access_pattern line of
                   None \<Rightarrow> Inr (ns, lst)
                 | Some m \<Rightarrow>
                     let ns' = map_top (\<lambda>b. b\<lparr>bkind := ClassInfo (c\<lparr>ci_access := group0 m 2\<rparr>)\<rparr>) ns;
                         indent = group0 m 1
                     in bindR
                          (onlyif (length indent \<noteq> class_indent c + 1 \<and> MatchB ''^`s*$'' indent)
                             (report error filename (int linenum) ''whitespace/indent'' 3
                               (group0 m 2 @ group0 m 3 @ '': should be indented +1 space inside '' @ class_parent c)) lst)
                          (\<lambda>lst'. Inr (ns', lst')))
            | _ \<Rightarrow> Inr (ns, lst)))"

definition brace_pattern :: string where
  "brace_pattern = ''^[^{;)}]*([{;)}])(.*)$''"

definition brace_step ::
  "handler \<Rightarrow> string \<Rightarrow> cleansed_lines \<Rightarrow> nat \<Rightarrow> string \<Rightarrow> string \<Rightarrow> nesting \<times> lint \<Rightarrow> (nesting \<times> lint) res" where
  "brace_step error filename cl linenum line token =
     (\<lambda>(ns, lst).
       if token = ''{'' then
         Inr (if \<not> SeenOpenBrace ns then map_top (\<lambda>b. b\<lparr>seen_open_brace := True\<rparr>) ns
              else if MatchB ''^extern`s*\"[^\"]*\"`s*`{'' line then push_block linenum True ExternCInfo ns
              else if MatchB MATCH_ASM line then
                map_top (\<lambda>b. b\<lparr>inline_asm := BLOCK_ASM\<rparr>) (push_block linenum True BlockInfo ns)
              else push_block linenum True BlockInfo ns, lst)
       else if token = '';'' \<or> token = '')'' then
         Inr (if SeenOpenBrace ns then ns else pop_block ns, lst)
       else if nstack ns = [] then Inr (ns, lst)
       else bindR (CheckEnd error filename cl linenum (hd (nstack ns)) lst) (\<lambda>lst'. Inr (pop_block ns, lst')))"

lemma brace_rest: "Match brace_pattern line = Some m \<Longrightarrow> length (group0 m 2) < length line"
proof (rule Match_rest_group)
  show "gspan 2 (rx brace_pattern) = Some (Suc 0, False, 0)" by code_simp
qed

function consume_braces ::
  "handler \<Rightarrow> string \<Rightarrow> cleansed_lines \<Rightarrow> nat \<Rightarrow> string \<Rightarrow> nesting \<times> lint \<Rightarrow> (nesting \<times> lint) res" where
  "consume_braces error filename cl linenum line st =
     (case Match brace_pattern line of
        None \<Rightarrow> Inr st
      | Some m \<Rightarrow>
          bindR (brace_step error filename cl linenum line (group0 m 1) st) (\<lambda>st'.
            consume_braces error filename cl linenum (group0 m 2) st'))"
  by pat_completeness auto
termination
  by (relation "measure (\<lambda>(error, filename, cl, linenum, line, st). length line)") (auto dest: brace_rest)

declare consume_braces.simps [simp del]

definition remember_top :: "nesting \<Rightarrow> nesting" where
  "remember_top ns = ns\<lparr>previous_stack_top := (case nstack ns of [] \<Rightarrow> None | b # bs \<Rightarrow> Some b)\<rparr>"

definition Update ::
  "handler \<Rightarrow> string \<Rightarrow> cleansed_lines \<Rightarrow> nat \<Rightarrow> nesting \<times> lint \<Rightarrow> (nesting \<times> lint) res" where
  "Update error filename cl linenum =
     (\<lambda>(ns, lst).
       bindR (indexR (cl_elided cl) linenum) (\<lambda>line.
         let ns1 = map_top (count_parens line) (UpdatePreprocessor line (remember_top ns));
             (line2, ns2) = consume_namespaces linenum line ns1
         in bindR (consume_class cl linenum line2 ns2) (\<lambda>(line3, ns3).
            bindR (check_begin cl linenum ns3) (\<lambda>ns4.
            bindR (update_access error filename linenum line3 (ns4, lst)) (\<lambda>st.
              consume_braces error filename cl linenum line3 st)))))"

definition CheckCompletedBlocks :: "handler \<Rightarrow> string \<Rightarrow> nesting \<Rightarrow> act" where
  "CheckCompletedBlocks error filename ns =
     seqA (map (\<lambda>b.
       case bkind b of
         ClassInfo c \<Rightarrow>
           report error filename (int (starting_linenum b)) ''build/class'' 5
             (''Failed to find complete declaration of class '' @ ci_name c)
       | NamespaceInfo name \<Rightarrow>
           report error filename (int (starting_linenum b)) ''build/namespaces'' 5
             (''Failed to find complete declaration of namespace '' @ name)
       | _ \<Rightarrow> skip) (rev (nstack ns)))"

section \<open>The patterns compile\<close>

lemma nesting_patterns:
  "list_all compiles
     [''(^|[^:]):($|[^:])'', ''^`s*$'', ''^( *)`}'', ''^`s*};*`s*(//|/`*).*`bnamespace`b'',
      ''^`s*};*`s*(//|/`*).*`bnamespace[`*/`.```s]*$'', ''^`s*}.*`b(namespace anonymous|anonymous namespace)`b'',
      ''^[^{};=`[`]`.<>]*(.)'', ''^`s*#`s*(if|ifdef|ifndef)`b'', ''^`s*#`s*(else|elif)`b'', ''^`s*#`s*endif`b'',
      ''^extern`s*\"[^\"]*\"`s*`{'', MATCH_ASM, namespace_pattern, class_decl_pattern, access_pattern, brace_pattern]"
  by code_simp

definition name_char :: "char \<Rightarrow> bool" where
  "name_char c \<longleftrightarrow> is_word c \<or> c = CHR '':''"

lemma name_char_meta: "name_char c \<Longrightarrow> c \<notin> set meta"
  by (auto simp: name_char_def is_word_def meta_def is_lower_def is_upper_def is_digit_def in_range_def)

lemma disallow_compiles: "list_all name_char name \<Longrightarrow> \<exists>r. re_compile (disallow_pattern name) = Inr r"
proof -
  assume "list_all name_char name"
  then have "list_all (\<lambda>c. c \<notin> set meta) name" by (auto simp: list_all_iff dest: name_char_meta)
  note lex = lex_plain [OF this, of "unquote ''`)''"]
  show ?thesis
    unfolding disallow_pattern_def using lex
    by (simp add: rx_eval prependR_def parse_lits)
qed

lemma namespace_end_compiles: "name \<noteq> [] \<Longrightarrow> \<exists>r. re_compile (namespace_end_pattern name) = Inr r"
  using escape_no_lazy [of name "unquote ''[`*/`.```s]*$''"] lex_escape [of name "unquote ''[`*/`.```s]*$''"]
  unfolding namespace_end_pattern_def by (simp add: rx_eval prependR_def parse_lits)

section \<open>Well-formed states\<close>

text \<open>Every block starts inside the file, and the name of a class consists of word characters and colons.\<close>

definition block_ok :: "nat \<Rightarrow> block \<Rightarrow> bool" where
  "block_ok n b \<longleftrightarrow> starting_linenum b < n \<and>
     (case bkind b of ClassInfo c \<Rightarrow> list_all name_char (ci_name c) | _ \<Rightarrow> True)"

definition nest_ok :: "nat \<Rightarrow> nesting \<Rightarrow> bool" where
  "nest_ok n ns \<longleftrightarrow> list_all (block_ok n) (nstack ns) \<and>
     list_all (\<lambda>p. list_all (block_ok n) (stack_before_if p) \<and> list_all (block_ok n) (stack_before_else p)) (pp_stack ns)"

definition cl_ok :: "cleansed_lines \<Rightarrow> bool" where
  "cl_ok cl \<longleftrightarrow> length (cl_elided cl) = num_lines cl \<and> length (cl_lines cl) = num_lines cl \<and>
     length (raw_lines cl) = num_lines cl \<and> length (lines_without_raw_strings cl) = num_lines cl"

lemma nest_ok_init [simp]: "nest_ok n NestingState_init"
  by (simp add: nest_ok_def NestingState_init_def)

lemma nest_ok_previous [simp]: "nest_ok n (remember_top ns) = nest_ok n ns"
  by (simp add: nest_ok_def remember_top_def)

lemma nest_ok_top: "nest_ok n ns \<Longrightarrow> nstack ns = b # bs \<Longrightarrow> block_ok n b"
  by (simp add: nest_ok_def)

lemma nest_ok_push [inv_intros]:
  "nest_ok n ns \<Longrightarrow> l < n \<Longrightarrow> (\<And>c. k = ClassInfo c \<Longrightarrow> list_all name_char (ci_name c)) \<Longrightarrow> nest_ok n (push_block l seen k ns)"
  by (auto simp: nest_ok_def push_block_def block_ok_def mk_block_def split: block_kind.splits)

lemma nest_ok_map_top [inv_intros]:
  "nest_ok n ns \<Longrightarrow> (\<And>b bs. nstack ns = b # bs \<Longrightarrow> block_ok n (f b)) \<Longrightarrow> nest_ok n (map_top f ns)"
  by (auto simp: nest_ok_def map_top_def split: list.splits)

lemma nest_ok_pop [inv_intros]: "nest_ok n ns \<Longrightarrow> nest_ok n (pop_block ns)"
  by (cases "nstack ns") (auto simp: nest_ok_def pop_block_def)

lemma deepcopy_ok [simp]: "list_all (block_ok n) (deepcopy k bs) = list_all (block_ok n) bs"
  by (induction bs arbitrary: k) (simp_all add: deepcopy_def block_ok_def)

lemma nest_ok_preprocessor [inv_intros]: "nest_ok n ns \<Longrightarrow> nest_ok n (UpdatePreprocessor line ns)"
  by (auto simp: UpdatePreprocessor_def nest_ok_def Let_def split: list.splits)

lemma block_ok_count [simp]: "block_ok n (count_parens line b) = block_ok n b"
  by (simp add: count_parens_def block_ok_def Let_def)

lemma nest_ok_namespaces [inv_intros]:
  "nest_ok n ns \<Longrightarrow> l < n \<Longrightarrow> consume_namespaces l line ns = (line', ns') \<Longrightarrow> nest_ok n ns'"
proof (induction l line ns rule: consume_namespaces.induct)
  case (1 l line ns)
  show ?case
  proof (cases "Match namespace_pattern line")
    case None
    then show ?thesis using "1.prems" by (simp add: consume_namespaces.simps)
  next
    case (Some m)
    show ?thesis
      by (rule "1.IH" [OF Some refl refl]) (use "1.prems" in \<open>auto simp: consume_namespaces.simps [of l line] Some Let_def intro: nest_ok_push\<close>)
  qed
qed

lemma template_token_bounds:
  assumes "template_token s = Some m"
  shows "0 < length (group_all m) \<and> length (group_all m) \<le> length s"
proof -
  have m: "(m_end m, m_groups m) \<in> set (mt (rx ''^[^{};=`[`]`.<>]*(.)'') s 0 Map.empty)" "m_subject m = s" "m_start m = 0"
    using assms re_Match_Some by (auto simp: template_token_def Match_def)
  have "min_width (rx ''^[^{};=`[`]`.<>]*(.)'') = 1" by code_simp
  then show ?thesis using mt_min_width [OF m(1)] mt_bounds [OF m(1)] m(2,3) by (simp add: group_all_def)
qed

lemma in_template_returns: "\<exists>b. InTemplateArgumentList elided linenum pos = Inr b"
proof (induction elided linenum pos rule: InTemplateArgumentList.induct)
  case (1 elided linenum pos)
  note unfold = InTemplateArgumentList.simps [of elided linenum pos]
  show ?case
  proof (cases "linenum < length elided")
    case lt: True
    show ?thesis
    proof (cases "template_token (drop pos (elided ! linenum))")
      case None
      then show ?thesis using "1.IH"(1) [OF lt] lt by (simp add: unfold)
    next
      case (Some m)
      let ?t = "group0 m 1" and ?p = "pos + length (group_all m)"
      consider (stop) "?t = ''{'' \<or> ?t = ''}'' \<or> ?t = '';'' \<or> ?t = ''>'' \<or> ?t = ''='' \<or> ?t = ''['' \<or> ?t = '']'' \<or> ?t = ''.''"
        | (lt) "?t = ''<''"
        | (go) "\<not> (?t = ''{'' \<or> ?t = ''}'' \<or> ?t = '';'')" "\<not> (?t = ''>'' \<or> ?t = ''='' \<or> ?t = ''['' \<or> ?t = '']'' \<or> ?t = ''.'')" "?t \<noteq> ''<''"
        by blast
      then show ?thesis
      proof cases
        case stop
        then show ?thesis using lt Some by (auto simp: unfold Let_def)
      next
        case go
        then show ?thesis
          using "1.IH"(2) [OF lt Some refl refl go] "1.IH"(3) [OF lt Some refl refl go] lt Some
          by (auto simp: unfold Let_def)
      next
        case lt': lt
        have "0 < length (group_all m) \<and> length (group_all m) \<le> length (drop pos (elided ! linenum))"
          using template_token_bounds [OF Some] by simp
        then have pos: "?p - 1 < length (elided ! linenum)" unfolding length_drop by linarith
        obtain l k p where c: "CloseExpression elided linenum (?p - 1) = Inr (l, k, p)"
          using CloseExpression_returns [OF lt pos] by blast
        then show ?thesis using lt Some lt' "1.IH"(4) [OF lt Some refl refl, of "(l, k, p)" l "(k, p)" k p]
          by (auto simp: unfold Let_def)
      qed
    qed
  next
    case False
    then show ?thesis by (auto simp: unfold)
  qed
qed

lemma class_decl_name: "Match class_decl_pattern line = Some m \<Longrightarrow> list_all name_char (group0 m 3)"
proof (rule Match_group_in)
  show "group_in 3 name_char (rx class_decl_pattern)"
    unfolding class_decl_pattern_def by (simp add: rx_eval rch_def rspace_def rany_def name_char_def is_digit_def in_range_def)
qed

lemma consume_class_returns:
  assumes "nest_ok n ns" "l < n" "l < length (raw_lines cl)"
  shows "\<exists>line' ns'. consume_class cl l line ns = Inr (line', ns') \<and> nest_ok n ns'"
proof (cases "Match class_decl_pattern line")
  case None
  then show ?thesis using assms(1) by (simp add: consume_class_def)
next
  case (Some m)
  obtain b where b: "InTemplateArgumentList (cl_elided cl) l (length (group0 m 1)) = Inr b"
    using in_template_returns by blast
  obtain k where k: "ClassInfo_init (group0 m 3) (group0 m 2) cl l = Inr (ClassInfo k)" "ci_name k = group0 m 3"
    using assms(3) by (simp add: ClassInfo_init_def indexR_def)
  have "nest_ok n (push_block l False (ClassInfo k) ns)"
    using assms k(2) class_decl_name [OF Some] by (auto intro: nest_ok_push)
  then show ?thesis using assms(1) Some b k(1) by (auto simp: consume_class_def)
qed

lemma check_begin_returns:
  assumes "nest_ok n ns" "l < length (cl_elided cl)"
  shows "\<exists>ns'. check_begin cl l ns = Inr ns' \<and> nest_ok n ns'"
proof (cases "SeenOpenBrace ns")
  case True
  then show ?thesis using assms(1) by (simp add: check_begin_def)
next
  case False
  then obtain b bs where b: "nstack ns = b # bs" by (cases "nstack ns") (auto simp: SeenOpenBrace_def)
  have ok: "block_ok n b" by (rule nest_ok_top [OF assms(1) b])
  obtain b' where b': "CheckBegin cl l b = Inr b'" "block_ok n b'"
    using ok assms(2) by (auto simp: CheckBegin_def indexR_def block_ok_def split: block_kind.splits)
  have "nest_ok n (map_top (\<lambda>_. b') ns)" using assms(1) b'(2) by (auto intro: nest_ok_map_top)
  then show ?thesis using False b b'(1) by (simp add: check_begin_def)
qed

context error_sink
begin

lemma keeps_disallow:
  "list_all name_char name \<Longrightarrow> list_all (\<lambda>i. i < length elided) is \<Longrightarrow>
   keeps inv (check_disallow error filename elided name seen is)"
proof (induction "is" arbitrary: seen)
  case (Cons i "is")
  obtain r where "re_compile (disallow_pattern name) = Inr r" using disallow_compiles [OF Cons.prems(1)] by blast
  then show ?case using Cons by (auto intro!: keeps_intros)
qed (simp add: keeps_skip)

lemma keeps_CheckEnd:
  assumes "block_ok n b" "l < length (cl_elided cl)" "l < length (raw_lines cl)"
  shows "keeps inv (CheckEnd error filename cl l b)"
proof (cases "bkind b")
  case (ClassInfo c)
  have "list_all name_char (ci_name c)" using assms(1) ClassInfo by (simp add: block_ok_def)
  then show ?thesis using assms(2)
    by (auto simp: CheckEnd_def ClassInfo class_CheckEnd_def list_all_iff intro!: keeps_intros keeps_disallow)
next
  case (NamespaceInfo name)
  obtain r where "name \<noteq> [] \<Longrightarrow> re_compile (namespace_end_pattern name) = Inr r" using namespace_end_compiles by blast
  then show ?thesis using assms(3)
    by (auto simp: CheckEnd_def NamespaceInfo namespace_CheckEnd_def intro!: keeps_intros)
qed (auto simp: CheckEnd_def intro: keeps_intros)

lemma update_access_returns:
  assumes "nest_ok n ns" "inv lst"
  shows "\<exists>ns' lst'. update_access error filename l line (ns, lst) = Inr (ns', lst') \<and> nest_ok n ns' \<and> inv lst'"
proof (cases "\<exists>b bs c m. nstack ns = b # bs \<and> bkind b = ClassInfo c \<and> Match access_pattern line = Some m")
  case True
  then obtain b bs c m where t: "nstack ns = b # bs" "bkind b = ClassInfo c" "Match access_pattern line = Some m" by blast
  let ?ns = "map_top (\<lambda>b. b\<lparr>bkind := ClassInfo (c\<lparr>ci_access := group0 m 2\<rparr>)\<rparr>) ns"
  have "nest_ok n ?ns"
    using nest_ok_top [OF assms(1) t(1)] t(2) by (intro nest_ok_map_top [OF assms(1)]) (auto simp: block_ok_def t(1))
  moreover have "keeps inv (onlyif (length (group0 m 1) \<noteq> class_indent c + 1 \<and> MatchB ''^`s*$'' (group0 m 1))
      (report error filename (int l) ''whitespace/indent'' 3
        (group0 m 2 @ group0 m 3 @ '': should be indented +1 space inside '' @ class_parent c)))"
    by (auto intro!: keeps_intros)
  then obtain lst' where "onlyif (length (group0 m 1) \<noteq> class_indent c + 1 \<and> MatchB ''^`s*$'' (group0 m 1))
      (report error filename (int l) ''whitespace/indent'' 3
        (group0 m 2 @ group0 m 3 @ '': should be indented +1 space inside '' @ class_parent c)) lst = Inr lst'" "inv lst'"
    using keepsD assms(2) by blast
  ultimately show ?thesis using t by (simp add: update_access_def Let_def)
next
  case False
  then show ?thesis using assms by (auto simp: update_access_def split: list.splits block_kind.splits option.splits)
qed

lemma brace_step_returns:
  assumes "nest_ok n ns" "inv lst" "l < n" "l < length (cl_elided cl)" "l < length (raw_lines cl)"
  shows "\<exists>ns' lst'. brace_step error filename cl l line token (ns, lst) = Inr (ns', lst') \<and> nest_ok n ns' \<and> inv lst'"
proof -
  have top: "nest_ok n (map_top f ns')" if "nest_ok n ns'" "\<And>b. block_ok n b \<Longrightarrow> block_ok n (f b)" for f ns'
    using that nest_ok_top by (intro nest_ok_map_top) auto
  have push: "nest_ok n (push_block l b k ns)" if "k = ExternCInfo \<or> k = BlockInfo" for b k
    using that assms by (auto intro: nest_ok_push)
  consider (open_brace) "token = ''{''" | (other_end) "token = '';'' \<or> token = '')''"
    | (brace) "token \<noteq> ''{''" "\<not> (token = '';'' \<or> token = '')'')" by blast
  then show ?thesis
  proof cases
    case open_brace
    have "nest_ok n (map_top (\<lambda>b. b\<lparr>seen_open_brace := True\<rparr>) ns)"
      "nest_ok n (map_top (\<lambda>b. b\<lparr>inline_asm := BLOCK_ASM\<rparr>) (push_block l True BlockInfo ns))"
      using assms(1) push by (auto intro!: top simp: block_ok_def)
    then show ?thesis using open_brace push assms(2) by (simp add: brace_step_def)
  next
    case other_end
    then show ?thesis using assms(1,2) nest_ok_pop [OF assms(1)] by (auto simp: brace_step_def)
  next
    case brace
    show ?thesis
    proof (cases "nstack ns")
      case Nil
      then show ?thesis using brace assms(1,2) by (simp add: brace_step_def)
    next
      case (Cons b bs)
      then obtain lst' where "CheckEnd error filename cl l b lst = Inr lst'" "inv lst'"
        using keepsD [OF keeps_CheckEnd [OF nest_ok_top [OF assms(1) Cons] assms(4,5)] assms(2)] by blast
      then show ?thesis using brace Cons nest_ok_pop [OF assms(1)] by (simp add: brace_step_def)
    qed
  qed
qed

lemma consume_braces_returns:
  assumes "l < n" "l < length (cl_elided cl)" "l < length (raw_lines cl)"
  shows "nest_ok n ns \<Longrightarrow> inv lst \<Longrightarrow>
    \<exists>ns' lst'. consume_braces error filename cl l line (ns, lst) = Inr (ns', lst') \<and> nest_ok n ns' \<and> inv lst'"
proof (induction "length line" arbitrary: line ns lst rule: less_induct)
  case less
  show ?case
  proof (cases "Match brace_pattern line")
    case None
    then show ?thesis using less.prems by (simp add: consume_braces.simps)
  next
    case (Some m)
    obtain ns1 lst1 where s: "brace_step error filename cl l line (group0 m 1) (ns, lst) = Inr (ns1, lst1)"
        "nest_ok n ns1" "inv lst1" using brace_step_returns [OF less.prems assms] by blast
    then show ?thesis using less.hyps [OF brace_rest [OF Some] s(2,3)] Some
      by (subst consume_braces.simps) simp
  qed
qed

lemma Update_returns:
  assumes "cl_ok cl" "linenum < num_lines cl" "nest_ok (num_lines cl) ns" "inv lst"
  shows "\<exists>ns' lst'. Update error filename cl linenum (ns, lst) = Inr (ns', lst') \<and>
           nest_ok (num_lines cl) ns' \<and> inv lst'"
proof -
  let ?n = "num_lines cl" and ?line = "cl_elided cl ! linenum"
  let ?ns1 = "map_top (count_parens ?line) (UpdatePreprocessor ?line (remember_top ns))"
  have len: "linenum < length (cl_elided cl)" "linenum < length (raw_lines cl)" using assms(1,2) by (auto simp: cl_ok_def)
  have p: "nest_ok ?n (UpdatePreprocessor ?line (remember_top ns))" using assms(3) by (simp add: nest_ok_preprocessor)
  have n1: "nest_ok ?n ?ns1" using nest_ok_top [OF p] by (intro nest_ok_map_top [OF p]) simp
  obtain line2 ns2 where c2: "consume_namespaces linenum ?line ?ns1 = (line2, ns2)" by (cases "consume_namespaces linenum ?line ?ns1")
  have n2: "nest_ok ?n ns2" by (rule nest_ok_namespaces [OF n1 assms(2) c2])
  obtain line3 ns3 where c3: "consume_class cl linenum line2 ns2 = Inr (line3, ns3)" "nest_ok ?n ns3"
    using consume_class_returns [OF n2 assms(2) len(2)] by blast
  obtain ns4 where c4: "check_begin cl linenum ns3 = Inr ns4" "nest_ok ?n ns4"
    using check_begin_returns [OF c3(2) len(1)] by blast
  obtain ns5 lst5 where c5: "update_access error filename linenum line3 (ns4, lst) = Inr (ns5, lst5)" "nest_ok ?n ns5" "inv lst5"
    using update_access_returns [OF c4(2) assms(4)] by blast
  show ?thesis
    using consume_braces_returns [OF assms(2) len c5(2,3), of filename line3]
    by (simp add: Update_def indexR_def len(1) c2 c3(1) c4(1) c5(1))
qed

lemma keeps_CompletedBlocks: "keeps inv (CheckCompletedBlocks error filename ns)"
  unfolding CheckCompletedBlocks_def by (intro keeps_seq) (auto split: block_kind.splits intro!: keeps_intros)

end

section \<open>Invariants of the stack operations\<close>

text \<open>What pushing, popping and changing the top block keep, \<open>Update\<close> keeps behind the preprocessor step.\<close>

locale nest_invariant =
  fixes J :: "nesting \<Rightarrow> bool"
  assumes J_push: "J ns \<Longrightarrow> J (push_block l seen k ns)"
    and J_top: "(\<And>b. block_id (f b) = block_id b) \<Longrightarrow> J ns \<Longrightarrow> J (map_top f ns)"
    and J_pop: "J ns \<Longrightarrow> J (pop_block ns)"
begin

lemma namespaces_J: "J ns \<Longrightarrow> consume_namespaces l line ns = (line', ns') \<Longrightarrow> J ns'"
proof (induction l line ns rule: consume_namespaces.induct)
  case (1 l line ns)
  show ?case
  proof (cases "Match namespace_pattern line")
    case None
    then show ?thesis using "1.prems" by (simp add: consume_namespaces.simps)
  next
    case (Some m)
    show ?thesis
      by (rule "1.IH" [OF Some refl refl])
        (use "1.prems" in \<open>auto simp: consume_namespaces.simps [of l line] Some Let_def intro: J_push\<close>)
  qed
qed

lemma class_J: "J ns \<Longrightarrow> consume_class cl l line ns = Inr (line', ns') \<Longrightarrow> J ns'"
  by (auto simp: consume_class_def bindR_Inr_iff J_push split: option.splits if_splits)

lemma begin_J: "J ns \<Longrightarrow> check_begin cl l ns = Inr ns' \<Longrightarrow> J ns'"
proof -
  assume J: "J ns" and c: "check_begin cl l ns = Inr ns'"
  show "J ns'"
  proof (cases "SeenOpenBrace ns")
    case False
    then obtain b bs b' where b: "nstack ns = b # bs" "CheckBegin cl l b = Inr b'" "ns' = map_top (\<lambda>_. b') ns"
      using c by (cases "nstack ns") (auto simp: check_begin_def SeenOpenBrace_def bindR_Inr_iff)
    have "block_id b' = block_id b" using b(2) by (auto simp: CheckBegin_def bindR_Inr_iff split: block_kind.splits if_splits)
    then have "map_top (\<lambda>_. b') ns = map_top (\<lambda>x. if block_id x = block_id b then b' else x) ns"
      by (simp add: map_top_def b(1))
    moreover have "J (map_top (\<lambda>x. if block_id x = block_id b then b' else x) ns)"
      using \<open>block_id b' = block_id b\<close> by (intro J_top J) auto
    ultimately show ?thesis using b(3) by simp
  qed (use J c in \<open>simp add: check_begin_def\<close>)
qed

lemma access_J: "J ns \<Longrightarrow> update_access er filename l line (ns, lst) = Inr (ns', lst') \<Longrightarrow> J ns'"
  by (auto simp: update_access_def bindR_Inr_iff Let_def split: list.splits block_kind.splits option.splits intro!: J_top)

lemma brace_J: "J ns \<Longrightarrow> brace_step er filename cl l line token (ns, lst) = Inr (ns', lst') \<Longrightarrow> J ns'"
  by (auto simp: brace_step_def bindR_Inr_iff split: if_splits intro!: J_top J_push J_pop)

lemma braces_J: "J ns \<Longrightarrow> consume_braces er filename cl l line (ns, lst) = Inr (ns', lst') \<Longrightarrow> J ns'"
proof (induction "length line" arbitrary: line ns lst rule: less_induct)
  case less
  show ?case
  proof (cases "Match brace_pattern line")
    case None
    then show ?thesis using less.prems by (simp add: consume_braces.simps)
  next
    case (Some m)
    obtain ns1 lst1 where s: "brace_step er filename cl l line (group0 m 1) (ns, lst) = Inr (ns1, lst1)"
        "consume_braces er filename cl l (group0 m 2) (ns1, lst1) = Inr (ns', lst')"
      using less.prems(2) Some by (subst (asm) consume_braces.simps) (auto simp: bindR_Inr_iff)
    show ?thesis by (rule less.hyps [OF brace_rest [OF Some] brace_J [OF less.prems(1) s(1)] s(2)])
  qed
qed

lemma Update_J:
  assumes "Update er filename cl l (ns, lst) = Inr (ns', lst')"
    "J (UpdatePreprocessor (cl_elided cl ! l) (remember_top ns))"
  shows "J ns'"
proof -
  let ?ns1 = "map_top (count_parens (cl_elided cl ! l)) (UpdatePreprocessor (cl_elided cl ! l) (remember_top ns))"
  have "block_id (count_parens line b) = block_id b" for line b by (simp add: count_parens_def Let_def)
  then have n1: "J ?ns1" using assms(2) by (intro J_top)
  obtain line2 ns2 where c2: "consume_namespaces l (cl_elided cl ! l) ?ns1 = (line2, ns2)"
    by (cases "consume_namespaces l (cl_elided cl ! l) ?ns1")
  obtain line3 ns3 ns4 ns5 lst5 where c: "consume_class cl l line2 ns2 = Inr (line3, ns3)"
      "check_begin cl l ns3 = Inr ns4" "update_access er filename l line3 (ns4, lst) = Inr (ns5, lst5)"
      "consume_braces er filename cl l line3 (ns5, lst5) = Inr (ns', lst')"
    using assms(1) by (auto simp: Update_def bindR_Inr_iff c2)
  show ?thesis
    by (rule braces_J [OF access_J [OF begin_J [OF class_J [OF namespaces_J [OF n1 c2] c(1)] c(2)] c(3)] c(4)])
qed

end

interpretation nest_pp: nest_invariant "\<lambda>ns. pp_stack ns = pps" for pps
  by unfold_locales (auto simp: push_block_def map_top_def pop_block_def)

text \<open>Blocks are told apart by their numbers. The numbers of all blocks in the state, those of the stack first and then those of
  the checkpoints of each open \<open>#if\<close>, are distinct and below the next one.\<close>

definition checkpoint_ids :: "preprocessor_info \<Rightarrow> nat list" where
  "checkpoint_ids pp = map block_id (stack_before_if pp) @ map block_id (stack_before_else pp)"

definition all_ids :: "nesting \<Rightarrow> nat list" where
  "all_ids ns = map block_id (nstack ns) @ concat (map checkpoint_ids (pp_stack ns))"

definition ids_ok :: "nesting \<Rightarrow> bool" where
  "ids_ok ns \<longleftrightarrow> distinct (all_ids ns) \<and> list_all (\<lambda>i. i < next_id ns) (all_ids ns)"

lemma ids_deepcopy [simp]: "map block_id (deepcopy n bs) = [n ..< n + length bs]"
proof (induction bs arbitrary: n)
  case (Cons b bs)
  have "[n ..< n + length (b # bs)] = n # [Suc n ..< Suc n + length bs]" by (simp add: upt_conv_Cons del: upt_Suc)
  then show ?case using Cons.IH [of "Suc n"] by (simp add: deepcopy_def del: upt_Suc)
qed (simp add: deepcopy_def)

interpretation nest_ids: nest_invariant ids_ok
proof
  fix ns l seen k assume "ids_ok ns"
  then show "ids_ok (push_block l seen k ns)"
    by (auto simp: ids_ok_def all_ids_def push_block_def mk_block_def list_all_iff less_Suc_eq)
next
  fix f :: "block \<Rightarrow> block" and ns
  assume f: "\<And>b. block_id (f b) = block_id b" and i: "ids_ok ns"
  show "ids_ok (map_top f ns)" using i f by (cases "nstack ns") (simp_all add: ids_ok_def all_ids_def map_top_def)
next
  fix ns assume "ids_ok ns"
  then show "ids_ok (pop_block ns)" by (cases "nstack ns") (simp_all add: ids_ok_def all_ids_def pop_block_def)
qed

text \<open>New numbers are different from all numbers in use.\<close>

definition fresh_below :: "nat list \<Rightarrow> nat \<Rightarrow> bool" where
  "fresh_below xs n \<longleftrightarrow> distinct xs \<and> (\<forall>i \<in> set xs. i < n)"

lemma fresh_below_append:
  "fresh_below (xs @ ys) n \<longleftrightarrow> fresh_below xs n \<and> fresh_below ys n \<and> set xs \<inter> set ys = {}"
  by (auto simp: fresh_below_def)

lemma fresh_below_less: "fresh_below xs n \<Longrightarrow> x \<in> set xs \<Longrightarrow> x < n"
  by (simp add: fresh_below_def)

lemma fresh_below_upt: "fresh_below xs n \<Longrightarrow> n \<le> m \<Longrightarrow> fresh_below xs m" "k \<le> m \<Longrightarrow> fresh_below [n ..< k] m"
  by (auto simp: fresh_below_def)

lemma fresh_below_rules:
  "fresh_below (s @ r) n \<Longrightarrow> fresh_below (s @ [n ..< n + k] @ r) (n + k)"
  "fresh_below (s @ r) n \<Longrightarrow> fresh_below ([n + k ..< n + k + j] @ r) (n + k + j)"
  "fresh_below (s @ i @ e @ r) n \<Longrightarrow> fresh_below ([n + k ..< n + k + j] @ i @ [n ..< n + k] @ r) (n + k + j)"
  "fresh_below (s @ i @ e @ r) n \<Longrightarrow> fresh_below (e @ r) n" "fresh_below (s @ i @ e @ r) n \<Longrightarrow> fresh_below (s @ r) n"
  by (auto simp: fresh_below_append fresh_below_upt Int_Un_distrib Int_Un_distrib2 simp del: upt_Suc
      intro: fresh_below_upt(1) dest: fresh_below_less)

lemma ids_ok_fresh: "ids_ok ns \<longleftrightarrow> fresh_below (all_ids ns) (next_id ns)"
  by (simp add: ids_ok_def fresh_below_def list_all_iff)

lemma ids_preprocessor:
  assumes "ids_ok ns"
  shows "ids_ok (UpdatePreprocessor line ns)"
proof (cases "pp_stack ns")
  case Nil
  then have f: "fresh_below (map block_id (nstack ns) @ []) (next_id ns)" using assms by (simp add: ids_ok_fresh all_ids_def)
  show ?thesis using assms Nil fresh_below_rules(1) [OF f, of "length (nstack ns)"]
    by (simp add: UpdatePreprocessor_def Let_def ids_ok_fresh all_ids_def checkpoint_ids_def)
next
  case (Cons pp pps)
  let ?s = "map block_id (nstack ns)" and ?i = "map block_id (stack_before_if pp)" and ?e = "map block_id (stack_before_else pp)"
    and ?r = "concat (map checkpoint_ids pps)" and ?n = "next_id ns"
  have f: "fresh_below (?s @ ?i @ ?e @ ?r) ?n" using assms Cons by (simp add: ids_ok_fresh all_ids_def checkpoint_ids_def)
  note rules = fresh_below_rules(1) [OF f, of "length (nstack ns)"]
    fresh_below_rules(2) [OF f, of "length (nstack ns)" "length (stack_before_if pp)"]
    fresh_below_rules(3) [OF f, of "length (nstack ns)" "length (stack_before_if pp)"]
    fresh_below_rules(4,5) [OF f]
  show ?thesis using f rules Cons
    by (simp add: UpdatePreprocessor_def Let_def ids_ok_fresh all_ids_def checkpoint_ids_def del: upt_Suc)
qed

abbreviation Updates ::
  "handler \<Rightarrow> string \<Rightarrow> cleansed_lines \<Rightarrow> nesting \<times> lint \<Rightarrow> nat list \<Rightarrow> (nesting \<times> lint) res" where
  "Updates er filename cl st ls \<equiv> foldR (\<lambda>st l. Update er filename cl l st) st ls"

lemma Updates_ids: "Updates er filename cl (ns, lst) ls = Inr (ns', lst') \<Longrightarrow> ids_ok ns \<Longrightarrow> ids_ok ns'"
proof (induction ls arbitrary: ns lst)
  case (Cons l ls)
  obtain ns1 lst1 where u: "Update er filename cl l (ns, lst) = Inr (ns1, lst1)"
      "Updates er filename cl (ns1, lst1) ls = Inr (ns', lst')"
    using Cons.prems(1) by (auto simp: bindR_Inr_iff)
  have "ids_ok (remember_top ns)" using Cons.prems(2) by (simp add: ids_ok_def all_ids_def remember_top_def)
  then have "ids_ok ns1" by (intro nest_ids.Update_J [OF u(1)] ids_preprocessor)
  then show ?case by (rule Cons.IH [OF u(2)])
qed simp

text \<open>C25: In every state that \<open>Update\<close> reaches from the initial one, all blocks are different objects: no block occurs twice on
  the stack or in a checkpoint of the preprocessor, and none is shared between the stack and the checkpoints or between two
  checkpoints, so that changing the block on top of the stack changes no checkpoint.\<close>

theorem Update_distinct_blocks:
  assumes "Updates er filename cl (NestingState_init, lst) ls = Inr (ns, lst')"
  shows "distinct (map block_id (nstack ns) @
    concat (map (\<lambda>pp. map block_id (stack_before_if pp) @ map block_id (stack_before_else pp)) (pp_stack ns)))"
proof -
  have "ids_ok NestingState_init" by (simp add: ids_ok_def all_ids_def NestingState_init_def)
  then have "distinct (all_ids ns)" using Updates_ids [OF assms] by (simp add: ids_ok_def)
  then show ?thesis by (simp only: all_ids_def checkpoint_ids_def [abs_def])
qed

section \<open>Conditional compilation\<close>

definition is_if :: "string \<Rightarrow> bool" where
  "is_if line \<longleftrightarrow> MatchB ''^`s*#`s*(if|ifdef|ifndef)`b'' line"

definition is_else :: "string \<Rightarrow> bool" where
  "is_else line \<longleftrightarrow> \<not> is_if line \<and> MatchB ''^`s*#`s*(else|elif)`b'' line"

definition is_endif :: "string \<Rightarrow> bool" where
  "is_endif line \<longleftrightarrow> \<not> is_if line \<and> \<not> is_else line \<and> MatchB ''^`s*#`s*endif`b'' line"

definition same_blocks :: "block list \<Rightarrow> block list \<Rightarrow> bool" where
  "same_blocks bs cs \<longleftrightarrow> map (\<lambda>b. b\<lparr>block_id := 0\<rparr>) bs = map (\<lambda>b. b\<lparr>block_id := 0\<rparr>) cs"

lemma same_deepcopy [simp]: "same_blocks (deepcopy n bs) cs = same_blocks bs cs"
proof -
  have "map (\<lambda>b. b\<lparr>block_id := 0\<rparr>) (deepcopy n bs) = map (\<lambda>b. b\<lparr>block_id := 0\<rparr>) bs"
    by (induction bs arbitrary: n) (simp_all add: deepcopy_def)
  then show ?thesis by (simp add: same_blocks_def)
qed

lemma same_refl [simp]: "same_blocks bs bs"
  by (simp add: same_blocks_def)

lemma no_directive_pp:
  "\<not> is_if line \<Longrightarrow> \<not> is_else line \<Longrightarrow> \<not> is_endif line \<Longrightarrow> UpdatePreprocessor line ns = ns"
  by (simp add: UpdatePreprocessor_def is_if_def is_else_def is_endif_def Let_def)

text \<open>The depth of conditionals after some lines; \<open>None\<close> when they close one that was open before.\<close>

fun conditional_depth :: "string list \<Rightarrow> nat \<Rightarrow> nat list \<Rightarrow> nat option" where
  "conditional_depth elided d [] = Some d"
| "conditional_depth elided d (l # ls) =
     (if is_if (elided ! l) then conditional_depth elided (d + 1) ls
      else if is_endif (elided ! l) then if d = 0 then None else conditional_depth elided (d - 1) ls
      else conditional_depth elided d ls)"

lemma pp_step:
  assumes "pp_stack ns = qs @ pp # pps" "seen_else pp" "is_endif line \<longrightarrow> qs \<noteq> []"
  shows "\<exists>qs'. pp_stack (UpdatePreprocessor line ns) = qs' @ pp # pps \<and>
    length qs' = (if is_if line then length qs + 1 else if is_endif line then length qs - 1 else length qs)"
proof -
  consider "is_if line" | "is_else line" | "is_endif line" | "\<not> is_if line" "\<not> is_else line" "\<not> is_endif line" by blast
  then show ?thesis
  proof cases
    case 1
    then show ?thesis using assms(1) by (intro exI [of _ "_ # qs"]) (simp add: UpdatePreprocessor_def is_if_def Let_def)
  next
    case 2
    then have "\<not> is_endif line" "\<not> is_if line" by (simp_all add: is_endif_def is_else_def)
    then show ?thesis using 2 assms(1,2)
      by (cases qs) (auto simp: UpdatePreprocessor_def is_else_def is_if_def Let_def intro: exI [of _ "[]"] exI [of _ "_ # _"])
  next
    case 3
    then have "\<not> is_if line" by (simp add: is_endif_def)
    then show ?thesis using 3 assms
      by (cases qs) (auto simp: UpdatePreprocessor_def is_endif_def is_else_def is_if_def Let_def)
  next
    case 4
    then show ?thesis using assms(1) by (auto simp: no_directive_pp)
  qed
qed

lemma Updates_pp:
  assumes "Updates er filename cl (ns, lst) ls = Inr (ns', lst')" "pp_stack ns = qs @ pp # pps" "seen_else pp"
    and "conditional_depth (cl_elided cl) (length qs) ls = Some d"
  shows "\<exists>qs'. pp_stack ns' = qs' @ pp # pps \<and> length qs' = d"
  using assms(1,2,4)
proof (induction ls arbitrary: ns lst qs)
  case (Cons l ls)
  let ?line = "cl_elided cl ! l"
  obtain ns1 lst1 where u: "Update er filename cl l (ns, lst) = Inr (ns1, lst1)"
      "Updates er filename cl (ns1, lst1) ls = Inr (ns', lst')"
    using Cons.prems(1) by (auto simp: bindR_Inr_iff)
  have open_if: "is_endif ?line \<longrightarrow> qs \<noteq> []" using Cons.prems(3) by (auto simp: is_endif_def)
  have "pp_stack (remember_top ns) = qs @ pp # pps" using Cons.prems(2) by (simp add: remember_top_def)
  from pp_step [OF this assms(3) open_if] obtain qs1 where q: "pp_stack (UpdatePreprocessor ?line (remember_top ns)) = qs1 @ pp # pps"
      "length qs1 = (if is_if ?line then length qs + 1 else if is_endif ?line then length qs - 1 else length qs)" by blast
  have "pp_stack ns1 = qs1 @ pp # pps" by (rule nest_pp.Update_J [OF u(1) q(1)])
  then show ?case using Cons.IH [OF u(2)] Cons.prems(3) q(2) by (simp split: if_splits)
qed simp

text \<open>C24: Of a conditional with \<open>#else\<close> or \<open>#elif\<close>, only the first branch counts for the nesting. Take the first \<open>#else\<close> or \<open>#elif\<close>
  of an open \<open>#if\<close> and any lines behind it that close every conditional they open, further \<open>#elif\<close> and \<open>#else\<close> branches of the
  same \<open>#if\<close> and nested conditionals included: the next \<open>#endif\<close> restores the stack that stood before that first
  \<open>#else\<close> or \<open>#elif\<close>, block by block, and drops the checkpoint.\<close>

theorem else_branch_forgotten:
  assumes "is_else (cl_elided cl ! l)" "pp_stack ns = pp # pps" "\<not> seen_else pp"
    and "Updates er filename cl (ns, lst) (l # ls) = Inr (ns', lst')"
    and "conditional_depth (cl_elided cl) 0 ls = Some 0" "is_endif line"
  shows "same_blocks (nstack (UpdatePreprocessor line ns')) (nstack ns) \<and> pp_stack (UpdatePreprocessor line ns') = pps"
proof -
  let ?pp = "pp\<lparr>seen_else := True, stack_before_else := deepcopy (next_id ns) (nstack ns)\<rparr>"
  obtain ns1 lst1 where u: "Update er filename cl l (ns, lst) = Inr (ns1, lst1)"
      "Updates er filename cl (ns1, lst1) ls = Inr (ns', lst')"
    using assms(4) by (auto simp: bindR_Inr_iff)
  have "pp_stack (UpdatePreprocessor (cl_elided cl ! l) (remember_top ns)) = ?pp # pps"
    using assms(1-3) by (simp add: UpdatePreprocessor_def is_else_def is_if_def remember_top_def Let_def)
  then have "pp_stack ns1 = ?pp # pps" by (intro nest_pp.Update_J [OF u(1)])
  then have "pp_stack ns' = ?pp # pps" using Updates_pp [OF u(2), of "[]" ?pp pps 0] assms(5) by simp
  then show ?thesis using assms(6)
    by (auto simp: UpdatePreprocessor_def is_endif_def is_else_def is_if_def Let_def)
qed

context error_sink
begin

lemma Updates_return:
  "cl_ok cl \<Longrightarrow> list_all (\<lambda>l. l < num_lines cl) ls \<Longrightarrow> nest_ok (num_lines cl) ns \<Longrightarrow> inv lst \<Longrightarrow>
   \<exists>ns' lst'. Updates error filename cl (ns, lst) ls = Inr (ns', lst')"
proof (induction ls arbitrary: ns lst)
  case (Cons l ls)
  obtain ns1 lst1 where "Update error filename cl l (ns, lst) = Inr (ns1, lst1)" "nest_ok (num_lines cl) ns1" "inv lst1"
    using Update_returns [OF Cons.prems(1) _ Cons.prems(3,4), of l filename] Cons.prems(2) by auto
  then show ?case using Cons.IH [of ns1 lst1] Cons.prems by simp
qed simp

end

definition plain_cleansed :: "string list \<Rightarrow> cleansed_lines" where
  "plain_cleansed ls = \<lparr>cl_elided = ls, cl_lines = ls, raw_lines = ls, num_lines = length ls,
                        lines_without_raw_strings = ls\<rparr>"

lemma cl_ok_plain [simp]: "cl_ok (plain_cleansed ls)"
  by (simp add: cl_ok_def plain_cleansed_def)

theorem else_branch_forgotten_witness:
  "\<exists>ns' lst'. Updates Error ''a.cc'' (plain_cleansed [''#elif A'', ''f() {'', ''#if B'', ''#endif'', ''#else''])
       (NestingState_init\<lparr>pp_stack := [\<lparr>stack_before_if = [], stack_before_else = [], seen_else = False\<rparr>]\<rparr>, lint_init)
       [0, 1, 2, 3, 4] = Inr (ns', lst') \<and>
     same_blocks (nstack (UpdatePreprocessor ''#endif'' ns')) [] \<and> pp_stack (UpdatePreprocessor ''#endif'' ns') = []"
proof -
  let ?cl = "plain_cleansed [''#elif A'', ''f() {'', ''#if B'', ''#endif'', ''#else'']"
  let ?ns = "NestingState_init\<lparr>pp_stack := [\<lparr>stack_before_if = [], stack_before_else = [], seen_else = False\<rparr>]\<rparr>"
  have "lint_ok lint_init" by code_simp
  moreover have "nest_ok n ?ns" for n by (simp add: nest_ok_def NestingState_init_def)
  ultimately obtain ns' lst' where u: "Updates Error ''a.cc'' ?cl (?ns, lint_init) [0, 1, 2, 3, 4] = Inr (ns', lst')"
    using lint_error.Updates_return [of ?cl "[0, 1, 2, 3, 4]" ?ns lint_init "''a.cc''"]
    by (auto simp: plain_cleansed_def cl_ok_def)
  have e: "is_else (cl_elided ?cl ! 0)" "is_endif ''#endif''" by code_simp+
  have l: "conditional_depth (cl_elided ?cl) 0 [1, 2, 3, 4] = Some 0" by code_simp
  have "same_blocks (nstack (UpdatePreprocessor ''#endif'' ns')) (nstack ?ns) \<and>
      pp_stack (UpdatePreprocessor ''#endif'' ns') = []"
    by (rule else_branch_forgotten [OF e(1) _ _ u l e(2)], simp, simp)
  then show ?thesis using u by (auto simp: NestingState_init_def)
qed

theorem Update_distinct_blocks_witness:
  "\<exists>ns lst'. Updates Error ''a.cc'' (plain_cleansed [''namespace a {'', ''#if A'', ''f() {'', ''#else''])
       (NestingState_init, lint_init) [0, 1, 2, 3] = Inr (ns, lst') \<and>
     distinct (map block_id (nstack ns) @
       concat (map (\<lambda>pp. map block_id (stack_before_if pp) @ map block_id (stack_before_else pp)) (pp_stack ns)))"
proof -
  let ?cl = "plain_cleansed [''namespace a {'', ''#if A'', ''f() {'', ''#else'']"
  have "lint_ok lint_init" by code_simp
  moreover have "nest_ok n NestingState_init" for n by (simp add: nest_ok_def NestingState_init_def)
  ultimately obtain ns lst' where u: "Updates Error ''a.cc'' ?cl (NestingState_init, lint_init) [0, 1, 2, 3] = Inr (ns, lst')"
    using lint_error.Updates_return [of ?cl "[0, 1, 2, 3]" NestingState_init lint_init "''a.cc''"]
    by (auto simp: plain_cleansed_def cl_ok_def)
  from Update_distinct_blocks [OF u] u show ?thesis by blast
qed

section \<open>Brace depth\<close>

text \<open>The abstract view: only the number of open blocks, counted over the characters of a line.\<close>

definition brace_depth :: "nat \<Rightarrow> string \<Rightarrow> nat" where
  "brace_depth d line = foldl (\<lambda>d c. if c = CHR ''{'' then d + 1 else if c = CHR ''}'' then d - 1 else d) d line"

lemma brace_depth_skip: "list_all (\<lambda>c. c \<notin> set ''{;)}'') u \<Longrightarrow> brace_depth d (u @ v) = brace_depth d v"
  unfolding brace_depth_def by (induction u) auto

abbreviation brace_chars :: "citem list" where
  "brace_chars \<equiv> [CChar CHR ''{'', CChar CHR '';'', CChar CHR '')'', CChar CHR ''}'']"

lemma brace_rx:
  "rx brace_pattern = rseq [RBol, rstar (RChr (class_pred True brace_chars)),
     RGroup 1 (RChr (class_pred False brace_chars)), RGroup 2 (rstar rany), REol]"
  unfolding brace_pattern_def by (simp add: rx_eval)

lemma brace_class: "class_pred b brace_chars c \<longleftrightarrow> b \<noteq> (c \<in> set ''{;)}'')"
  by (auto simp: class_pred_def)

lemma mt_rest_of_line:
  assumes "newline \<notin> set s" "i \<le> length s"
  shows "mt (RSeq (RGroup 2 (rstar rany)) REol) s i g = [(length s, g(2 \<mapsto> (i, length s)))]"
proof -
  have t: "takeWhile (\<lambda>c. c \<noteq> newline) (drop i s) = drop i s"
    using assms(1) set_drop_subset [of i s] by (intro takeWhile_eq_all_conv [THEN iffD2]) auto
  have e: "run_end (\<lambda>c. c \<noteq> newline) s i = length s"
    using assms(2) by (simp add: run_end_def t)
  have no: "mt REol s k h = (if k = length s then [(k, h)] else [])" if "k \<le> length s" for k h
  proof -
    have "s ! k \<noteq> newline" if "k < length s" using assms(1) nth_mem [OF that] by metis
    then show ?thesis using that by auto
  qed
  have "mt (RSeq (RGroup 2 (rstar rany)) REol) s i g =
      concat (map (\<lambda>k. mt REol s k (g(2 \<mapsto> (i, k)))) (rev [i ..< length s + 1]))"
    by (simp add: mt_star_class rany_def e comp_def del: upt_Suc)
  also have "\<dots> = mt REol s (length s) (g(2 \<mapsto> (i, length s)))"
    by (rule concat_rev_single) (use no assms(2) in \<open>auto simp del: mt.simps\<close>)
  finally show ?thesis by simp
qed

lemma brace_match:
  assumes "newline \<notin> set (u @ c # v)" "list_all (\<lambda>c. c \<notin> set ''{;)}'') u" "c \<in> set ''{;)}''"
  shows "\<exists>m. Match brace_pattern (u @ c # v) = Some m \<and> group0 m 1 = [c] \<and> group0 m 2 = v"
proof -
  let ?s = "u @ c # v" and ?n = "length u"
  let ?q = "rseq [RGroup 1 (RChr (class_pred False brace_chars)), RGroup 2 (rstar rany), REol]"
  have run: "run_end (class_pred True brace_chars) ?s 0 = ?n"
    using run_end_rest [of 0 ?s u c v "class_pred True brace_chars"] assms(2,3) by (auto simp: brace_class list_all_iff)
  have none: "mt ?q ?s k Map.empty = []" if "k < ?n" for k
    using that assms(2) by (auto simp: brace_class nth_append list_all_iff)
  have "mt (rx brace_pattern) ?s 0 Map.empty = mt ?q ?s ?n Map.empty"
    unfolding brace_rx using mt_class_then [of 0 "class_pred True brace_chars" ?s ?q Map.empty] none run by simp
  also have "\<dots> = [(length ?s, [1 \<mapsto> (?n, ?n + 1), 2 \<mapsto> (?n + 1, length ?s)])]"
    using mt_rest_of_line [OF assms(1), of "?n + 1" "[1 \<mapsto> (?n, ?n + 1)]"] assms(3)
    by (simp add: brace_class del: mt.simps(3)) (simp add: nth_append brace_class)
  finally show ?thesis
    by (auto simp: Match_def re_Match_def match_at_def group0_def group_def substr_def)
qed

lemma brace_none: "list_all (\<lambda>c. c \<notin> set ''{;)}'') s \<Longrightarrow> Match brace_pattern s = None"
proof -
  assume a: "list_all (\<lambda>c. c \<notin> set ''{;)}'') s"
  have "mt (RGroup 1 (RChr (class_pred False brace_chars))) s k g = []" for k g
    using a nth_mem [of k s] by (fastforce simp: brace_class list_all_iff)
  then have "set (mt (rx brace_pattern) s 0 Map.empty) = {}"
    unfolding brace_rx rseq.simps by (auto simp: mt_seq_set simp del: mt.simps(1,5,6))
  then show ?thesis by (simp add: Match_def re_Match_None)
qed

lemma brace_step_depth:
  assumes "brace_step er filename cl l line [c] (ns, lst) = Inr (ns', lst')"
    "list_all seen_open_brace (nstack ns)" "c \<in> set ''{;)}''"
  shows "length (nstack ns') = brace_depth (length (nstack ns)) [c] \<and> list_all seen_open_brace (nstack ns')"
proof -
  have seen: "SeenOpenBrace ns" using assms(2) by (cases "nstack ns") (auto simp: SeenOpenBrace_def)
  show ?thesis
  proof (cases "nstack ns")
    case Nil
    then show ?thesis using assms seen
      by (auto simp: brace_step_def brace_depth_def push_block_def map_top_def mk_block_def split: if_splits)
  next
    case (Cons b bs)
    then show ?thesis using assms seen
      by (auto simp: brace_step_def brace_depth_def push_block_def pop_block_def map_top_def mk_block_def bindR_Inr_iff
          split: if_splits)
  qed
qed

lemma braces_depth:
  "consume_braces er filename cl l line (ns, lst) = Inr (ns', lst') \<Longrightarrow> list_all seen_open_brace (nstack ns) \<Longrightarrow>
   newline \<notin> set line \<Longrightarrow>
   length (nstack ns') = brace_depth (length (nstack ns)) line \<and> list_all seen_open_brace (nstack ns')"
proof (induction "length line" arbitrary: line ns lst rule: less_induct)
  case less
  show ?case
  proof (cases "list_all (\<lambda>c. c \<notin> set ''{;)}'') line")
    case True
    then show ?thesis using less.prems brace_none [OF True] brace_depth_skip [OF True, of _ "[]"]
      by (simp add: consume_braces.simps brace_depth_def)
  next
    case False
    then have "\<exists>c \<in> set line. c \<in> set ''{;)}''" unfolding list_all_iff by blast
    from split_list_first_prop [OF this] obtain u c v
      where line: "line = u @ c # v" "c \<in> set ''{;)}''" and "\<forall>c \<in> set u. c \<notin> set ''{;)}''" by blast
    then have line3: "list_all (\<lambda>c. c \<notin> set ''{;)}'') u" by (simp only: list_all_iff)
    obtain m where m: "Match brace_pattern line = Some m" "group0 m 1 = [c]" "group0 m 2 = v"
      using brace_match [OF _ line3 line(2), of v] less.prems(3) line(1) by blast
    obtain ns1 lst1 where s: "brace_step er filename cl l line [c] (ns, lst) = Inr (ns1, lst1)"
        "consume_braces er filename cl l v (ns1, lst1) = Inr (ns', lst')"
      using less.prems(1) m by (subst (asm) consume_braces.simps) (auto simp: bindR_Inr_iff)
    note d = brace_step_depth [OF s(1) less.prems(2) line(2)]
    have "length (nstack ns') = brace_depth (length (nstack ns1)) v \<and> list_all seen_open_brace (nstack ns')"
      by (rule less.hyps [OF _ s(2)]) (use d less.prems(3) line(1) in simp_all)
    moreover have "brace_depth (length (nstack ns)) line = brace_depth (brace_depth (length (nstack ns)) [c]) v"
      unfolding line(1) brace_depth_skip [OF line3] by (simp add: brace_depth_def)
    ultimately show ?thesis using d by simp
  qed
qed

lemma map_top_length [simp]: "length (nstack (map_top f ns)) = length (nstack ns)"
  by (simp add: map_top_def split: list.splits)

lemma map_top_seen:
  "(\<And>b. seen_open_brace (f b) = seen_open_brace b) \<Longrightarrow>
   list_all seen_open_brace (nstack (map_top f ns)) = list_all seen_open_brace (nstack ns)"
  by (simp add: map_top_def split: list.splits)

lemma access_depth:
  "update_access er filename l line (ns, lst) = Inr (ns', lst') \<Longrightarrow>
   length (nstack ns') = length (nstack ns) \<and>
   list_all seen_open_brace (nstack ns') = list_all seen_open_brace (nstack ns)"
  by (auto simp: update_access_def bindR_Inr_iff Let_def map_top_seen split: list.splits block_kind.splits option.splits)

text \<open>C23: Refinement to a counter: on a line without preprocessor directive and without the head of a class or
  namespace, met with all blocks open, \<open>Update\<close> changes the height of the stack as
  counting its braces does, never below zero, and leaves all blocks open.\<close>

theorem Update_refines_depth:
  assumes "cl_ok cl" "l < num_lines cl" "nest_ok (num_lines cl) ns" "lint_ok lst"
    and "list_all seen_open_brace (nstack ns)" "newline \<notin> set (cl_elided cl ! l)"
    and "\<not> is_if (cl_elided cl ! l)" "\<not> is_else (cl_elided cl ! l)" "\<not> is_endif (cl_elided cl ! l)"
    and "Match namespace_pattern (cl_elided cl ! l) = None" "Match class_decl_pattern (cl_elided cl ! l) = None"
  shows "\<exists>ns' lst'. Update Error filename cl l (ns, lst) = Inr (ns', lst') \<and>
           length (nstack ns') = brace_depth (length (nstack ns)) (cl_elided cl ! l) \<and>
           list_all seen_open_brace (nstack ns')"
proof -
  let ?line = "cl_elided cl ! l"
  let ?ns1 = "map_top (count_parens ?line) (remember_top ns)"
  obtain ns' lst' where u: "Update Error filename cl l (ns, lst) = Inr (ns', lst')"
    using lint_error.Update_returns [OF assms(1-4)] by blast
  have ns1: "length (nstack ?ns1) = length (nstack ns)" "list_all seen_open_brace (nstack ?ns1)"
    using assms(5) by (simp_all add: map_top_seen count_parens_def Let_def remember_top_def)
  then have b: "check_begin cl l ?ns1 = Inr ?ns1"
    by (cases "nstack ?ns1") (simp_all add: check_begin_def SeenOpenBrace_def)
  obtain ns2 lst2 where a: "update_access Error filename l ?line (?ns1, lst) = Inr (ns2, lst2)"
      "consume_braces Error filename cl l ?line (ns2, lst2) = Inr (ns', lst')"
    using u b no_directive_pp [OF assms(7-9)] assms(10,11)
    by (auto simp: Update_def bindR_Inr_iff consume_namespaces.simps consume_class_def)
  show ?thesis
    using u braces_depth [OF a(2)] access_depth [OF a(1)] ns1 assms(6) by auto
qed

theorem Update_refines_depth_witness:
  "\<exists>ns' lst'. Update Error ''a.cc'' (plain_cleansed [''void f() { g({}); }  {'']) 0 (NestingState_init, lint_init) =
       Inr (ns', lst') \<and> length (nstack ns') = 1"
proof -
  let ?line = "''void f() { g({}); }  {''"
  have init_stack: "nstack NestingState_init = []" by (simp add: NestingState_init_def)
  have "lint_ok lint_init" by code_simp
  moreover have "\<not> is_if ?line" "\<not> is_else ?line" "\<not> is_endif ?line" by code_simp+
  moreover have "Match namespace_pattern ?line = None" "Match class_decl_pattern ?line = None"
    by (simp_all add: Match_def re_Match_None, code_simp+)
  moreover have "brace_depth 0 ?line = 1" by code_simp
  ultimately show ?thesis
    using Update_refines_depth [of "plain_cleansed [?line]" 0 NestingState_init lint_init "''a.cc''"]
    by (auto simp: plain_cleansed_def cl_ok_def init_stack)
qed

end
