(* ===== verification/Lint_Spacing.thy ===== *)
theory Lint_Spacing
  imports Lint_Nesting
begin

text \<open>
  The checks of \<open>cpplint.py\<close> for spaces and blank lines, comments, access macros and sections of a class,
  each as an action. Inside the contract
  of the error handler every check keeps its invariant (\<open>keeps\<close>): it raises nothing on a
  line of the file and makes documented reports only.
\<close>

section \<open>Single patterns\<close>

definition UNSAFE_FUNC_PREFIX :: string where
  "UNSAFE_FUNC_PREFIX = ''(?:[-+*/=%^&|(<]`s*|>`s+)''"

definition THREADING_LIST :: "(string \<times> string \<times> string) list" where
  "THREADING_LIST =
     [(''asctime('', ''asctime_r('', UNSAFE_FUNC_PREFIX @ ''asctime`([^)]+`)''),
      (''ctime('', ''ctime_r('', UNSAFE_FUNC_PREFIX @ ''ctime`([^)]+`)''),
      (''getgrgid('', ''getgrgid_r('', UNSAFE_FUNC_PREFIX @ ''getgrgid`([^)]+`)''),
      (''getgrnam('', ''getgrnam_r('', UNSAFE_FUNC_PREFIX @ ''getgrnam`([^)]+`)''),
      (''getlogin('', ''getlogin_r('', UNSAFE_FUNC_PREFIX @ ''getlogin`(`)''),
      (''getpwnam('', ''getpwnam_r('', UNSAFE_FUNC_PREFIX @ ''getpwnam`([^)]+`)''),
      (''getpwuid('', ''getpwuid_r('', UNSAFE_FUNC_PREFIX @ ''getpwuid`([^)]+`)''),
      (''gmtime('', ''gmtime_r('', UNSAFE_FUNC_PREFIX @ ''gmtime`([^)]+`)''),
      (''localtime('', ''localtime_r('', UNSAFE_FUNC_PREFIX @ ''localtime`([^)]+`)''),
      (''rand('', ''rand_r('', UNSAFE_FUNC_PREFIX @ ''rand`(`)''),
      (''strtok('', ''strtok_r('', UNSAFE_FUNC_PREFIX @ ''strtok`([^)]+`)''),
      (''ttyname('', ''ttyname_r('', UNSAFE_FUNC_PREFIX @ ''ttyname`([^)]+`)'')]"

definition CheckPosixThreading :: "handler \<Rightarrow> string \<Rightarrow> cleansed_lines \<Rightarrow> nat \<Rightarrow> act" where
  "CheckPosixThreading error filename cl linenum =
     withR (indexR (cl_elided cl) linenum) (\<lambda>line.
       seqA (map (\<lambda>(single_thread_func, multithread_safe_func, pattern).
         onlyif (SearchB pattern line)
           (report error filename (int linenum) ''runtime/threadsafe_fn'' 2
              (''Consider using '' @ multithread_safe_func @ ''...) instead of '' @ single_thread_func @
               ''...) for improved thread safety.''))) THREADING_LIST))"

definition CheckVlogArguments :: "handler \<Rightarrow> string \<Rightarrow> cleansed_lines \<Rightarrow> nat \<Rightarrow> act" where
  "CheckVlogArguments error filename cl linenum =
     withR (indexR (cl_elided cl) linenum) (\<lambda>line.
       onlyif (SearchB ''`bVLOG`((INFO|ERROR|WARNING|DFATAL|FATAL)`)'' line)
         (report error filename (int linenum) ''runtime/vlog'' 5
            (''VLOG() should be used with numeric verbosity level.  '' @
             ''Use LOG() if you want symbolic severity levels.'')))"

definition RE_PATTERN_INVALID_INCREMENT :: string where
  "RE_PATTERN_INVALID_INCREMENT = ''^`s*`*`w+(`+`+|--);''"

definition CheckInvalidIncrement :: "handler \<Rightarrow> string \<Rightarrow> cleansed_lines \<Rightarrow> nat \<Rightarrow> act" where
  "CheckInvalidIncrement error filename cl linenum =
     withR (indexR (cl_elided cl) linenum) (\<lambda>line.
       onlyif (MatchB RE_PATTERN_INVALID_INCREMENT line)
         (report error filename (int linenum) ''runtime/invalid_increment'' 5
            ''Changing pointer instead of value (or unused value of operator*).''))"

text \<open>On the first line the previous one is not looked at.\<close>

definition IsMacroDefinition :: "string list \<Rightarrow> nat \<Rightarrow> bool res" where
  "IsMacroDefinition lines linenum =
     bindR (indexR lines linenum) (\<lambda>line.
       if SearchB ''^#define'' line then Inr True
       else if linenum > 0 then
         bindR (indexR lines (linenum - 1)) (\<lambda>prev. Inr (SearchB ''``$'' prev))
       else Inr False)"

definition IsForwardClassDeclaration :: "string list \<Rightarrow> nat \<Rightarrow> bool res" where
  "IsForwardClassDeclaration lines linenum =
     bindR (indexR lines linenum) (\<lambda>line. Inr (MatchB ''^`s*(`btemplate`b)*.*class`s+`w+;`s*$'' line))"

definition CheckMakePairUsesDeduction :: "handler \<Rightarrow> string \<Rightarrow> cleansed_lines \<Rightarrow> nat \<Rightarrow> act" where
  "CheckMakePairUsesDeduction error filename cl linenum =
     withR (indexR (cl_elided cl) linenum) (\<lambda>line.
       onlyif (SearchB ''`bmake_pair`s*<'' line)
         (report error filename (int linenum) ''build/explicit_make_pair'' 4
            (''For C++11-compatibility, omit template arguments from make_pair'' @
             '' OR use pair directly OR if appropriate, construct a pair directly'')))"

section \<open>Comments and blank lines\<close>

definition IsBlankLine :: "string \<Rightarrow> bool" where
  "IsBlankLine line \<longleftrightarrow> line = [] \<or> list_all py_isspace line"

definition RE_PATTERN_TODO :: string where
  "RE_PATTERN_TODO = ''^//(`s*)TODO(`(.+?`))?:?(`s|$)?''"

definition CheckComment :: "handler \<Rightarrow> string \<Rightarrow> string \<Rightarrow> nat \<Rightarrow> nat \<Rightarrow> act" where
  "CheckComment error line filename linenum next_line_start =
     (let commentpos = py_find line ''//''
      in if commentpos = -1 then skip
         else
           let p = nat commentpos; comment = drop p line
           in onlyif (py_count (re_sub (rx ''``.'') [] (take p line)) [dquote] mod 2 = 0)
                (seqA
                  [onlyif (\<not> (MatchB ''^.*{ *//'' line \<and> next_line_start = p) \<and>
                         ((p \<ge> 1 \<and> \<not> py_isspace (line ! (p - 1))) \<or> (p \<ge> 2 \<and> \<not> py_isspace (line ! (p - 2)))))
                     (report error filename (int linenum) ''whitespace/comments'' 2
                        ''At least two spaces is best between code and comments''),
                   on_some (Match RE_PATTERN_TODO comment) (\<lambda>m.
                     seqA
                       [onlyif (length (group0 m 1) > 1)
                          (report error filename (int linenum) ''whitespace/todo'' 2 ''Too many spaces before TODO''),
                        onlyif (group0 m 2 = [])
                          (report error filename (int linenum) ''readability/todo'' 2
                             (''Missing username in TODO; it should look like '' @
                              [dquote] @ ''// TODO(my_username): Stuff.'' @ [dquote])),
                        onlyif (group m 3 \<noteq> Some '' '' \<and> group m 3 \<noteq> Some [])
                          (report error filename (int linenum) ''whitespace/todo'' 2
                             ''TODO(my_username) should be followed by a space'')]),
                   onlyif (MatchB ''//[^ ]*`w'' comment \<and> \<not> MatchB ''(///|//`!)(`s+|$)'' comment)
                     (report error filename (int linenum) ''whitespace/comments'' 4
                        ''Should have a space between // and comment'')]))"

definition CheckAccess :: "handler \<Rightarrow> string \<Rightarrow> cleansed_lines \<Rightarrow> nat \<Rightarrow> nesting \<Rightarrow> act" where
  "CheckAccess error filename cl linenum ns =
     withR (indexR (cl_elided cl) linenum) (\<lambda>line.
       on_some (Match ''`s*(DISALLOW_COPY_AND_ASSIGN|DISALLOW_IMPLICIT_CONSTRUCTORS)'' line) (\<lambda>matched.
         case nstack ns of
           [] \<Rightarrow> skip
         | b # bs \<Rightarrow>
             (case bkind b of
                ClassInfo c \<Rightarrow>
                  onlyif (ci_access c \<noteq> ''private'')
                    (report error filename (int linenum) ''readability/constructors'' 3
                       (group0 matched 1 @ '' must be in the private: section''))
              | _ \<Rightarrow> skip)))"

text \<open>The opening column of an initializer list: the last line before \<open>n\<close> that is not indented by six.\<close>

fun before_initializers :: "string list \<Rightarrow> nat \<Rightarrow> int" where
  "before_initializers elided 0 = -1"
| "before_initializers elided (Suc k) =
     (if MatchB '' {6}`w'' (elided ! k) then before_initializers elided k else int k)"

definition blank_line_exception :: "string list \<Rightarrow> nat \<Rightarrow> string \<Rightarrow> bool" where
  "blank_line_exception elided linenum prev_line =
     (if MatchB '' {6}`w'' prev_line then
        let search_position = before_initializers elided (linenum - 1)
        in search_position \<ge> 0 \<and> take 5 (elided ! nat search_position) = ''    :''
      else MatchB '' {4}`w[^`(]*`)`s*(const`s*)?(`{`s*$|:)'' prev_line \<or> MatchB '' {4}:'' prev_line)"

definition check_blank_line :: "handler \<Rightarrow> string \<Rightarrow> cleansed_lines \<Rightarrow> nat \<Rightarrow> act" where
  "check_blank_line error filename cl linenum =
     withR (py_index (cl_elided cl) (int linenum - 1)) (\<lambda>prev_line.
       let prevbrace = py_rfind prev_line ''{''
       in seqA
            [onlyif (prevbrace \<noteq> -1 \<and> py_find (py_drop prev_line prevbrace) ''}'' = -1 \<and>
                     \<not> blank_line_exception (cl_elided cl) linenum prev_line)
               (report error filename (int linenum) ''whitespace/blank_line'' 2
                  ''Redundant blank line at the start of a code block should be deleted.''),
             if linenum + 1 < num_lines cl then
               withR (indexR (lines_without_raw_strings cl) (linenum + 1)) (\<lambda>next_line.
                 onlyif (next_line \<noteq> [] \<and> MatchB ''`s*}'' next_line \<and> py_find next_line ''} else '' = -1)
                   (report error filename (int linenum) ''whitespace/blank_line'' 3
                      ''Redundant blank line at the end of a code block should be deleted.''))
             else skip,
             on_some (Match ''`s*(public|protected|private):'' prev_line) (\<lambda>matched.
               report error filename (int linenum) ''whitespace/blank_line'' 3
                 (''Do not leave a blank line after '' @ [dquote] @ group0 matched 1 @ '':'' @ [dquote]))])"

definition CheckSpacing :: "handler \<Rightarrow> string \<Rightarrow> cleansed_lines \<Rightarrow> nat \<Rightarrow> nesting \<Rightarrow> act" where
  "CheckSpacing error filename cl linenum ns =
     withR (indexR (lines_without_raw_strings cl) linenum) (\<lambda>line.
       seqA
         [onlyif (IsBlankLine line \<and> \<not> InNamespaceBody ns \<and> \<not> InExternC ns)
            (check_blank_line error filename cl linenum),
          if linenum + 1 < num_lines cl then
            withR (indexR (lines_without_raw_strings cl) (linenum + 1)) (\<lambda>next_line.
              CheckComment error line filename linenum (length next_line - length (py_lstrip next_line)))
          else CheckComment error line filename linenum 0,
          withR (indexR (cl_elided cl) linenum) (\<lambda>line.
            seqA
              [onlyif (SearchB ''`w`s+`['' line \<and> \<not> SearchB ''(?:delete|return)`s+`['' line)
                 (report error filename (int linenum) ''whitespace/braces'' 5 ''Extra space before [''),
               onlyif (SearchB ''for *`(.*[^:]:[^: ]'' line \<or> SearchB ''for *`(.*[^: ]:[^:]'' line)
                 (report error filename (int linenum) ''whitespace/forcolon'' 2
                    ''Missing space around colon in range-based for loop'')])])"

section \<open>Operators\<close>

definition operator_name_pattern :: string where
  "operator_name_pattern = ''^(.*`boperator`b)(`S+)(`s*`(.*)$''"

definition mask_operator :: "re_match \<Rightarrow> string" where
  "mask_operator m = group0 m 1 @ replicate (length (group0 m 2)) CHR ''_'' @ group0 m 3"

definition non_underscores :: "string \<Rightarrow> nat" where
  "non_underscores s = length (filter (\<lambda>c. c \<noteq> CHR ''_'') s)"

lemma operator_rx:
  "rx operator_name_pattern = rseq
     [RBol,
      RGroup 1 (rseq (rstar rany # RWordB # map rch ''operator'' @ [RWordB])),
      RGroup 2 (RSeq (RChr (\<lambda>c. \<not> py_isspace c)) (rstar (RChr (\<lambda>c. \<not> py_isspace c)))),
      RGroup 3 (rseq [rstar rspace, rch CHR ''('', rstar rany]), REol]"
  unfolding operator_name_pattern_def by (simp add: rx_eval rspace_def is_digit_def in_range_def)

lemma operator_spans:
  assumes "Match operator_name_pattern s = Some m"
  shows "\<exists>i j k. m_groups m 1 = Some (0, i) \<and> m_groups m 2 = Some (i, j) \<and> m_groups m 3 = Some (j, k) \<and>
    i < j \<and> j \<le> k \<and> k \<le> length s \<and> \<not> is_word (s ! i) \<and> m_subject m = s"
proof -
  have m: "(m_end m, m_groups m) \<in> set (mt (rx operator_name_pattern) s 0 Map.empty)" "m_subject m = s"
    using assms re_Match_Some by (auto simp: Match_def)
  have w: "is_word CHR ''r''" "is_word CHR ''o''" by (simp_all add: is_word_def is_lower_def in_range_def)
  show ?thesis using m w
    by (auto simp: operator_rx mt_seq_set mt_bol_set mt_group_set mt_wordb_set mt_chr_set mt_class_set mt_eol_set
      rclass_defs word_boundary_def word_at_def simp del: mt.simps)
qed

lemma mask_operator_length: "Match operator_name_pattern s = Some m \<Longrightarrow> length (mask_operator m) \<le> length s"
  using operator_spans [of s m] by (auto simp: mask_operator_def group0_Some)

lemma count_substr: "i \<le> j \<Longrightarrow> j \<le> k \<Longrightarrow>
  non_underscores (substr s i j) + non_underscores (substr s j k) = non_underscores (substr s i k)"
  using take_add [of "j - i" "k - j" "drop i s"]
  by (simp add: non_underscores_def substr_def flip: length_append filter_append)

lemma count_substr_le: "non_underscores (substr s 0 k) \<le> non_underscores s"
  unfolding non_underscores_def substr_def
  by (metis append_take_drop_id diff_zero drop_0 filter_append le_add1 length_append)

lemma mask_operator_less:
  assumes "Match operator_name_pattern s = Some m"
  shows "non_underscores (mask_operator m) < non_underscores s"
proof -
  obtain i j k where g: "m_groups m 1 = Some (0, i)" "m_groups m 2 = Some (i, j)" "m_groups m 3 = Some (j, k)"
      "i < j" "j \<le> k" "k \<le> length s" "\<not> is_word (s ! i)" "m_subject m = s"
    using operator_spans [OF assms] by blast
  have "substr s i j = s ! i # substr s (Suc i) j"
    using g by (simp add: substr_def Cons_nth_drop_Suc [symmetric] take_Cons')
  moreover have "s ! i \<noteq> CHR ''_''" using g(7) by (auto simp: is_word_def)
  ultimately have "0 < non_underscores (substr s i j)" by (simp add: non_underscores_def)
  moreover have "non_underscores (substr s 0 i) + non_underscores (substr s i j) + non_underscores (substr s j k) \<le> non_underscores s"
    using g count_substr [of 0 i j s] count_substr [of 0 j k s] count_substr_le [of s k] by simp
  moreover have "non_underscores (mask_operator m) = non_underscores (substr s 0 i) + non_underscores (substr s j k)"
    using g by (simp add: mask_operator_def group0_Some non_underscores_def)
  ultimately show ?thesis by simp
qed

function mask_operators :: "string \<Rightarrow> string" where
  "mask_operators line =
     (case Match operator_name_pattern line of None \<Rightarrow> line | Some m \<Rightarrow> mask_operators (mask_operator m))"
  by pat_completeness auto
termination
  by (relation "measure non_underscores") (auto dest: mask_operator_less)

declare mask_operators.simps [simp del]

lemma mask_operators_length: "length (mask_operators line) \<le> length line"
proof (induction line rule: mask_operators.induct)
  case (1 line)
  then show ?case using mask_operator_length
    by (subst mask_operators.simps) (auto split: option.splits intro: le_trans)
qed

lemma mask_operators_done: "Match operator_name_pattern (mask_operators line) = None"
proof (induction line rule: mask_operators.induct)
  case (1 line)
  then show ?case by (subst mask_operators.simps) (auto split: option.splits)
qed

definition equals_spacing :: "string \<Rightarrow> bool" where
  "equals_spacing line \<longleftrightarrow>
     (SearchB ''[`w.]='' line \<or> SearchB ''=[`w.]'' line) \<and> \<not> SearchB ''`b(if|while|for) '' line \<and>
     \<not> SearchB ''(>=|<=|==|!=|&=|`^=|`|=|`+=|`*=|`/=|`%=)'' line \<and> \<not> SearchB ''operator='' line"

definition less_pattern :: string where
  "less_pattern = ''^(.*[^`s<])<[^`s=<,]''"

definition greater_pattern :: string where
  "greater_pattern = ''^(.*[^-`s>])>[^`s=>,]''"

definition shift_pattern :: string where
  "shift_pattern = ''(operator|[^`s(<])(?:L|UL|LL|ULL|l|ul|ll|ull)?<<([^`s,=<])''"

definition py_isdigit :: "string \<Rightarrow> bool" where
  "py_isdigit s \<longleftrightarrow> s \<noteq> [] \<and> list_all is_digit s"

definition CheckOperatorSpacing :: "handler \<Rightarrow> string \<Rightarrow> cleansed_lines \<Rightarrow> nat \<Rightarrow> act" where
  "CheckOperatorSpacing error filename cl linenum =
     withR (indexR (cl_elided cl) linenum) (\<lambda>elided_line.
       let line = mask_operators elided_line;
           missing = (\<lambda>op. report error filename (int linenum) ''whitespace/operators'' 3
                              (''Missing spaces around '' @ op))
       in seqA
         [onlyif (equals_spacing line)
            (report error filename (int linenum) ''whitespace/operators'' 4 ''Missing spaces around =''),
          case Search ''[^<>=!`s](==|!=|<=|>=|`|`|)[^<>=!`s,;`)]'' line of
            Some m \<Rightarrow> missing (group0 m 1)
          | None \<Rightarrow>
              onlyif (\<not> MatchB ''#.*include'' line)
                (seqA
                  [on_some (Match less_pattern line) (\<lambda>m.
                     withR (CloseExpression (cl_elided cl) linenum (length (group0 m 1))) (\<lambda>(_, _, end_pos).
                       onlyif (end_pos \<le> -1) (missing ''<''))),
                   on_some (Match greater_pattern line) (\<lambda>m.
                     withR (ReverseCloseExpression (cl_elided cl) linenum (length (group0 m 1))) (\<lambda>(_, _, start_pos).
                       onlyif (start_pos \<le> -1) (missing ''>'')))]),
          on_some (Search shift_pattern line) (\<lambda>m.
            onlyif (\<not> (py_isdigit (group0 m 1) \<and> py_isdigit (group0 m 2)) \<and>
                    \<not> (group0 m 1 = ''operator'' \<and> group0 m 2 = '';''))
              (missing ''<<'')),
          onlyif (SearchB ''>>[a-zA-Z_]'' line) (missing ''>>''),
          on_some (Search ''(!`s|~`s|[`s]--[`s;]|[`s]`+`+[`s;])'' line) (\<lambda>m.
            report error filename (int linenum) ''whitespace/operators'' 4
              (''Extra space for operator '' @ group0 m 1))])"

section \<open>Parentheses, commas, calls\<close>

definition CheckParenthesisSpacing :: "handler \<Rightarrow> string \<Rightarrow> cleansed_lines \<Rightarrow> nat \<Rightarrow> act" where
  "CheckParenthesisSpacing error filename cl linenum =
     withR (indexR (cl_elided cl) linenum) (\<lambda>line.
       seqA
         [on_some (Search '' (if`(|for`(|while`(|switch`()'' line) (\<lambda>m.
            report error filename (int linenum) ''whitespace/parens'' 5
              (''Missing space before ( in '' @ group0 m 1)),
          on_some (Search ''`b(if|for|while|switch)`s*`(([ ]*)(.).*[^ ]+([ ]*)`)`s*{`s*$'' line) (\<lambda>m.
            let before = length (group0 m 2); after = length (group0 m 4)
            in seqA
              [onlyif (before \<noteq> after \<and>
                       \<not> ((group0 m 3 = '';'' \<and> before = 1 + after) \<or>
                          (before = 0 \<and> SearchB ''`bfor`s*`(.*; `)'' line)))
                 (report error filename (int linenum) ''whitespace/parens'' 5
                    (''Mismatching spaces inside () in '' @ group0 m 1)),
               onlyif (before \<notin> {0, 1})
                 (report error filename (int linenum) ''whitespace/parens'' 5
                    (''Should have zero or one spaces inside ( and ) in '' @ group0 m 1))])])"

definition CheckCommaSpacing :: "handler \<Rightarrow> string \<Rightarrow> cleansed_lines \<Rightarrow> nat \<Rightarrow> act" where
  "CheckCommaSpacing error filename cl linenum =
     withR (indexR (cl_elided cl) linenum) (\<lambda>line.
       seqA
         [if SearchB '',[^,`s]'' (ReplaceAll ''`boperator`s*,`s*`('' ''F('' line) then
            withR (indexR (lines_without_raw_strings cl) linenum) (\<lambda>raw.
              onlyif (SearchB '',[^,`s]'' raw)
                (report error filename (int linenum) ''whitespace/comma'' 3 ''Missing space after ,''))
          else skip,
          onlyif (SearchB '';[^`s};``)/]'' line)
            (report error filename (int linenum) ''whitespace/semicolon'' 3 ''Missing space after ;'')])"

text \<open>Inside a control structure only what stands between its parentheses is looked at.\<close>

definition control_patterns :: "string list" where
  "control_patterns =
     [''`bif`s*`((.*)`)`s*{'', ''`bfor`s*`((.*)`)`s*{'', ''`bwhile`s*`((.*)`)`s*[{;]'', ''`bswitch`s*`((.*)`)`s*{'']"

definition inside_control :: "string \<Rightarrow> string" where
  "inside_control line =
     (case List.find (\<lambda>p. SearchB p line) control_patterns of
        None \<Rightarrow> line
      | Some p \<Rightarrow> (case Search p line of None \<Rightarrow> line | Some m \<Rightarrow> group0 m 1))"

definition CheckSpacingForFunctionCall :: "handler \<Rightarrow> string \<Rightarrow> cleansed_lines \<Rightarrow> nat \<Rightarrow> act" where
  "CheckSpacingForFunctionCall error filename cl linenum =
     withR (indexR (cl_elided cl) linenum) (\<lambda>line.
       let fncall = inside_control line;
           parens = report error filename (int linenum) ''whitespace/parens''
       in onlyif
         (\<not> SearchB ''`b(if|for|while|switch|return|new|delete|catch|sizeof)`b'' fncall \<and>
          \<not> SearchB '' `([^)]+`)`([^)]*(`)|,$)'' fncall \<and>
          \<not> SearchB '' `([^)]+`)`[[^`]]+`]'' fncall)
         (seqA
           [if SearchB ''`w`s*`(`s(?!`s*``$)'' fncall then parens 4 ''Extra space after ( in function call''
            else onlyif (SearchB ''`(`s+(?!(`s*``)|`()'' fncall) (parens 2 ''Extra space after (''),
            onlyif
              (SearchB ''`w`s+`('' fncall \<and>
               \<not> SearchB ''_{0,2}asm_{0,2}`s+_{0,2}volatile_{0,2}`s+`('' fncall \<and>
               \<not> SearchB ''#`s*define|typedef|using`s+`w+`s*='' fncall \<and>
               \<not> SearchB ''`w`s+`((`w+::)*`*`w+`)`('' fncall \<and>
               \<not> SearchB ''`bcase`s+`('' fncall)
              (if SearchB ''`boperator_*`b'' line then parens 0 ''Extra space before ( in function call''
               else parens 4 ''Extra space before ( in function call''),
            onlyif (SearchB ''[^)]`s+`)`s*[^{`s]'' fncall)
              (if SearchB ''^`s+`)'' fncall then parens 2 ''Closing ) should be moved to the previous line''
               else parens 2 ''Extra space before )'')]))"

section \<open>Sections of a class\<close>

definition end_class_head :: "string list \<Rightarrow> nat \<Rightarrow> nat \<Rightarrow> nat" where
  "end_class_head lines start linenum =
     (case List.find (\<lambda>i. SearchB ''`{`s*$'' (lines ! i)) [start ..< linenum] of None \<Rightarrow> start | Some i \<Rightarrow> i)"

definition CheckSectionSpacing :: "handler \<Rightarrow> string \<Rightarrow> cleansed_lines \<Rightarrow> block \<Rightarrow> class_info \<Rightarrow> nat \<Rightarrow> act" where
  "CheckSectionSpacing error filename cl b c linenum =
     (if int (last_line c) - int (starting_linenum b) \<le> 24 \<or> linenum \<le> starting_linenum b then skip
      else
        withR (indexR (cl_lines cl) linenum) (\<lambda>line.
          on_some (Match ''`s*(public|protected|private):'' line) (\<lambda>matched.
            withR (indexR (cl_lines cl) (linenum - 1)) (\<lambda>prev_line.
              onlyif (\<not> IsBlankLine prev_line \<and> \<not> SearchB ''`b(class|struct)`b'' prev_line \<and>
                      \<not> SearchB ''``$'' prev_line \<and>
                      end_class_head (cl_lines cl) (starting_linenum b) linenum < linenum - 1)
                (report error filename (int linenum) ''whitespace/blank_line'' 3
                   ([dquote] @ group0 matched 1 @ '':'' @ [dquote] @ '' should be preceded by a blank line''))))))"

text \<open>The line of a position below \<open>n\<close> that is not blank, nearest to \<open>n\<close>.\<close>

fun GetPreviousNonBlankLine :: "string list \<Rightarrow> nat \<Rightarrow> string \<times> int" where
  "GetPreviousNonBlankLine elided 0 = ([], -1)"
| "GetPreviousNonBlankLine elided (Suc k) =
     (if IsBlankLine (elided ! k) then GetPreviousNonBlankLine elided k else (elided ! k, int k))"

section \<open>The checks keep the invariant of the error handler\<close>

lemma spacing_patterns:
  "list_all compiles
     ([''``.'', ''^.*{ *//'', RE_PATTERN_TODO, ''//[^ ]*`w'', ''(///|//`!)(`s+|$)'',
       ''`bVLOG`((INFO|ERROR|WARNING|DFATAL|FATAL)`)'', RE_PATTERN_INVALID_INCREMENT, ''^#define'', ''``$'',
       ''^`s*(`btemplate`b)*.*class`s+`w+;`s*$'', ''`bmake_pair`s*<'',
       ''`s*(DISALLOW_COPY_AND_ASSIGN|DISALLOW_IMPLICIT_CONSTRUCTORS)'', '' {6}`w'',
       '' {4}`w[^`(]*`)`s*(const`s*)?(`{`s*$|:)'', '' {4}:'', ''`s*}'', ''`s*(public|protected|private):'',
       ''`w`s+`['', ''(?:delete|return)`s+`['', ''for *`(.*[^:]:[^: ]'', ''for *`(.*[^: ]:[^:]'',
       operator_name_pattern, ''[`w.]='', ''=[`w.]'', ''`b(if|while|for) '',
       ''(>=|<=|==|!=|&=|`^=|`|=|`+=|`*=|`/=|`%=)'', ''operator='', less_pattern, greater_pattern, shift_pattern,
       ''[^<>=!`s](==|!=|<=|>=|`|`|)[^<>=!`s,;`)]'', ''#.*include'', ''>>[a-zA-Z_]'',
       ''(!`s|~`s|[`s]--[`s;]|[`s]`+`+[`s;])'', '' (if`(|for`(|while`(|switch`()'',
       ''`b(if|for|while|switch)`s*`(([ ]*)(.).*[^ ]+([ ]*)`)`s*{`s*$'', ''`bfor`s*`(.*; `)'',
       '',[^,`s]'', ''`boperator`s*,`s*`('', '';[^`s};``)/]'',
       ''`b(if|for|while|switch|return|new|delete|catch|sizeof)`b'', '' `([^)]+`)`([^)]*(`)|,$)'',
       '' `([^)]+`)`[[^`]]+`]'', ''`w`s*`(`s(?!`s*``$)'', ''`(`s+(?!(`s*``)|`()'', ''`w`s+`('',
       ''_{0,2}asm_{0,2}`s+_{0,2}volatile_{0,2}`s+`('', ''#`s*define|typedef|using`s+`w+`s*='',
       ''`w`s+`((`w+::)*`*`w+`)`('', ''`bcase`s+`('', ''`boperator_*`b'', ''[^)]`s+`)`s*[^{`s]'', ''^`s+`)'',
       ''`b(class|struct)`b'', ''`{`s*$''] @ control_patterns @ map (\<lambda>(_, _, p). p) THREADING_LIST)"
  by code_simp

lemma keeps_index_before:
  assumes "l < length xs" "\<And>x. keeps I (f x)"
  shows "keeps I (withR (py_index xs (int l - 1)) f)"
proof -
  have "\<exists>x. py_index xs (int l - 1) = Inr x" using assms(1) by (cases l) (auto simp: py_index_def indexR_def)
  then show ?thesis using assms(2) by (auto intro: keeps_withR)
qed

lemma before_initializers_less: "before_initializers elided n < int n"
  by (induction n) auto

lemma GetPreviousNonBlankLine_less: "GetPreviousNonBlankLine elided n = (l, k) \<Longrightarrow> k < int n"
  by (induction n) (auto split: if_splits)

lemma operator_groups: "list_all (leading_group 1) [less_pattern, greater_pattern]"
  by code_simp

lemma masked_prefix:
  "Match p (mask_operators s) = Some m \<Longrightarrow> leading_group 1 p \<Longrightarrow> length (group0 m 1) < length s"
  using Match_leading mask_operators_length [of s] by fastforce

context error_sink
begin

lemma keeps_PosixThreading:
  "l < length (cl_elided cl) \<Longrightarrow> keeps inv (CheckPosixThreading error filename cl l)"
  unfolding CheckPosixThreading_def THREADING_LIST_def list.map prod.case by (intro keeps_intros) simp_all

lemma keeps_VlogArguments: "l < length (cl_elided cl) \<Longrightarrow> keeps inv (CheckVlogArguments error filename cl l)"
  unfolding CheckVlogArguments_def by (intro keeps_intros) simp_all

lemma keeps_InvalidIncrement: "l < length (cl_elided cl) \<Longrightarrow> keeps inv (CheckInvalidIncrement error filename cl l)"
  unfolding CheckInvalidIncrement_def by (intro keeps_intros) simp_all

lemma keeps_MakePair: "l < length (cl_elided cl) \<Longrightarrow> keeps inv (CheckMakePairUsesDeduction error filename cl l)"
  unfolding CheckMakePairUsesDeduction_def by (intro keeps_intros) simp_all

lemma keeps_Comment: "keeps inv (CheckComment error line filename l next_line_start)"
  unfolding CheckComment_def Let_def by (intro keeps_intros) simp_all

lemma keeps_Access: "l < length (cl_elided cl) \<Longrightarrow> keeps inv (CheckAccess error filename cl l ns)"
  unfolding CheckAccess_def by (auto intro!: keeps_intros split: list.split block_kind.split)

lemma keeps_Spacing: "cl_ok cl \<Longrightarrow> l < num_lines cl \<Longrightarrow> keeps inv (CheckSpacing error filename cl l ns)"
  unfolding CheckSpacing_def check_blank_line_def Let_def cl_ok_def
  by (intro keeps_intros keeps_Comment keeps_index_before) simp_all

lemma keeps_OperatorSpacing:
  "l < length (cl_elided cl) \<Longrightarrow> keeps inv (CheckOperatorSpacing error filename cl l)"
  unfolding CheckOperatorSpacing_def Let_def
  by (intro keeps_intros keeps_CloseExpression keeps_ReverseCloseExpression)
    (use operator_groups masked_prefix in auto)

lemma keeps_ParenthesisSpacing:
  "l < length (cl_elided cl) \<Longrightarrow> keeps inv (CheckParenthesisSpacing error filename cl l)"
  unfolding CheckParenthesisSpacing_def Let_def by (intro keeps_intros) simp_all

lemma keeps_CommaSpacing: "cl_ok cl \<Longrightarrow> l < num_lines cl \<Longrightarrow> keeps inv (CheckCommaSpacing error filename cl l)"
  unfolding CheckCommaSpacing_def cl_ok_def by (intro keeps_intros) simp_all

lemma keeps_FunctionCall: "l < length (cl_elided cl) \<Longrightarrow> keeps inv (CheckSpacingForFunctionCall error filename cl l)"
  unfolding CheckSpacingForFunctionCall_def Let_def by (intro keeps_intros) simp_all

lemma keeps_SectionSpacing: "l < length (cl_lines cl) \<Longrightarrow> keeps inv (CheckSectionSpacing error filename cl b c l)"
  unfolding CheckSectionSpacing_def by (intro keeps_intros) simp_all

end

end
