(* ===== verification/Lint_Braces.thy ===== *)
theory Lint_Braces
  imports Lint_Spacing
begin

text \<open>
  The checks of \<open>cpplint.py\<close> for braces: spaces before them, blocks of \<open>if\<close> and \<open>else\<close>, superfluous
  semicolons and empty bodies. They follow brackets over several lines with \<open>CloseExpression\<close> and
  \<open>ReverseCloseExpression\<close>; that every line and column they read exists is part of the theorems.
\<close>

section \<open>Types\<close>

definition TYPES :: string where
  "TYPES = ''^(?:(char(16_t|32_t)?)|wchar_t|bool|short|int|long|signed|unsigned|float|double|'' @
     ''(ptrdiff_t|size_t|max_align_t|nullptr_t)|(u?int(_fast|_least)?(8|16|32|64)_t)|(u?int(max|ptr)_t)|)$''"

definition typename_pattern :: "string \<Rightarrow> string" where
  "typename_pattern token = unquote ''`b(?:typename|class|struct)`s+'' @ re_escape token @ unquote ''`b''"

text \<open>The walk up the stack of blocks, its top first.\<close>

fun type_in_blocks :: "re \<Rightarrow> string list \<Rightarrow> block list \<Rightarrow> bool res" where
  "type_in_blocks r elided [] = Inr False"
| "type_in_blocks r elided (b # bs) =
     (if is_namespace b then Inr False
      else
        let last = starting_linenum b;
            next_block_start = (case bs of [] \<Rightarrow> 0 | c # _ \<Rightarrow> starting_linenum c)
        in if next_block_start \<le> last \<and> length elided \<le> last then Inl IndexError
           else (case List.find (\<lambda>i. py_find (elided ! i) ''template'' \<ge> 0) (rev [next_block_start ..< last + 1]) of
                   None \<Rightarrow> type_in_blocks r elided bs
                 | Some first \<Rightarrow>
                     if list_ex (\<lambda>i. re_Search r (elided ! i) \<noteq> None) [first ..< last + 1] then Inr True
                     else type_in_blocks r elided bs))"

definition last_token :: "string \<Rightarrow> string" where
  "last_token expr = (case Match ''^.*(`b`S+)$'' expr of None \<Rightarrow> expr | Some m \<Rightarrow> group0 m 1)"

definition IsType :: "string list \<Rightarrow> nesting \<Rightarrow> string \<Rightarrow> bool res" where
  "IsType elided ns expr =
     (let token = last_token expr
      in if MatchB TYPES token then Inr True
         else bindR (re_compile (typename_pattern token)) (\<lambda>r. type_in_blocks r elided (nstack ns)))"

section \<open>Spaces before braces\<close>

definition before_brace_pattern :: string where
  "before_brace_pattern = ''^(.*[^ ({>]){''"

definition trailing_text :: "cleansed_lines \<Rightarrow> string \<Rightarrow> int \<Rightarrow> int \<Rightarrow> string" where
  "trailing_text cl endline endlinenum endpos =
     (if endpos > -1 then drop (nat endpos) endline else []) @
     concat (map (\<lambda>offset. cl_elided cl ! offset)
       [nat endlinenum + 1 ..< min (nat endlinenum + 3) (num_lines cl - 1)])"

definition CheckBracesSpacing :: "handler \<Rightarrow> string \<Rightarrow> cleansed_lines \<Rightarrow> nat \<Rightarrow> nesting \<Rightarrow> act" where
  "CheckBracesSpacing error filename cl linenum ns =
     withR (indexR (cl_elided cl) linenum) (\<lambda>line.
       seqA
         [on_some (Match before_brace_pattern line) (\<lambda>m.
            withR (CloseExpression (cl_elided cl) linenum (length (group0 m 1))) (\<lambda>(endline, endlinenum, endpos).
              if MatchB ''^[`s}]*[{.;,)<>`]:]'' (trailing_text cl endline endlinenum endpos) then skip
              else withR (IsType (cl_elided cl) ns (group0 m 1)) (\<lambda>is_type.
                onlyif (\<not> is_type)
                  (report error filename (int linenum) ''whitespace/braces'' 5 ''Missing space before {'')))),
          onlyif (SearchB ''}else'' line)
            (report error filename (int linenum) ''whitespace/braces'' 5 ''Missing space before else''),
          if SearchB '':`s*;`s*$'' line then
            report error filename (int linenum) ''whitespace/semicolon'' 5
              ''Semicolon defining empty statement. Use {} instead.''
          else if SearchB ''^`s*;`s*$'' line then
            report error filename (int linenum) ''whitespace/semicolon'' 5
              (''Line contains only semicolon. If this should be an empty statement, '' @ ''use {} instead.'')
          else onlyif (SearchB ''`s+;`s*$'' line \<and> \<not> SearchB ''`bfor`b'' line)
            (report error filename (int linenum) ''whitespace/semicolon'' 5
               (''Extra space before last semicolon. If this should be an empty '' @ ''statement, use {} instead.''))])"

definition IsDecltype :: "string list \<Rightarrow> nat \<Rightarrow> nat \<Rightarrow> bool res" where
  "IsDecltype elided linenum column =
     bindR (ReverseCloseExpression elided linenum column) (\<lambda>(line_text, _, start_col).
       Inr (\<not> start_col < 0 \<and> SearchB ''`bdecltype`s*$'' (take (nat start_col) line_text)))"

section \<open>Bodies of if and else\<close>

definition if_pattern :: string where
  "if_pattern = ''`bif`s*`(''"

text \<open>From a line on, the first that has a semicolon; on the first line only behind the column.\<close>

fun semicolon_line :: "nat \<Rightarrow> string \<Rightarrow> string list \<Rightarrow> nat option" where
  "semicolon_line k rest_of_line rest =
     (if CHR '';'' \<in> set rest_of_line then Some k
      else case rest of [] \<Rightarrow> None | l # ls \<Rightarrow> semicolon_line (k + 1) l ls)"

declare semicolon_line.simps [simp del]

definition multiple_statements :: "handler \<Rightarrow> string \<Rightarrow> nat \<Rightarrow> act" where
  "multiple_statements error filename linenum =
     report error filename (int linenum) ''readability/braces'' 4
       ''If/else bodies with multiple statements require braces''"

definition check_single_statement ::
  "handler \<Rightarrow> string \<Rightarrow> string list \<Rightarrow> nat \<Rightarrow> nat \<Rightarrow> bool \<Rightarrow> nat \<Rightarrow> act" where
  "check_single_statement error filename elided linenum if_indent has_if endlinenum =
     (let endline = elided ! endlinenum;
          rest = drop (nat (py_find endline '';'')) endline
      in if \<not> MatchB '';[`s}]*(``?)$'' rest then
           onlyif (\<not> MatchB ''^[^{};]*`[[^`[`]]*`][^{}]*`{[^{}]*`}`s*`)*[;,]`s*$'' endline)
             (multiple_statements error filename linenum)
         else if endlinenum < length elided - 1 then
           let next_line = elided ! (endlinenum + 1);
               next_indent = GetIndentLevel next_line
           in if has_if \<and> MatchB ''`s*else`b'' next_line \<and> next_indent \<noteq> if_indent then
                report error filename (int linenum) ''readability/braces'' 4
                  (''Else clause should be indented at the same level as if. '' @
                   ''Ambiguous nested if/else chains require braces.'')
              else onlyif (next_indent > if_indent) (multiple_statements error filename linenum)
         else skip)"

definition check_if_body ::
  "handler \<Rightarrow> string \<Rightarrow> string list \<Rightarrow> nat \<Rightarrow> nat \<Rightarrow> bool \<Rightarrow> string \<times> int \<times> int \<Rightarrow> act" where
  "check_if_body error filename elided linenum if_indent has_if =
     (\<lambda>(endline, endlinenum, endpos).
       let rest = py_drop endline endpos
       in if \<not> MatchB ''`s*{'' rest \<and>
             \<not> (MatchB ''`s*$'' rest \<and> nat endlinenum < length elided - 1 \<and>
                MatchB ''`s*{'' (elided ! (nat endlinenum + 1))) \<and>
             nat endlinenum < length elided
          then
            on_some (semicolon_line (nat endlinenum) (py_drop (elided ! nat endlinenum) endpos)
                       (drop (nat endlinenum + 1) elided))
              (check_single_statement error filename elided linenum if_indent has_if)
          else skip)"

text \<open>What \<open>GetLineWidth\<close> asks of the module \<open>unicodedata\<close>: the normal form of a line, whether a character is of width \<open>W\<close> or \<open>F\<close>,
  and whether it is a combining one. \<open>None\<close> stands for a line that is a byte string.\<close>

record unicode_db =
  normalize_nfc :: "string \<Rightarrow> string"
  east_asian_wide :: "char \<Rightarrow> bool"
  combining :: "char \<Rightarrow> bool"

definition GetLineWidth :: "unicode_db option \<Rightarrow> string \<Rightarrow> nat" where
  "GetLineWidth unicode line =
     (case unicode of
        None \<Rightarrow> length line
      | Some db \<Rightarrow>
          foldl (\<lambda>width uc. if east_asian_wide db uc then width + 2 else if \<not> combining db uc then width + 1 else width)
            0 (normalize_nfc db line))"

text \<open>\<open>line_length\<close> is the global \<open>_line_length\<close>.\<close>

definition CheckBraces :: "int \<Rightarrow> unicode_db option \<Rightarrow> handler \<Rightarrow> string \<Rightarrow> cleansed_lines \<Rightarrow> nat \<Rightarrow> act" where
  "CheckBraces line_length unicode error filename cl linenum =
     withR (indexR (cl_elided cl) linenum) (\<lambda>line.
       let prevline = fst (GetPreviousNonBlankLine (cl_elided cl) linenum);
           both_sides = report error filename (int linenum) ''readability/braces'' 5
                          ''If an else has a brace on one side, it should have it on both''
       in seqA
         [onlyif (MatchB ''`s*{`s*$'' line \<and> \<not> SearchB ''[,;:}{(]`s*$'' prevline \<and> \<not> MatchB ''`s*#'' prevline \<and>
                  \<not> (int (GetLineWidth unicode prevline) > line_length - 2 \<and> py_in ''[]'' prevline))
            (report error filename (int linenum) ''whitespace/braces'' 4
               ''{ should almost always be at the end of the previous line''),
          onlyif (MatchB ''`s*else`b`s*(?:if`b|`{|$)'' line \<and> MatchB ''`s*}`s*$'' prevline)
            (report error filename (int linenum) ''whitespace/newline'' 4
               ''An else should appear on the same line as the preceding }''),
          if SearchB ''else if`s*`('' line then
            let brace_on_left = SearchB ''}`s*else if`s*`('' line;
                pos = py_find_from line ''('' (nat (py_find line ''else if''))
            in if pos > 0 then
                 withR (CloseExpression (cl_elided cl) linenum (nat pos)) (\<lambda>(endline, _, endpos).
                   let brace_on_right = (py_find (py_drop endline endpos) ''{'' \<noteq> -1)
                   in onlyif (brace_on_left \<noteq> brace_on_right) both_sides)
               else skip
          else onlyif (SearchB ''}`s*else[^{]*$'' line \<or> MatchB ''[^}]*else`s*{'' line) both_sides,
          onlyif (SearchB ''`belse [^`s{]'' line \<and> \<not> SearchB ''`belse if`b'' line)
            (report error filename (int linenum) ''whitespace/newline'' 4
               ''Else clause should never be on same line as else (use 2 lines)''),
          onlyif (MatchB ''`s*do [^`s{]'' line)
            (report error filename (int linenum) ''whitespace/newline'' 4
               ''do/while clauses should not be on a single line''),
          on_some (Search ''`b(if`s*`(|else`b)'' line) (\<lambda>if_else_match.
            if MatchB ''`s*#'' line then skip
            else
              case Search if_pattern line of
                None \<Rightarrow>
                  check_if_body error filename (cl_elided cl) linenum (GetIndentLevel line) False
                    (line, int linenum, int (m_end if_else_match))
              | Some if_match \<Rightarrow>
                  withR (CloseExpression (cl_elided cl) linenum (m_end if_match - 1))
                    (check_if_body error filename (cl_elided cl) linenum (GetIndentLevel line) True))])"

section \<open>Semicolons behind blocks\<close>

definition SAFE_MACROS :: "string list" where
  "SAFE_MACROS = [''TEST'', ''TEST_F'', ''MATCHER'', ''MATCHER_P'', ''TYPED_TEST'', ''EXCLUSIVE_LOCKS_REQUIRED'',
     ''SHARED_LOCKS_REQUIRED'', ''LOCKS_EXCLUDED'', ''INTERFACE_DEF'']"

definition exempt_prefix :: "string \<Rightarrow> bool" where
  "exempt_prefix line_prefix \<longleftrightarrow>
     (case Search ''`b([A-Z_][A-Z0-9_]*)`s*$'' line_prefix of None \<Rightarrow> False | Some macro \<Rightarrow> group0 macro 1 \<notin> set SAFE_MACROS) \<or>
     (case Match ''^(.*`])`s*$'' line_prefix of None \<Rightarrow> False
      | Some func \<Rightarrow> \<not> SearchB ''`boperator`s*`[`s*`]'' (group0 func 1)) \<or>
     SearchB ''`b(?:struct|union)`s+alignas`s*$'' line_prefix \<or> SearchB ''`bdecltype$'' line_prefix \<or>
     SearchB ''`s+=`s*$'' line_prefix"

definition paren_brace_pattern :: string where
  "paren_brace_pattern = ''^(.*`)`s*)`{''"

definition else_brace_pattern :: string where
  "else_brace_pattern = ''^(.*(?:else|`)`s*const)`s*)`{''"

definition lone_brace_pattern :: string where
  "lone_brace_pattern = ''^(`s*)`{''"

text \<open>The match whose first group ends at the brace to follow. The group of the first pattern has a \<open>)\<close>.\<close>

definition block_start :: "cleansed_lines \<Rightarrow> nat \<Rightarrow> string \<Rightarrow> re_match option res" where
  "block_start cl linenum line =
     (case Match paren_brace_pattern line of
        Some m \<Rightarrow>
          bindR (ReverseCloseExpression (cl_elided cl) linenum (nat (py_rfind (group0 m 1) '')'')))
            (\<lambda>(open_line, open_linenum, open_pos).
              if open_pos > -1 \<and> exempt_prefix (take (nat open_pos) open_line) then Inr None
              else if open_linenum > 1 then
                bindR (py_index (cl_elided cl) (open_linenum - 1)) (\<lambda>prev.
                  Inr (if SearchB ''`]`s*$'' prev then None else Some m))
              else Inr (Some m))
      | None \<Rightarrow>
          (case Match else_brace_pattern line of
             Some m \<Rightarrow> Inr (Some m)
           | None \<Rightarrow>
               let prevline = fst (GetPreviousNonBlankLine (cl_elided cl) linenum)
               in Inr (if prevline \<noteq> [] \<and> SearchB ''[;{}]`s*$'' prevline then Match lone_brace_pattern line
                       else None)))"

definition CheckTrailingSemicolon :: "handler \<Rightarrow> string \<Rightarrow> cleansed_lines \<Rightarrow> nat \<Rightarrow> act" where
  "CheckTrailingSemicolon error filename cl linenum =
     withR (indexR (cl_elided cl) linenum) (\<lambda>line.
     withR (block_start cl linenum line) (\<lambda>match.
       on_some match (\<lambda>m.
         withR (CloseExpression (cl_elided cl) linenum (length (group0 m 1))) (\<lambda>(endline, endlinenum, endpos).
           if endpos > -1 \<and> MatchB ''^`s*;'' (drop (nat endpos) endline) then
             withR (py_index (raw_lines cl) (endlinenum - 1)) (\<lambda>before.
             withR (py_index (raw_lines cl) endlinenum) (\<lambda>raw.
               seqA
                 [ParseNolintSuppressions error filename before (endlinenum - 1),
                  ParseNolintSuppressions error filename raw endlinenum,
                  report error filename endlinenum ''readability/braces'' 4
                    (''You don'' @ [squote] @ ''t need a ; after a }'')]))
           else skip))))"

section \<open>Empty bodies\<close>

fun opening_brace :: "nat \<Rightarrow> string \<Rightarrow> string list \<Rightarrow> (nat \<times> string) option" where
  "opening_brace k fragment rest =
     (if SearchB ''^`s*`{'' fragment then Some (k, fragment)
      else if SearchB ''^(?!`s*$)'' fragment then None
      else case rest of [] \<Rightarrow> None | l # ls \<Rightarrow> opening_brace (k + 1) l ls)"

declare opening_brace.simps [simp del]

fun else_follows :: "string \<Rightarrow> string list \<Rightarrow> bool" where
  "else_follows fragment rest =
     (if SearchB ''^`s*$|^(?=`s*else)'' fragment then
        (if SearchB ''^(?=`s*else)'' fragment then True
         else case rest of [] \<Rightarrow> False | l # ls \<Rightarrow> else_follows l ls)
      else False)"

declare else_follows.simps [simp del]

text \<open>On several lines the rest of the opening line is split into its characters before all parts are
  joined by newlines.\<close>

definition conditional_body :: "cleansed_lines \<Rightarrow> nat \<Rightarrow> nat \<Rightarrow> nat \<Rightarrow> nat \<Rightarrow> string" where
  "conditional_body cl opening_linenum opening_pos closing_linenum closing_pos =
     (let opening_line = cl_elided cl ! opening_linenum
      in if closing_linenum > opening_linenum then
           join_lines
             (map (\<lambda>c. [c]) (drop (opening_pos + 1) opening_line) @
              drop (opening_linenum + 1) (take closing_linenum (raw_lines cl)) @
              [take (closing_pos - 1) (cl_elided cl ! closing_linenum)])
         else drop (opening_pos + 1) (take (closing_pos - 1) opening_line))"

definition check_if_empty :: "handler \<Rightarrow> string \<Rightarrow> cleansed_lines \<Rightarrow> string \<Rightarrow> nat \<Rightarrow> nat \<Rightarrow> act" where
  "check_if_empty error filename cl end_line end_linenum end_pos =
     on_some (opening_brace end_linenum (drop end_pos end_line) (drop (end_linenum + 1) (cl_elided cl)))
       (\<lambda>(opening_linenum, fragment).
         let brace = nat (py_find fragment ''{'');
             opening_pos = (if opening_linenum = end_linenum then brace + end_pos else brace)
         in withR (CloseExpression (cl_elided cl) opening_linenum opening_pos)
              (\<lambda>(closing_line, closing_linenum, closing_pos).
                if closing_pos < 0 then skip
                else withR (indexR (raw_lines cl) opening_linenum) (\<lambda>raw.
                  onlyif
                    (raw = CleanseComments raw \<and>
                     SearchB ''^`s*$''
                       (conditional_body cl opening_linenum opening_pos (nat closing_linenum) (nat closing_pos)) \<and>
                     \<not> else_follows (drop (nat closing_pos) closing_line)
                         (drop (nat closing_linenum + 1) (cl_elided cl)))
                    (report error filename (int end_linenum) ''whitespace/empty_if_body'' 4
                       ''If statement had no body and no else clause''))))"

definition CheckEmptyBlockBody :: "handler \<Rightarrow> string \<Rightarrow> cleansed_lines \<Rightarrow> nat \<Rightarrow> act" where
  "CheckEmptyBlockBody error filename cl linenum =
     withR (indexR (cl_elided cl) linenum) (\<lambda>line.
       on_some (Match ''`s*(for|while|if)`s*`('' line) (\<lambda>matched.
         withR (CloseExpression (cl_elided cl) linenum (nat (py_find line ''(''))) (\<lambda>(end_line, end_linenum, end_pos).
           if end_pos < 0 then skip
           else
             seqA
               [onlyif (MatchB '';'' (drop (nat end_pos) end_line))
                  (if group0 matched 1 = ''if'' then
                     report error filename end_linenum ''whitespace/empty_conditional_body'' 5
                       ''Empty conditional bodies should use {}''
                   else
                     report error filename end_linenum ''whitespace/empty_loop_body'' 5
                       ''Empty loop bodies should use {} or continue''),
                onlyif (group0 matched 1 = ''if'')
                  (check_if_empty error filename cl end_line (nat end_linenum) (nat end_pos))])))"

section \<open>Positions\<close>

lemma find_at_less: "find_at sub s 0 = Some j \<Longrightarrow> sub \<noteq> [] \<Longrightarrow> j < length s"
  by (cases "j < length s") (auto simp: find_at_Some)

lemma py_find_less: "sub \<noteq> [] \<Longrightarrow> s \<noteq> [] \<Longrightarrow> nat (py_find s sub) < length s"
  by (auto simp: py_find_def find_at_less split: option.splits)

lemma py_rfind_less: "sub \<noteq> [] \<Longrightarrow> s \<noteq> [] \<Longrightarrow> nat (py_rfind s sub) < length s"
  by (cases sub; cases s) (auto simp: py_rfind_def split: option.splits)

lemma py_find_from_less:
  assumes "sub \<noteq> []" "s \<noteq> []"
  shows "nat (py_find_from s sub k) < length s"
proof (cases "find_at sub (drop k s) 0")
  case None
  then show ?thesis using assms(2) by (simp add: py_find_from_def find_at_shift [of sub "drop k s" k])
next
  case (Some j)
  then have "j < length s - k" using find_at_less [OF Some assms(1)] by simp
  then have "nat (int j + int k) < length s" by linarith
  then show ?thesis using assms(2) Some by (simp add: py_find_from_def find_at_shift [of sub "drop k s" k])
qed

lemma Match_nonempty: "Match p s = Some m \<Longrightarrow> 0 < min_width (rx p) \<Longrightarrow> s \<noteq> []"
  using mt_min_width [of "m_end m" "m_groups m" "rx p" s 0 Map.empty] mt_bounds [of "m_end m" "m_groups m" "rx p" s 0]
    re_Match_Some [of "rx p" s m] by (fastforce simp: Match_def)

lemma Search_nonempty: "Search p s = Some m \<Longrightarrow> 0 < min_width (rx p) \<Longrightarrow> s \<noteq> []"
  using Search_min_width [of p s m] Search_Some(4) [of p s m] by auto

text \<open>The last character of a match, as a position.\<close>

lemma Search_last_pos: "Search p s = Some m \<Longrightarrow> 0 < min_width (rx p) \<Longrightarrow> m_end m - 1 < length s"
  using Search_min_width [of p s m] Search_Some(4) [of p s m] by auto

lemma brace_widths:
  "list_all (\<lambda>p. 0 < min_width (rx p))
     [''else if`s*`('', if_pattern, ''^`s*`{'', ''`s*(for|while|if)`s*`('', paren_brace_pattern]"
  by code_simp

lemma brace_groups:
  "list_all (leading_group 1)
     [before_brace_pattern, paren_brace_pattern, else_brace_pattern, lone_brace_pattern]"
  by code_simp

lemma brace_patterns:
  "list_all compiles
     [TYPES, ''^.*(`b`S+)$'', before_brace_pattern, ''^[`s}]*[{.;,)<>`]:]'', ''}else'', '':`s*;`s*$'', ''^`s*;`s*$'',
      ''`s+;`s*$'', ''`bfor`b'', ''`bdecltype`s*$'', if_pattern, '';[`s}]*(``?)$'',
      ''^[^{};]*`[[^`[`]]*`][^{}]*`{[^{}]*`}`s*`)*[;,]`s*$'', ''`s*else`b'', ''`s*{'', ''`s*$'', ''`s*{`s*$'',
      ''[,;:}{(]`s*$'', ''`s*#'', ''`s*else`b`s*(?:if`b|`{|$)'', ''`s*}`s*$'', ''else if`s*`('', ''}`s*else if`s*`('',
      ''}`s*else[^{]*$'', ''[^}]*else`s*{'', ''`belse [^`s{]'', ''`belse if`b'', ''`s*do [^`s{]'',
      ''`b(if`s*`(|else`b)'', ''`b([A-Z_][A-Z0-9_]*)`s*$'', ''^(.*`])`s*$'', ''`boperator`s*`[`s*`]'',
      ''`b(?:struct|union)`s+alignas`s*$'', ''`bdecltype$'', ''`s+=`s*$'', paren_brace_pattern, else_brace_pattern,
      lone_brace_pattern, ''`]`s*$'', ''[;{}]`s*$'', ''^`s*;'', ''^`s*`{'', ''^(?!`s*$)'', ''^`s*$|^(?=`s*else)'',
      ''^(?=`s*else)'', ''^`s*$'', ''`s*(for|while|if)`s*`('', '';'']"
  by code_simp

lemma typename_compiles: "\<exists>r. re_compile (typename_pattern token) = Inr r"
proof (cases "token = []")
  case True
  then show ?thesis by (simp add: typename_pattern_def re_escape_def rx_eval)
next
  case False
  then show ?thesis using escape_no_lazy [of token "unquote ''`b''"] lex_escape [of token "unquote ''`b''"]
    unfolding typename_pattern_def by (simp add: rx_eval prependR_def parse_lits)
qed

lemma type_in_blocks_returns:
  "list_all (block_ok (length elided)) bs \<Longrightarrow> \<exists>b. type_in_blocks r elided bs = Inr b"
  by (induction r elided bs rule: type_in_blocks.induct) (auto simp: Let_def block_ok_def split: option.splits)

lemma IsType_returns: "nest_ok (length elided) ns \<Longrightarrow> \<exists>b. IsType elided ns expr = Inr b"
  using typename_compiles [of "last_token expr"] type_in_blocks_returns
  by (auto simp: IsType_def nest_ok_def Let_def)

lemma block_start_returns:
  assumes "linenum < length (cl_elided cl)"
  shows "\<exists>m. block_start cl linenum (cl_elided cl ! linenum) = Inr m \<and>
    (\<forall>x. m = Some x \<longrightarrow> length (group0 x 1) < length (cl_elided cl ! linenum))"
proof -
  let ?line = "cl_elided cl ! linenum"
  have lead: "length (group0 m 1) < length ?line" if "Match p ?line = Some m" "p \<in> set [paren_brace_pattern, else_brace_pattern, lone_brace_pattern]" for p m
    using Match_leading [OF that(1)] that(2) brace_groups by auto
  show ?thesis
  proof (cases "Match paren_brace_pattern ?line")
    case None
    then show ?thesis using lead by (auto simp: block_start_def Let_def split: option.splits)
  next
    case (Some m)
    have ne: "?line \<noteq> []" using lead [OF Some] by auto
    have "nat (py_rfind (group0 m 1) '')'') < length ?line"
      using lead [OF Some] py_rfind_less [of "'')''" "group0 m 1"] ne by (cases "group0 m 1 = []") (auto simp: py_rfind_def)
    then obtain l k p where r: "ReverseCloseExpression (cl_elided cl) linenum (nat (py_rfind (group0 m 1) '')'')) = Inr (l, k, p)"
      using ReverseCloseExpression_returns [OF assms] by blast
    moreover have "\<exists>x. py_index (cl_elided cl) (k - 1) = Inr x" if "1 < k"
      using ReverseCloseExpression_pos [OF r] that assms by (auto simp: found_at_def py_index_def)
    ultimately show ?thesis using lead [OF Some] Some by (auto simp: block_start_def)
  qed
qed

lemma opening_brace_bounds:
  "opening_brace k fragment rest = Some (n, f) \<Longrightarrow>
   SearchB ''^`s*`{'' f \<and> (n = k \<and> f = fragment \<or> k < n \<and> n - k - 1 < length rest \<and> f = rest ! (n - k - 1))"
proof (induction k fragment rest rule: opening_brace.induct)
  case (1 k fragment rest)
  show ?case
  proof (cases "SearchB ''^`s*`{'' fragment")
    case True
    then show ?thesis using 1 by (simp add: opening_brace.simps [of k])
  next
    case False
    then obtain l ls where r: "rest = l # ls" "opening_brace (k + 1) l ls = Some (n, f)" "\<not> SearchB ''^(?!`s*$)'' fragment"
      using "1.prems" by (auto simp: opening_brace.simps [of k] split: if_splits list.splits)
    from "1.IH" [OF False r(3,1,2)] show ?thesis using r(1) by (auto simp: nth_Cons' dest: less_imp_Suc_add)
  qed
qed

lemma semicolon_line_bounds: "semicolon_line k s rest = Some n \<Longrightarrow> k \<le> n \<and> n - k \<le> length rest"
proof (induction k s rest rule: semicolon_line.induct)
  case (1 k s rest)
  show ?case
  proof (cases "CHR '';'' \<in> set s")
    case True
    then show ?thesis using 1 by (simp add: semicolon_line.simps [of k])
  next
    case False
    then obtain l ls where r: "rest = l # ls" "semicolon_line (k + 1) l ls = Some n"
      using "1.prems" by (auto simp: semicolon_line.simps [of k] split: list.splits)
    from "1.IH" [OF False r] show ?thesis using r(1) by auto
  qed
qed

section \<open>The checks keep the invariant of the error handler\<close>

context error_sink
begin

lemma keeps_BracesSpacing:
  assumes "l < length (cl_elided cl)" "nest_ok (length (cl_elided cl)) ns"
  shows "keeps inv (CheckBracesSpacing error filename cl l ns)"
proof -
  have t: "keeps inv (withR (IsType (cl_elided cl) ns expr) f)" if "\<And>b. keeps inv (f b)" for expr f
    using IsType_returns [OF assms(2), of expr] that by (auto intro: keeps_withR)
  show ?thesis unfolding CheckBracesSpacing_def
    by (intro keeps_intros keeps_CloseExpression t assms) (use brace_groups Match_leading in auto)
qed

lemma keeps_single_statement:
  "keeps inv (check_single_statement error filename elided l if_indent has_if n)"
  unfolding check_single_statement_def multiple_statements_def Let_def by (intro keeps_intros) simp_all

lemma keeps_if_body: "keeps inv (check_if_body error filename elided l if_indent has_if r)"
  unfolding check_if_body_def Let_def by (intro keeps_intros keeps_single_statement)

lemma keeps_Braces:
  assumes "l < length (cl_elided cl)"
  shows "keeps inv (CheckBraces line_length unicode error filename cl l)"
proof -
  have "nat (py_find_from (cl_elided cl ! l) ''('' k) < length (cl_elided cl ! l)"
    if "Search ''else if`s*`('' (cl_elided cl ! l) = Some m" for k m
    using Search_nonempty [OF that] brace_widths by (intro py_find_from_less) auto
  then show ?thesis unfolding CheckBraces_def Let_def
    by (intro keeps_intros keeps_CloseExpression keeps_if_body assms)
      (use brace_widths Search_last_pos in auto)
qed

lemma keeps_TrailingSemicolon:
  assumes "cl_ok cl" "l < num_lines cl"
  shows "keeps inv (CheckTrailingSemicolon error filename cl l)"
proof -
  have l: "l < length (cl_elided cl)" "length (cl_elided cl) = length (raw_lines cl)" using assms by (simp_all add: cl_ok_def)
  obtain m where m: "block_start cl l (cl_elided cl ! l) = Inr m"
      "\<And>x. m = Some x \<Longrightarrow> length (group0 x 1) < length (cl_elided cl ! l)"
    using block_start_returns [OF l(1)] by blast
  show ?thesis unfolding CheckTrailingSemicolon_def
    by (intro keeps_intros l(1), unfold m(1), intro keeps_intros keeps_CloseExpression keeps_index_before l(1) m(2))
      (use l in \<open>auto intro!: keeps_intros keeps_index_before\<close>)
qed

lemma keeps_if_empty:
  assumes "cl_ok cl" "n < num_lines cl" "q \<le> length (cl_elided cl ! n)"
  shows "keeps inv (check_if_empty error filename cl (cl_elided cl ! n) n q)"
proof -
  let ?e = "cl_elided cl"
  have len: "length ?e = num_lines cl" "length (raw_lines cl) = num_lines cl" using assms(1) by (simp_all add: cl_ok_def)
  have pos: "k < length ?e \<and> (if k = n then nat (py_find f ''{'') + q else nat (py_find f ''{'')) < length (?e ! k)"
    if o: "opening_brace n (drop q (?e ! n)) (drop (n + 1) ?e) = Some (k, f)" for k f
  proof -
    have b: "SearchB ''^`s*`{'' f" "k = n \<and> f = drop q (?e ! n) \<or> n < k \<and> k < length ?e \<and> f = ?e ! k"
      using opening_brace_bounds [OF o] by auto
    obtain m where m: "Search ''^`s*`{'' f = Some m" using b(1) by blast
    have "f \<noteq> []" by (rule Search_nonempty [OF m]) (use brace_widths in simp)
    then have "nat (py_find f ''{'') < length f" by (intro py_find_less) simp_all
    then show ?thesis using b(2) assms(2,3) len by auto
  qed
  show ?thesis unfolding check_if_empty_def Let_def
    by (intro keeps_intros keeps_CloseExpression) (use pos len in \<open>auto dest: pos\<close>)
qed

lemma keeps_EmptyBlockBody:
  assumes "cl_ok cl" "l < num_lines cl"
  shows "keeps inv (CheckEmptyBlockBody error filename cl l)"
proof -
  have l: "length (cl_elided cl) = num_lines cl" using assms by (simp add: cl_ok_def)
  have pos: "nat (py_find (cl_elided cl ! l) ''('') < length (cl_elided cl ! l)"
    if "Match ''`s*(for|while|if)`s*`('' (cl_elided cl ! l) = Some m" for m
    using Match_nonempty [OF that] brace_widths by (intro py_find_less) auto
  show ?thesis unfolding CheckEmptyBlockBody_def
    by (intro keeps_intros keeps_CloseExpression)
      (use assms l pos in \<open>auto intro!: keeps_intros keeps_if_empty\<close>)
qed

end

end
