(* ===== verification/Lint_Style.thy ===== *)
theory Lint_Style
  imports Lint_Braces
begin

text \<open>
  Assertion macros (\<open>CheckCheck\<close>), alternative operator names (\<open>CheckAltTokens\<close>) and \<open>CheckStyle\<close> of
  \<open>cpplint.py\<close>, which runs the checks of the style of a line in their order. The splitting of an assertion into
  its operands ends because every step cuts text off the expression.
\<close>

section \<open>Assertion macros\<close>

definition CHECK_MACROS :: "string list" where
  "CHECK_MACROS = [''DCHECK'', ''CHECK'', ''EXPECT_TRUE'', ''ASSERT_TRUE'', ''EXPECT_FALSE'', ''ASSERT_FALSE'']"

definition RELATIONS :: "(string \<times> string) list" where
  "RELATIONS = [(''=='', ''EQ''), (''!='', ''NE''), (''>='', ''GE''), (''>'', ''GT''), (''<='', ''LE''), (''<'', ''LT'')]"

definition INVERSE_RELATIONS :: "(string \<times> string) list" where
  "INVERSE_RELATIONS =
     [(''=='', ''NE''), (''!='', ''EQ''), (''>='', ''LT''), (''>'', ''LE''), (''<='', ''GT''), (''<'', ''GE'')]"

definition CHECK_REPLACEMENT :: "string \<rightharpoonup> (string \<rightharpoonup> string)" where
  "CHECK_REPLACEMENT =
     (let named = (\<lambda>p rs. map_of (map (\<lambda>(op, r). (op, p @ r)) rs))
      in map_of
        [(''DCHECK'', named ''DCHECK_'' RELATIONS), (''CHECK'', named ''CHECK_'' RELATIONS),
         (''EXPECT_TRUE'', named ''EXPECT_'' RELATIONS), (''ASSERT_TRUE'', named ''ASSERT_'' RELATIONS),
         (''EXPECT_FALSE'', named ''EXPECT_'' INVERSE_RELATIONS), (''ASSERT_FALSE'', named ''ASSERT_'' INVERSE_RELATIONS)])"

definition macro_pattern :: "string \<Rightarrow> string" where
  "macro_pattern macro = ''^(.*`b'' @ macro @ ''`s*)`(''"

fun find_macro :: "string list \<Rightarrow> string \<Rightarrow> (string \<times> nat) option" where
  "find_macro [] line = None"
| "find_macro (macro # macros) line =
     (if py_find line macro \<ge> 0 then
        (case Match (macro_pattern macro) line of
           None \<Rightarrow> find_macro macros line
         | Some matched \<Rightarrow> Some (macro, length (group0 matched 1)))
      else find_macro macros line)"

definition FindCheckMacro :: "string \<Rightarrow> (string \<times> nat) option" where
  "FindCheckMacro line = find_macro CHECK_MACROS line"

definition check_token_pattern :: string where
  "check_token_pattern = ''^`s*(<<|<<=|>>|>>=|->`*|->|&&|`|`||==|!=|>=|>|<=|<|`()(.*)$''"

definition operand_pattern :: string where
  "operand_pattern = ''^([^-=!<>()&|]+)(.*)$''"

definition one_char_pattern :: string where
  "one_char_pattern = ''^(`s*`S)(.*)$''"

lemma check_rests: "list_all (behind_group 2) [check_token_pattern, operand_pattern, one_char_pattern]"
  by code_simp

lemma check_rest: "Match p s = Some m \<Longrightarrow> p \<in> set [check_token_pattern, operand_pattern, one_char_pattern] \<Longrightarrow>
  length (group0 m 2) < length s"
  using Match_behind [of p s m 2] check_rests by auto

text \<open>The loop of \<open>CheckCheck\<close>: left operand, relation and right operand; \<open>None\<close> for an early return.\<close>

function split_check :: "string \<Rightarrow> string \<Rightarrow> (string \<times> string option \<times> string) option" where
  "split_check lhs expression =
     (if expression = [] then Some (lhs, None, [])
      else case Match check_token_pattern expression of
        Some m \<Rightarrow>
          let token = group0 m 1; rest = group0 m 2
          in if token = ''('' then
               (case FindEndOfExpressionInLine rest 0 ''('' of
                  Found e \<Rightarrow> split_check (lhs @ ''('' @ take e rest) (drop e rest)
                | _ \<Rightarrow> None)
             else if token = ''&&'' \<or> token = ''||'' then None
             else if token \<in> {''<<'', ''<<='', ''>>'', ''>>='', ''->*'', ''->''} then split_check (lhs @ token) rest
             else Some (lhs, Some token, rest)
      | None \<Rightarrow>
          (case Match operand_pattern expression of
             Some m \<Rightarrow> split_check (lhs @ group0 m 1) (group0 m 2)
           | None \<Rightarrow>
               (case Match one_char_pattern expression of
                  Some m \<Rightarrow> split_check (lhs @ group0 m 1) (group0 m 2)
                | None \<Rightarrow> Some (lhs, None, []))))"
  by pat_completeness auto
termination
  by (relation "measure (\<lambda>(lhs, expression). length expression)") (auto dest: check_rest intro: le_less_trans [OF diff_le_self])

declare split_check.simps [simp del]

definition match_constant :: string where
  "match_constant = ''^([-+]?(`d+|0[xX][0-9a-fA-F]+)[lLuU]{0,3}|\".*\"|`'.*`')$''"

definition check_expression :: "string list \<Rightarrow> nat \<Rightarrow> nat \<Rightarrow> nat \<Rightarrow> nat \<Rightarrow> string" where
  "check_expression lines linenum start_pos end_line end_pos =
     (if linenum = end_line then drop (start_pos + 1) (take (end_pos - 1) (lines ! linenum))
      else drop (start_pos + 1) (lines ! linenum) @ concat (map (\<lambda>i. lines ! i) [linenum + 1 ..< end_line]) @
           take (end_pos - 1) (lines ! end_line))"

definition suggest_check :: "handler \<Rightarrow> string \<Rightarrow> nat \<Rightarrow> string \<Rightarrow> string \<times> string option \<times> string \<Rightarrow> act" where
  "suggest_check error filename linenum check_macro =
     (\<lambda>(lhs, operator, rhs).
       on_some operator (\<lambda>op.
         if lhs \<noteq> [] \<and> rhs \<noteq> [] \<and> \<not> py_find rhs ''&&'' > -1 \<and> \<not> py_find rhs ''||'' > -1 \<and>
            (MatchB match_constant (py_strip lhs) \<or> MatchB match_constant (py_strip rhs)) then
           withR (lookupR CHECK_REPLACEMENT check_macro) (\<lambda>replacements.
           withR (lookupR replacements op) (\<lambda>replacement.
             report error filename (int linenum) ''readability/check'' 2
               (''Consider using '' @ replacement @ '' instead of '' @ check_macro @ ''(a '' @ op @ '' b)'')))
         else skip))"

definition CheckCheck :: "handler \<Rightarrow> string \<Rightarrow> cleansed_lines \<Rightarrow> nat \<Rightarrow> act" where
  "CheckCheck error filename cl linenum =
     withR (indexR (cl_elided cl) linenum) (\<lambda>line.
       on_some (FindCheckMacro line) (\<lambda>(check_macro, start_pos).
         withR (CloseExpression (cl_elided cl) linenum start_pos) (\<lambda>(last_line, end_line, end_pos).
           if end_pos < 0 \<or> \<not> MatchB ''`s*;'' (drop (nat end_pos) last_line) then skip
           else on_some
             (split_check [] (check_expression (cl_elided cl) linenum start_pos (nat end_line) (nat end_pos)))
             (suggest_check error filename linenum check_macro))))"

section \<open>Alternative tokens\<close>

definition ALT_TOKEN_REPLACEMENT :: "(string \<times> string) list" where
  "ALT_TOKEN_REPLACEMENT =
     [(''and'', ''&&''), (''bitor'', ''|''), (''or'', ''||''), (''xor'', ''^''), (''compl'', ''~''), (''bitand'', ''&''),
      (''and_eq'', ''&=''), (''or_eq'', ''|=''), (''xor_eq'', ''^=''), (''not'', ''!''), (''not_eq'', ''!='')]"

text \<open>The pattern lists the keys in the order of the dict. A key that matches is followed by a space, a
  parenthesis or the end of the line, so at most one of them fits and the order is of no effect.\<close>

definition ALT_TOKEN_REPLACEMENT_PATTERN :: string where
  "ALT_TOKEN_REPLACEMENT_PATTERN =
     ''[ =()](and|bitor|or|xor|compl|bitand|and_eq|or_eq|xor_eq|not|not_eq)(?=[ (]|$)''"

definition CheckAltTokens :: "handler \<Rightarrow> string \<Rightarrow> cleansed_lines \<Rightarrow> nat \<Rightarrow> act" where
  "CheckAltTokens error filename cl linenum =
     withR (indexR (cl_elided cl) linenum) (\<lambda>line.
       if MatchB ''^`s*#'' line \<or> py_find line ''/*'' \<ge> 0 \<or> py_find line ''*/'' \<ge> 0 then skip
       else seqA (map (\<lambda>m.
         withR (lookupR (map_of ALT_TOKEN_REPLACEMENT) (group0 m 1)) (\<lambda>op.
           report error filename (int linenum) ''readability/alt_tokens'' 2
             (''Use operator '' @ op @ '' instead of '' @ group0 m 1)))
         (re_finditer (rx ALT_TOKEN_REPLACEMENT_PATTERN) line)))"

section \<open>The style of a line\<close>

text \<open>What the checks read beside the file: the globals \<open>_line_length\<close> and \<open>_root\<close>, and the file system, through the
  names of files (\<open>FileInfo(f).RepositoryName()\<close>, \<open>FileInfo(f).FullName()\<close>), \<open>os.path.exists\<close> and the lines of a file
  that can be opened. \<open>root\<close> is the pattern made from \<open>_root\<close>, \<open>key_order\<close> the order in which Python iterates over the
  keys of a dict, \<open>replacement\<close> the Unicode replacement character in the encoding of the lines, \<open>unicode\<close> what
  the module \<open>unicodedata\<close> says about characters.\<close>

record globals =
  line_length :: int
  root :: "re option"
  repository_name :: "string \<Rightarrow> string"
  full_name :: "string \<Rightarrow> string"
  path_exists :: "string \<Rightarrow> bool"
  file_lines :: "string \<Rightarrow> string list option"
  key_order :: "string list \<Rightarrow> string list"
  replacement :: string
  unicode :: "unicode_db option"

definition weird_indent :: "string \<Rightarrow> string \<Rightarrow> string \<Rightarrow> string \<Rightarrow> bool" where
  "weird_indent raw line prev cleansed_line =
     (let initial_spaces = length (takeWhile (\<lambda>c. c = CHR '' '') line)
      in \<not> SearchB ''[\",=><] *$'' prev \<and> (initial_spaces = 1 \<or> initial_spaces = 3) \<and>
         \<not> MatchB ''`s*`w+`s*:`s*``?$'' cleansed_line \<and> \<not> (raw \<noteq> line \<and> MatchB ''^`s*\"\"'' line))"

definition is_header_guard :: "globals \<Rightarrow> string \<Rightarrow> string \<Rightarrow> string \<Rightarrow> bool" where
  "is_header_guard gl filename file_extension line \<longleftrightarrow>
     file_extension = ''h'' \<and>
     (let cppvar = GetHeaderGuardCPPVariable (repository_name gl) (root gl) filename
      in py_startswith line (''#ifndef '' @ cppvar) \<or> py_startswith line (''#define '' @ cppvar) \<or>
         py_startswith line (''#endif  // '' @ cppvar))"

definition too_long :: "globals \<Rightarrow> string \<Rightarrow> string \<Rightarrow> string \<Rightarrow> bool" where
  "too_long gl filename file_extension line \<longleftrightarrow>
     \<not> py_startswith line ''#include'' \<and> \<not> is_header_guard gl filename file_extension line \<and>
     \<not> MatchB ''^`s*//.*http(s?)://`S*$'' line \<and> \<not> MatchB ''^`s*//`s*[^`s]*$'' line \<and>
     \<not> MatchB ''^// `$Id:.*#[0-9]+ `$$'' line \<and> int (GetLineWidth (unicode gl) line) > line_length gl"

definition many_commands :: "string \<Rightarrow> string \<Rightarrow> bool" where
  "many_commands cleansed_line prevline \<longleftrightarrow>
     py_count cleansed_line '';'' > 1 \<and> py_find cleansed_line ''for'' = -1 \<and>
     (py_find prevline ''for'' = -1 \<or> py_find prevline '';'' \<noteq> -1) \<and>
     \<not> ((py_find cleansed_line ''case '' \<noteq> -1 \<or> py_find cleansed_line ''default:'' \<noteq> -1) \<and>
        py_find cleansed_line ''break;'' \<noteq> -1)"

definition on_class :: "nesting \<Rightarrow> (block \<Rightarrow> class_info \<Rightarrow> act) \<Rightarrow> act" where
  "on_class ns f =
     on_some (InnermostClass ns) (\<lambda>b. case bkind b of ClassInfo c \<Rightarrow> f b c | _ \<Rightarrow> skip)"

definition check_layout :: "globals \<Rightarrow> handler \<Rightarrow> string \<Rightarrow> cleansed_lines \<Rightarrow> nat \<Rightarrow> string \<Rightarrow> act" where
  "check_layout gl error filename cl linenum file_extension =
     withR (indexR (lines_without_raw_strings cl) linenum) (\<lambda>line.
     withR (if linenum > 0 then indexR (lines_without_raw_strings cl) (linenum - 1) else Inr []) (\<lambda>prev.
     withR (indexR (cl_elided cl) linenum) (\<lambda>cleansed_line.
     withR (indexR (raw_lines cl) linenum) (\<lambda>raw.
       seqA
         [onlyif (py_find line [tab_char] \<noteq> -1)
            (report error filename (int linenum) ''whitespace/tab'' 1 ''Tab found; better to use spaces''),
          onlyif (weird_indent raw line prev cleansed_line)
            (report error filename (int linenum) ''whitespace/indent'' 3
               (''Weird number of spaces at line-start.  '' @ ''Are you using a 2-space indent?'')),
          onlyif (line \<noteq> [] \<and> py_isspace (last line))
            (report error filename (int linenum) ''whitespace/end_of_line'' 4
               ''Line ends in whitespace.  Consider deleting these extra spaces.''),
          onlyif (too_long gl filename file_extension line)
            (report error filename (int linenum) ''whitespace/line_length'' 2
               (''Lines should be <= '' @ py_str_int (line_length gl) @ '' characters long'')),
          onlyif (many_commands cleansed_line (fst (GetPreviousNonBlankLine (cl_elided cl) linenum)))
            (report error filename (int linenum) ''whitespace/newline'' 0
               ''More than one command on the same line'')]))))"

definition CheckStyle :: "globals \<Rightarrow> handler \<Rightarrow> string \<Rightarrow> cleansed_lines \<Rightarrow> nat \<Rightarrow> string \<Rightarrow> nesting \<Rightarrow> act" where
  "CheckStyle gl error filename cl linenum file_extension ns =
     seqA
       [check_layout gl error filename cl linenum file_extension,
        CheckBraces (line_length gl) (unicode gl) error filename cl linenum,
        CheckTrailingSemicolon error filename cl linenum,
        CheckEmptyBlockBody error filename cl linenum,
        CheckAccess error filename cl linenum ns,
        CheckSpacing error filename cl linenum ns,
        CheckOperatorSpacing error filename cl linenum,
        CheckParenthesisSpacing error filename cl linenum,
        CheckCommaSpacing error filename cl linenum,
        CheckBracesSpacing error filename cl linenum ns,
        CheckSpacingForFunctionCall error filename cl linenum,
        CheckCheck error filename cl linenum,
        CheckAltTokens error filename cl linenum,
        on_class ns (\<lambda>b c. CheckSectionSpacing error filename cl b c linenum)]"

section \<open>The macro of an assertion\<close>

lemma style_patterns:
  "list_all compiles
     (map macro_pattern CHECK_MACROS @
      [check_token_pattern, operand_pattern, one_char_pattern, ''`s*;'', match_constant, ''^`s*#'',
       ALT_TOKEN_REPLACEMENT_PATTERN, ''[\",=><] *$'', ''`s*`w+`s*:`s*``?$'', ''^`s*\"\"'',
       ''^`s*//.*http(s?)://`S*$'', ''^`s*//`s*[^`s]*$'', ''^// `$Id:.*#[0-9]+ `$$''])"
  by code_simp

lemma macro_groups: "list_all (\<lambda>macro. leading_group 1 (macro_pattern macro)) CHECK_MACROS"
  by code_simp

lemma find_macro_Some:
  "find_macro macros line = Some (macro, pos) \<Longrightarrow>
   macro \<in> set macros \<and> (\<exists>m. Match (macro_pattern macro) line = Some m \<and> pos = length (group0 m 1))"
  by (induction macros) (auto split: if_splits option.splits)

lemma FindCheckMacro_Some:
  assumes "FindCheckMacro line = Some (macro, pos)"
  shows "macro \<in> set CHECK_MACROS \<and> pos < length line"
  using find_macro_Some [OF assms [unfolded FindCheckMacro_def]] macro_groups Match_leading
  by (auto simp: list_all_iff)



section \<open>The tokens that are looked up\<close>

lemma alt_words: "group_words 1 (rx ALT_TOKEN_REPLACEMENT_PATTERN) = Some (map letters (map fst ALT_TOKEN_REPLACEMENT))"
  unfolding ALT_TOKEN_REPLACEMENT_PATTERN_def ALT_TOKEN_REPLACEMENT_def letters_def
  by (simp add: rx_eval rch_def)

lemma check_words:
  "group_words 1 (rx check_token_pattern) =
     Some (map letters ([''<<'', ''<<='', ''>>'', ''>>='', ''->*'', ''->'', ''&&'', ''||''] @ map fst RELATIONS @ [''('']))"
  unfolding check_token_pattern_def letters_def RELATIONS_def
  by (simp add: rx_eval rclass_defs is_digit_def in_range_def)

lemma check_token: "Match check_token_pattern s = Some m \<Longrightarrow>
  group0 m 1 \<in> {''<<'', ''<<='', ''>>'', ''>>='', ''->*'', ''->'', ''&&'', ''||'', ''(''} \<union> set (map fst RELATIONS)"
  using Match_group_words [OF _ check_words] by auto

lemma split_check_relation: "split_check lhs expression = Some (l, Some op, r) \<Longrightarrow> op \<in> set (map fst RELATIONS)"
proof (induction lhs expression rule: split_check.induct)
  case (1 lhs expression)
  show ?case
  proof (cases "Match check_token_pattern expression")
    case None
    then show ?thesis using 1 by (auto simp: split_check.simps [of lhs] split: if_splits option.splits)
  next
    case (Some m)
    then show ?thesis using 1 check_token [OF Some]
      by (auto simp: split_check.simps [of lhs] Let_def simp del: set_map split: if_splits scan.splits)
  qed
qed

lemma replacement_returns:
  assumes "macro \<in> set CHECK_MACROS" "op \<in> set (map fst RELATIONS)"
  shows "\<exists>rs r. lookupR CHECK_REPLACEMENT macro = Inr rs \<and> lookupR rs op = Inr r"
proof -
  have "list_all (\<lambda>m. list_all (\<lambda>op. case CHECK_REPLACEMENT m of None \<Rightarrow> False | Some rs \<Rightarrow> rs op \<noteq> None)
      (map fst RELATIONS)) CHECK_MACROS" by code_simp
  then have "case CHECK_REPLACEMENT macro of None \<Rightarrow> False | Some rs \<Rightarrow> rs op \<noteq> None"
    using assms unfolding list_all_iff by blast
  then show ?thesis by (auto simp: lookupR_def split: option.splits)
qed

section \<open>The checks keep the invariant of the error handler\<close>

context error_sink
begin

lemma keeps_Check:
  assumes "l < length (cl_elided cl)"
  shows "keeps inv (CheckCheck error filename cl l)"
proof -
  have s: "keeps inv (suggest_check error filename l macro (lhs, op, rhs))"
    if "macro \<in> set CHECK_MACROS" "\<And>r. op = Some r \<Longrightarrow> r \<in> set (map fst RELATIONS)" for macro lhs op rhs
  proof -
    have look: "keeps inv (withR (lookupR CHECK_REPLACEMENT macro) (\<lambda>rs. withR (lookupR rs r) f))"
      if "op = Some r" "\<And>x. keeps inv (f x)" for r f
      using replacement_returns [OF \<open>macro \<in> set CHECK_MACROS\<close>, of r] \<open>\<And>r. op = Some r \<Longrightarrow> _ r\<close> that
      by (auto simp del: set_map intro!: keeps_withR)
    show ?thesis unfolding suggest_check_def prod.case by (intro keeps_intros look) simp_all
  qed
  show ?thesis unfolding CheckCheck_def
    by (intro keeps_intros keeps_CloseExpression assms)
      (auto simp del: set_map dest: FindCheckMacro_Some split_check_relation intro!: s)
qed

lemma keeps_AltTokens:
  assumes "l < length (cl_elided cl)"
  shows "keeps inv (CheckAltTokens error filename cl l)"
proof -
  have look: "keeps inv (withR (lookupR (map_of ALT_TOKEN_REPLACEMENT) (group0 m 1)) f)"
    if "m \<in> set (re_finditer (rx ALT_TOKEN_REPLACEMENT_PATTERN) line)" "\<And>x. keeps inv (f x)" for m line f
    using finditer_group_words [OF that(1) alt_words] that(2)
    by (intro keeps_withR) (auto simp: lookupR_def dest: weak_map_of_SomeI split: option.splits)
  have each: "keeps inv (seqA (map F (re_finditer (rx ALT_TOKEN_REPLACEMENT_PATTERN) line)))"
    if "\<And>m. m \<in> set (re_finditer (rx ALT_TOKEN_REPLACEMENT_PATTERN) line) \<Longrightarrow> keeps inv (F m)" for F line
    using that by (intro keeps_seq) auto
  show ?thesis unfolding CheckAltTokens_def using assms by (intro keeps_intros each look) simp_all
qed

lemma keeps_layout:
  assumes "cl_ok cl" "l < num_lines cl"
  shows "keeps inv (check_layout gl error filename cl l file_extension)"
proof -
  have "(if l > 0 then indexR (lines_without_raw_strings cl) (l - 1) else Inr []) =
      Inr (if l > 0 then lines_without_raw_strings cl ! (l - 1) else [])"
    using assms by (auto simp: indexR_def cl_ok_def)
  then show ?thesis unfolding check_layout_def
    by (simp only:, intro keeps_intros) (use assms in \<open>simp_all add: cl_ok_def\<close>)
qed

lemma keeps_on_class: "(\<And>b c. keeps inv (f b c)) \<Longrightarrow> keeps inv (on_class ns f)"
  unfolding on_class_def by (auto intro!: keeps_intros split: block_kind.split)

lemmas keeps_style = keeps_Braces keeps_TrailingSemicolon keeps_EmptyBlockBody keeps_Access keeps_Spacing
  keeps_OperatorSpacing keeps_ParenthesisSpacing keeps_CommaSpacing keeps_BracesSpacing keeps_FunctionCall
  keeps_Check keeps_AltTokens keeps_SectionSpacing keeps_layout keeps_on_class

lemma keeps_Style:
  assumes "cl_ok cl" "l < num_lines cl" "nest_ok (num_lines cl) ns"
  shows "keeps inv (CheckStyle gl error filename cl l file_extension ns)"
  unfolding CheckStyle_def
  by (intro keeps_seq_Cons keeps_seq_Nil keeps_style) (use assms in \<open>simp_all add: cl_ok_def\<close>)

end

end
