(* ===== verification/Lint_Cast.thy ===== *)
theory Lint_Cast
  imports Lint_Style
begin

text \<open>
  The checks of \<open>cpplint.py\<close> for casts and for references that are not constant. \<open>CheckCasts\<close> reads the character
  behind a closed template argument list without testing that there is one; that read is a branch
  of the model, and whether it fails is decided by \<open>cast_overrun\<close>.
\<close>

section \<open>Casts\<close>

definition ExpectingFunctionArgs :: "string list \<Rightarrow> nat \<Rightarrow> bool res" where
  "ExpectingFunctionArgs elided linenum =
     bindR (indexR elided linenum) (\<lambda>line.
       Inr (MatchB ''^`s*MOCK_(CONST_)?METHOD`d+(_T)?`('' line \<or>
            (linenum \<ge> 2 \<and>
             (MatchB ''^`s*MOCK_(?:CONST_)?METHOD`d+(?:_T)?`((?:`S+,)?`s*$'' (elided ! (linenum - 1)) \<or>
              MatchB ''^`s*MOCK_(?:CONST_)?METHOD`d+(?:_T)?`(`s*$'' (elided ! (linenum - 2)) \<or>
              SearchB ''`bstd::m?function`s*`<`s*$'' (elided ! (linenum - 1))))))"

text \<open>The result of \<open>CheckCStyleCast\<close>, whether an error was emitted, goes to the continuation \<open>k\<close>. Each pattern
  starts with a parenthesis before its first group.\<close>

definition group_start :: "re_match \<Rightarrow> nat \<Rightarrow> nat" where
  "group_start m n = (case m_groups m n of None \<Rightarrow> 0 | Some (a, b) \<Rightarrow> a)"

definition is_cstyle_cast :: "string list \<Rightarrow> nat \<Rightarrow> string \<Rightarrow> re_match \<Rightarrow> bool" where
  "is_cstyle_cast elided linenum line m =
     (let context1 = take (group_start m 1 - 1) line;
          context2 = concat (map (\<lambda>i. elided ! i) [linenum - 5 + 1 ..< linenum]) @ context1
      in \<not> MatchB ''.*`b(?:sizeof|alignof|alignas|[_A-Z][_A-Z0-9]*)`s*$'' context1 \<and>
         \<not> MatchB ''.*`b[_A-Z][_A-Z0-9]*`s*`((?:`([^()]*`)|[^()])*$'' context2 \<and>
         \<not> py_endswith context2 '' operator++'' \<and> \<not> py_endswith context2 '' operator--'' \<and>
         \<not> MatchB ''^`s*(?:;|const`b|throw`b|final`b|override`b|[=>{),]|->)'' (drop (m_end m) line))"

definition cstyle_cast :: "string list \<Rightarrow> nat \<Rightarrow> string \<Rightarrow> re_match option res" where
  "cstyle_cast elided linenum pattern =
     bindR (indexR elided linenum) (\<lambda>line.
       Inr (case Search pattern line of
              None \<Rightarrow> None
            | Some m \<Rightarrow> if is_cstyle_cast elided linenum line m then Some m else None))"

definition CheckCStyleCast ::
  "handler \<Rightarrow> string \<Rightarrow> cleansed_lines \<Rightarrow> nat \<Rightarrow> string \<Rightarrow> string \<Rightarrow> (bool \<Rightarrow> act) \<Rightarrow> act" where
  "CheckCStyleCast error filename cl linenum cast_type pattern k =
     withR (cstyle_cast (cl_elided cl) linenum pattern) (\<lambda>cast.
       case cast of
         None \<Rightarrow> k False
       | Some m \<Rightarrow>
           seqA
             [report error filename (int linenum) ''readability/casting'' 4
                (''Using C-style cast.  Use '' @ cast_type @ ''<'' @ group0 m 1 @ ''>(...) instead''),
              k True])"

definition conversion_pattern :: string where
  "conversion_pattern =
     ''(`bnew`s+(?:const`s+)?|`S<`s*(?:const`s+)?)?`b(int|float|double|bool|char|int32|uint32|int64|uint64)(`([^)].*)''"

definition CAST_TYPES :: "string list" where
  "CAST_TYPES = [''int'', ''float'', ''double'', ''bool'', ''char'', ''int32'', ''uint32'', ''int64'', ''uint64'']"

definition using_pattern :: "string \<Rightarrow> string" where
  "using_pattern matched_type = ''`s*using`s+`S+`s*=`s*'' @ matched_type"

definition placement_pattern :: "string \<Rightarrow> string" where
  "placement_pattern matched_type = ''new`(`S+`)`s*'' @ matched_type"

definition deprecated_cast :: "string \<Rightarrow> re_match \<Rightarrow> bool" where
  "deprecated_cast line m \<longleftrightarrow>
     group m 1 = None \<and>
     \<not> (group0 m 3 \<noteq> [] \<and>
        (MatchB ''`((?:[^() ]+::`s*`*`s*)?[^() ]+`)`s*`('' (group0 m 3) \<or> py_startswith (group0 m 3) ''(*)'')) \<and>
     \<not> MatchB (using_pattern (group0 m 2)) line \<and> \<not> SearchB (placement_pattern (group0 m 2)) line"

definition address_pattern :: string where
  "address_pattern =
     ''(?:[^`w]&`(([^)*][^)]*)`)[`w(])|(?:[^`w]&(static|dynamic|down|reinterpret)_cast`b)''"

definition address_cast_pattern :: string where
  "address_cast_pattern = ''^(.*&(?:static|dynamic|down|reinterpret)_cast`b)<''"

text \<open>Whether the address is taken of something dereferenced from the cast.\<close>

definition parenthesis_error :: "string list \<Rightarrow> nat \<Rightarrow> string \<Rightarrow> bool res" where
  "parenthesis_error elided linenum line =
     (case Match address_cast_pattern line of
        None \<Rightarrow> Inr False
      | Some m \<Rightarrow>
          bindR (CloseExpression elided linenum (length (group0 m 1))) (\<lambda>(_, y1, x1).
            if x1 \<ge> 0 then
              bindR (indexR elided (nat y1)) (\<lambda>line1.
              bindR (indexR line1 (nat x1)) (\<lambda>c.
                if c = CHR ''('' then
                  bindR (CloseExpression elided (nat y1) (nat x1)) (\<lambda>(line2, y2, x2).
                    Inr (x2 \<ge> 0 \<and>
                      MatchB ''`s*(?:->|`[)''
                        (drop (nat x2) line2 @ (if nat y2 < length elided - 1 then elided ! (nat y2 + 1) else []))))
                else Inr False))
            else Inr False))"

definition check_address :: "handler \<Rightarrow> string \<Rightarrow> cleansed_lines \<Rightarrow> nat \<Rightarrow> act" where
  "check_address error filename cl linenum =
     withR (indexR (cl_elided cl) linenum) (\<lambda>line.
       if SearchB address_pattern line then
         withR (parenthesis_error (cl_elided cl) linenum line) (\<lambda>b.
           if b then
             report error filename (int linenum) ''readability/casting'' 4
               (''Are you taking an address of something dereferenced '' @
                ''from a cast?  Wrapping the dereferenced expression in '' @
                ''parentheses will make the binding more obvious'')
           else
             report error filename (int linenum) ''runtime/casting'' 4
               (''Are you taking an address of a cast?  '' @ ''This is dangerous: could be a temp var.  '' @
                ''Take the address before doing the cast, rather than after''))
       else skip)"

definition STATIC_CAST :: string where
  "STATIC_CAST = ''`((int|float|double|bool|char|u?int(16|32|64))`)''"

definition CONST_CAST :: string where
  "CONST_CAST = ''`((char`s?`*+`s?)`)`s*\"''"

definition REINTERPRET_CAST :: string where
  "REINTERPRET_CAST = ''`((`w+`s?`*+`s?)`)''"

text \<open>An array behind the conversion ends the whole function.\<close>

definition CheckCasts :: "handler \<Rightarrow> string \<Rightarrow> cleansed_lines \<Rightarrow> nat \<Rightarrow> act" where
  "CheckCasts error filename cl linenum =
     withR (indexR (cl_elided cl) linenum) (\<lambda>line.
     withR (ExpectingFunctionArgs (cl_elided cl) linenum) (\<lambda>expecting_function.
       let conversion = (if expecting_function then None else Search conversion_pattern line)
       in if (case conversion of None \<Rightarrow> False | Some m \<Rightarrow> MatchB ''`([^()]+`)`s*`['' (group0 m 3)) then skip
          else
            seqA
              [on_some conversion (\<lambda>m.
                 onlyif (deprecated_cast line m)
                   (report error filename (int linenum) ''readability/casting'' 4
                      (''Using deprecated casting style.  '' @ ''Use static_cast<'' @ group0 m 2 @ ''>(...) instead''))),
               onlyif (\<not> expecting_function)
                 (CheckCStyleCast error filename cl linenum ''static_cast'' STATIC_CAST (\<lambda>_. skip)),
               CheckCStyleCast error filename cl linenum ''const_cast'' CONST_CAST (\<lambda>found.
                 onlyif (\<not> found)
                   (CheckCStyleCast error filename cl linenum ''reinterpret_cast'' REINTERPRET_CAST (\<lambda>_. skip))),
               check_address error filename cl linenum]))"

section \<open>References\<close>

definition function_start :: string where
  "function_start = ''^([^()]*`w+)`(''"

definition last_ten :: "nat \<Rightarrow> nat list" where
  "last_ten linenum = rev [Suc linenum - 10 ..< Suc linenum]"

definition IsDerivedFunction :: "string list \<Rightarrow> nat \<Rightarrow> bool res" where
  "IsDerivedFunction elided linenum =
     (if length elided \<le> linenum then Inl IndexError
      else case List.find (\<lambda>i. MatchB function_start (elided ! i)) (last_ten linenum) of
        None \<Rightarrow> Inr False
      | Some i \<Rightarrow>
          (case Match function_start (elided ! i) of
             None \<Rightarrow> Inr False
           | Some m \<Rightarrow>
               bindR (CloseExpression elided i (length (group0 m 1))) (\<lambda>(line, _, closing_paren).
                 Inr (closing_paren \<ge> 0 \<and> SearchB ''`boverride`b'' (drop (nat closing_paren) line)))))"

definition IsOutOfLineMethodDefinition :: "string list \<Rightarrow> nat \<Rightarrow> bool" where
  "IsOutOfLineMethodDefinition elided linenum =
     (case List.find (\<lambda>i. MatchB function_start (elided ! i)) (last_ten linenum) of
        None \<Rightarrow> False
      | Some i \<Rightarrow> MatchB ''^[^()]*`w+::`w+`('' (elided ! i))"

fun initializer_scan :: "string list \<Rightarrow> bool" where
  "initializer_scan [] = False"
| "initializer_scan (line # rest) =
     (if SearchB ''`s:`s*`w+[({]'' line \<or> SearchB ''`}`s*,`s*$'' line then True
      else if SearchB ''[{};]`s*$'' line then False
      else initializer_scan rest)"

definition IsInitializerList :: "string list \<Rightarrow> nat \<Rightarrow> bool" where
  "IsInitializerList elided linenum =
     initializer_scan (map
       (\<lambda>i. let line = elided ! i
            in if i = linenum then (case Match ''^(.*)`{`s*$'' line of None \<Rightarrow> line | Some m \<Rightarrow> group0 m 1) else line)
       (rev [2 ..< Suc linenum]))"

text \<open>A type that is split over two lines or a template argument list over several is joined first.\<close>

definition joined_type :: "string list \<Rightarrow> nat \<Rightarrow> string \<Rightarrow> string res" where
  "joined_type elided linenum line =
     (if linenum > 1 then
        let above_line = elided ! (linenum - 1);
            previous =
              (if MatchB ''`s*::(?:[`w<>]|::)+`s*&`s*`S'' line then
                 Search ''`b((?:const`s*)?(?:[`w<>]|::)+[`w<>])`s*$'' above_line
               else if MatchB ''`s*[a-zA-Z_]([`w<>]|::)+`s*&`s*`S'' line then
                 Search ''`b((?:const`s*)?(?:[`w<>]|::)+::)`s*$'' above_line
               else None)
        in case previous of
             Some m \<Rightarrow> Inr (group0 m 1 @ py_lstrip line)
           | None \<Rightarrow>
               let endpos = py_rfind line ''>''
               in if endpos > -1 then
                    bindR (ReverseCloseExpression elided linenum (nat endpos)) (\<lambda>(_, startline, startpos).
                      Inr (if startpos > -1 \<and> startline < int linenum
                           then concat (map (\<lambda>i. py_strip (elided ! i)) [nat startline ..< linenum + 1])
                           else line))
                  else Inr line
      else Inr line)"

fun initializers_above :: "string list \<Rightarrow> bool" where
  "initializers_above [] = False"
| "initializers_above (l # ls) =
     (if \<not> SearchB ''[),]`s*$'' l then False
      else if MatchB ''^`s*:`s+`S'' l then True
      else initializers_above ls)"

definition whitelisted_functions :: string where
  "whitelisted_functions = ''(?:[sS]wap(?:<`w:+>)?|operator`s*[<>][<>]|static_assert|COMPILE_ASSERT)`s*`(''"

definition whitelisted :: "string list \<Rightarrow> nat \<Rightarrow> string \<Rightarrow> bool" where
  "whitelisted elided linenum line \<longleftrightarrow>
     SearchB whitelisted_functions line \<or>
     (\<not> SearchB ''`S+`([^)]*$'' line \<and>
      list_ex (\<lambda>i. linenum > i \<and> SearchB whitelisted_functions (elided ! (linenum - i - 1))) [0, 1])"

definition RE_PATTERN_IDENT :: string where
  "RE_PATTERN_IDENT = ''[_a-zA-Z]`w*''"

definition RE_PATTERN_TYPE :: string where
  "RE_PATTERN_TYPE =
     ''(?:const`s+)?(?:typename`s+|class`s+|struct`s+|union`s+|enum`s+)?'' @
     ''(?:`w|`s*<(?:<(?:<[^<>]*>|[^<>])*>|[^<>])*>|::)+''"

definition RE_PATTERN_REF_PARAM :: string where
  "RE_PATTERN_REF_PARAM =
     ''('' @ RE_PATTERN_TYPE @ ''(?:`s*(?:`bconst`b|[*]))*`s*&`s*'' @ RE_PATTERN_IDENT @ '')`s*(?:=[^,()]+)?[,)]''"

definition RE_PATTERN_CONST_REF_PARAM :: string where
  "RE_PATTERN_CONST_REF_PARAM =
     ''(?:.*`s*`bconst`s*&`s*'' @ RE_PATTERN_IDENT @ ''|const`s+'' @ RE_PATTERN_TYPE @ ''`s*&`s*'' @
     RE_PATTERN_IDENT @ '')''"

definition RE_PATTERN_REF_STREAM_PARAM :: string where
  "RE_PATTERN_REF_STREAM_PARAM = ''(?:.*stream`s*&`s*'' @ RE_PATTERN_IDENT @ '')''"

definition at_declaration_level :: "nesting \<Rightarrow> bool" where
  "at_declaration_level ns =
     (case previous_stack_top ns of None \<Rightarrow> True | Some b \<Rightarrow> is_class b \<or> is_namespace b)"

definition CheckForNonConstReference :: "handler \<Rightarrow> string \<Rightarrow> cleansed_lines \<Rightarrow> nat \<Rightarrow> nesting \<Rightarrow> act" where
  "CheckForNonConstReference error filename cl linenum ns =
     (let elided = cl_elided cl
      in withR (indexR elided linenum) (\<lambda>line.
        if CHR ''&'' \<notin> set line then skip
        else withR (IsDerivedFunction elided linenum) (\<lambda>derived.
          if derived \<or> IsOutOfLineMethodDefinition elided linenum then skip
          else withR (joined_type elided linenum line) (\<lambda>line.
            if \<not> at_declaration_level ns \<or>
               initializers_above (map (\<lambda>i. elided ! i) (rev [linenum - 10 + 1 ..< linenum])) \<or>
               SearchB ''```s*$'' line \<or> IsInitializerList elided linenum \<or> whitelisted elided linenum line
            then skip
            else
              seqA (map (\<lambda>m.
                let parameter = group0 m 1
                in onlyif (\<not> MatchB RE_PATTERN_CONST_REF_PARAM parameter \<and> \<not> MatchB RE_PATTERN_REF_STREAM_PARAM parameter)
                     (report error filename (int linenum) ''runtime/references'' 2
                        (''Is this a non-const reference? '' @ ''If so, make const or use a pointer: '' @
                         ReplaceAll '' *<'' ''<'' parameter)))
                (re_finditer (rx RE_PATTERN_REF_PARAM) (ReplaceAll ''{[^}]*}'' '' '' line)))))))"

section \<open>The checks keep the invariant of the error handler\<close>

lemma cast_patterns:
  "list_all compiles
     ([''^`s*MOCK_(CONST_)?METHOD`d+(_T)?`('', ''^`s*MOCK_(?:CONST_)?METHOD`d+(?:_T)?`((?:`S+,)?`s*$'',
       ''^`s*MOCK_(?:CONST_)?METHOD`d+(?:_T)?`(`s*$'', ''`bstd::m?function`s*`<`s*$'',
       ''.*`b(?:sizeof|alignof|alignas|[_A-Z][_A-Z0-9]*)`s*$'', ''.*`b[_A-Z][_A-Z0-9]*`s*`((?:`([^()]*`)|[^()])*$'',
       ''^`s*(?:;|const`b|throw`b|final`b|override`b|[=>{),]|->)'', conversion_pattern,
       ''`((?:[^() ]+::`s*`*`s*)?[^() ]+`)`s*`('', address_pattern, address_cast_pattern, ''`s*(?:->|`[)'',
       STATIC_CAST, CONST_CAST, REINTERPRET_CAST, ''`([^()]+`)`s*`['', function_start, ''`boverride`b'',
       ''^[^()]*`w+::`w+`('', ''`s:`s*`w+[({]'', ''`}`s*,`s*$'', ''[{};]`s*$'', ''^(.*)`{`s*$'',
       ''`s*::(?:[`w<>]|::)+`s*&`s*`S'', ''`b((?:const`s*)?(?:[`w<>]|::)+[`w<>])`s*$'',
       ''`s*[a-zA-Z_]([`w<>]|::)+`s*&`s*`S'', ''`b((?:const`s*)?(?:[`w<>]|::)+::)`s*$'', ''[),]`s*$'', ''^`s*:`s+`S'',
       whitelisted_functions, ''`S+`([^)]*$'', RE_PATTERN_REF_PARAM, RE_PATTERN_CONST_REF_PARAM,
       RE_PATTERN_REF_STREAM_PARAM, ''```s*$'', '' *<'', ''{[^}]*}''] @
      map using_pattern CAST_TYPES @ map placement_pattern CAST_TYPES)"
  by code_simp

lemma cast_groups: "list_all (leading_group 1) [address_cast_pattern, function_start]"
  by code_simp

text \<open>The template arguments of a cast whose address is taken are closed at the end of a line.\<close>

definition cast_overrun :: "string list \<Rightarrow> nat \<Rightarrow> bool" where
  "cast_overrun elided linenum \<longleftrightarrow>
     (case Match address_cast_pattern (elided ! linenum) of
        None \<Rightarrow> False
      | Some m \<Rightarrow>
          (case CloseExpression elided linenum (length (group0 m 1)) of
             Inl e \<Rightarrow> False
           | Inr (l, y, x) \<Rightarrow> x = int (length l)))"

lemma parenthesis_error_result:
  assumes "linenum < length elided"
  shows "if cast_overrun elided linenum then parenthesis_error elided linenum (elided ! linenum) = Inl IndexError
         else \<exists>b. parenthesis_error elided linenum (elided ! linenum) = Inr b"
proof (cases "Match address_cast_pattern (elided ! linenum)")
  case None
  then show ?thesis by (auto simp: cast_overrun_def parenthesis_error_def)
next
  case (Some m)
  have "length (group0 m 1) < length (elided ! linenum)" using Match_leading [OF Some] cast_groups by simp
  then obtain l y x where c: "CloseExpression elided linenum (length (group0 m 1)) = Inr (l, y, x)"
    using CloseExpression_returns [OF assms] by blast
  show ?thesis
  proof (cases "x = -1")
    case True
    then show ?thesis using Some c by (auto simp: cast_overrun_def parenthesis_error_def)
  next
    case False
    then obtain n q where f: "y = int n" "x = int q" "n < length elided" "l = elided ! n" "q \<le> length l"
      using CloseExpression_pos [OF c] by (auto simp: found_at_def)
    show ?thesis
    proof (cases "q = length l")
      case True
      then show ?thesis using Some c f by (simp add: cast_overrun_def parenthesis_error_def indexR_def)
    next
      case no: False
      then have "q < length (elided ! n)" using f by simp
      then show ?thesis using Some c f no CloseExpression_returns [OF f(3), of q]
        by (auto simp: cast_overrun_def parenthesis_error_def indexR_def)
    qed
  qed
qed

lemma ExpectingFunctionArgs_returns: "l < length elided \<Longrightarrow> \<exists>b. ExpectingFunctionArgs elided l = Inr b"
  by (simp add: ExpectingFunctionArgs_def indexR_def)

lemma cstyle_cast_returns: "l < length elided \<Longrightarrow> \<exists>m. cstyle_cast elided l p = Inr m"
  by (simp add: cstyle_cast_def indexR_def)

lemma find_mem: "List.find P xs = Some x \<Longrightarrow> x \<in> set xs \<and> P x"
  by (auto simp: find_Some_iff)

lemma IsDerivedFunction_returns:
  assumes "l < length elided"
  shows "\<exists>b. IsDerivedFunction elided l = Inr b"
proof (cases "List.find (\<lambda>i. MatchB function_start (elided ! i)) (last_ten l)")
  case None
  then show ?thesis using assms by (auto simp: IsDerivedFunction_def)
next
  case (Some i)
  then obtain m where m: "Match function_start (elided ! i) = Some m" and i: "i \<in> set (last_ten l)"
    using find_mem [OF Some] by auto
  have "i < length elided" using i assms by (auto simp: last_ten_def)
  moreover have "length (group0 m 1) < length (elided ! i)" using Match_leading [OF m] cast_groups by simp
  ultimately show ?thesis using Some m assms CloseExpression_returns [of i elided "length (group0 m 1)"]
    by (auto simp: IsDerivedFunction_def)
qed

lemma joined_type_returns:
  assumes "l < length elided"
  shows "\<exists>s. joined_type elided l (elided ! l) = Inr s"
proof -
  have "\<exists>r. ReverseCloseExpression elided l (nat (py_rfind (elided ! l) ''>'')) = Inr r"
    if "py_rfind (elided ! l) ''>'' > -1"
  proof -
    have "elided ! l \<noteq> []" using that by (auto simp: py_rfind_def)
    then have "nat (py_rfind (elided ! l) ''>'') < length (elided ! l)" by (simp add: py_rfind_less)
    then show ?thesis using ReverseCloseExpression_returns [OF assms] by blast
  qed
  then show ?thesis by (auto simp: joined_type_def Let_def split: option.splits)
qed

context error_sink
begin

lemma keeps_CStyleCast:
  "l < length (cl_elided cl) \<Longrightarrow> (\<And>b. keeps inv (k b)) \<Longrightarrow>
   keeps inv (CheckCStyleCast error filename cl l cast_type pattern k)"
  unfolding CheckCStyleCast_def by (intro keeps_returns keeps_intros cstyle_cast_returns) simp_all

lemma keeps_address:
  assumes "l < length (cl_elided cl)" "\<not> cast_overrun (cl_elided cl) l"
  shows "keeps inv (check_address error filename cl l)"
  using parenthesis_error_result [OF assms(1)] assms unfolding check_address_def
  by (intro keeps_intros keeps_returns) simp_all

lemma keeps_Casts:
  assumes "l < length (cl_elided cl)" "\<not> cast_overrun (cl_elided cl) l"
  shows "keeps inv (CheckCasts error filename cl l)"
  unfolding CheckCasts_def Let_def
  by (intro keeps_index keeps_returns keeps_intros keeps_CStyleCast keeps_address assms ExpectingFunctionArgs_returns) simp_all

lemma keeps_NonConstReference:
  assumes "l < length (cl_elided cl)"
  shows "keeps inv (CheckForNonConstReference error filename cl l ns)"
  unfolding CheckForNonConstReference_def Let_def
  by (intro keeps_index keeps_returns keeps_map keeps_intros assms IsDerivedFunction_returns joined_type_returns) simp_all

end

end
