(* ===== verification/Lint_Language.thy ===== *)
theory Lint_Language
  imports Lint_Cast
begin

text \<open>
  The checks of \<open>cpplint.py\<close> against the language rules of the style guide: \<open>CheckLanguage\<close> with the checks it
  calls for strings and format strings, non-standard constructs and constructors, \<open>virtual\<close>, \<open>override\<close> and
  \<open>final\<close>, and the features of C++11 and C++14. Collapsing the arguments of a constructor runs past their end when a
  bracket stays open; \<open>ctor_overrun\<close> says when.
\<close>

section \<open>Text inside parentheses\<close>

fun matching_punctuation :: "char \<Rightarrow> char" where
  "matching_punctuation c = (if c = CHR ''('' then CHR '')'' else if c = CHR ''{'' then CHR ''}'' else CHR '']'')"

text \<open>The number of characters up to the one that empties the stack of expected punctuation.\<close>

fun close_text :: "char list \<Rightarrow> nat \<Rightarrow> string \<Rightarrow> nat option" where
  "close_text [] n s = Some n"
| "close_text (c # cs) n [] = None"
| "close_text (c # cs) n (d # ds) =
     (if d = c then close_text cs (n + 1) ds
      else if d \<in> set '')}]'' then None
      else if d \<in> set ''({['' then close_text (matching_punctuation d # c # cs) (n + 1) ds
      else close_text (c # cs) (n + 1) ds)"

definition GetTextInside :: "re \<Rightarrow> string \<Rightarrow> string option res" where
  "GetTextInside start_pattern s =
     (case re_Search start_pattern s of
        None \<Rightarrow> Inr None
      | Some m \<Rightarrow>
          let start_position = m_end m
          in if \<not> start_position > 0 then Inl AssertionError
             else bindR (indexR s (start_position - 1)) (\<lambda>c.
               if c \<notin> set ''({['' then Inl AssertionError
               else Inr (map_option (\<lambda>n. take (n - 1) (drop start_position s))
                           (close_text [matching_punctuation c] 0 (drop start_position s)))))"

section \<open>Strings and format strings\<close>

definition global_string_pattern :: string where
  "global_string_pattern =
     ''((?:|static +)(?:|const +))(?::*std::)?string( +const)? +([a-zA-Z0-9_:]+)`b(.*)''"

definition CheckGlobalStatic :: "handler \<Rightarrow> string \<Rightarrow> cleansed_lines \<Rightarrow> nat \<Rightarrow> act" where
  "CheckGlobalStatic error filename cl linenum =
     withR (indexR (cl_elided cl) linenum) (\<lambda>first_line.
       let line = (if linenum + 1 < num_lines cl \<and> \<not> SearchB ''[;({]'' first_line
                   then first_line @ py_strip (cl_elided cl ! (linenum + 1)) else first_line)
       in seqA
         [on_some (Match global_string_pattern line) (\<lambda>m.
            onlyif
              (\<not> SearchB ''`bstring`b(`s+const)?`s*[`*`&]`s*(const`s+)?`w'' line \<and> \<not> SearchB ''`boperator`W'' line \<and>
               \<not> MatchB ''`s*(<.*>)?(::[a-zA-Z0-9_]+)*`s*`(([^\"]|$)'' (group0 m 4))
              (if SearchB ''`bconst`b'' line then
                 report error filename (int linenum) ''runtime/string'' 4
                   (''For a static/global string constant, use a C style string '' @ ''instead: '' @ [dquote] @
                    group0 m 1 @ ''char'' @ group0 m 2 @ '' '' @ group0 m 3 @ ''[]'' @ [dquote] @ ''.'')
               else
                 report error filename (int linenum) ''runtime/string'' 4
                   ''Static/global string variables are not permitted.'')),
          onlyif (SearchB ''`b([A-Za-z0-9_]*_)`(`1`)'' line \<or> SearchB ''`b([A-Za-z0-9_]*_)`(CHECK_NOTNULL`(`1`)`)'' line)
            (report error filename (int linenum) ''runtime/init'' 4
               ''You seem to be initializing a member variable with itself.'')])"

definition CheckPrintf :: "handler \<Rightarrow> string \<Rightarrow> cleansed_lines \<Rightarrow> nat \<Rightarrow> act" where
  "CheckPrintf error filename cl linenum =
     withR (indexR (cl_elided cl) linenum) (\<lambda>line.
       seqA
         [on_some (Search ''snprintf`s*`(([^,]*),`s*([0-9]*)`s*,'' line) (\<lambda>m.
            onlyif (group0 m 2 \<noteq> ''0'')
              (report error filename (int linenum) ''runtime/printf'' 3
                 (''If you can, use sizeof('' @ group0 m 1 @ '') instead of '' @ group0 m 2 @ '' as the 2nd arg '' @
                  ''to snprintf.''))),
          onlyif (SearchB ''`bsprintf`s*`('' line)
            (report error filename (int linenum) ''runtime/printf'' 5 ''Never use sprintf. Use snprintf instead.''),
          on_some (Search ''`b(strcpy|strcat)`s*`('' line) (\<lambda>m.
            report error filename (int linenum) ''runtime/printf'' 4
              (''Almost always, snprintf is better than '' @ group0 m 1))])"

definition PRINTF_ARGS :: re where
  "PRINTF_ARGS = ignore_case (rx ''`b(string)?printf`s*`('')"

definition PRINTF_NAME :: re where
  "PRINTF_NAME = ignore_case (rx ''`b((?:string)?printf)`s*`('')"

definition check_format_string :: "handler \<Rightarrow> string \<Rightarrow> nat \<Rightarrow> string \<Rightarrow> act" where
  "check_format_string error filename linenum line =
     withR (GetTextInside PRINTF_ARGS line) (\<lambda>args.
       on_some args (\<lambda>printf_args.
         if printf_args = [] then skip
         else on_some (Match ''([`w.`->()]+)$'' printf_args) (\<lambda>m.
           if group0 m 1 = ''__VA_ARGS__'' then skip
           else
             withR (case re_Search PRINTF_NAME line of None \<Rightarrow> Inl AttributeError | Some f \<Rightarrow> Inr (group0 f 1))
               (\<lambda>function_name.
                 report error filename (int linenum) ''runtime/printf'' 4
                   (''Potential format string bug. Do '' @ function_name @ ''('' @ [dquote] @ ''%s'' @ [dquote] @ '', '' @
                    group0 m 1 @ '') instead.'')))))"

section \<open>Arrays of variable length\<close>

fun size_is_const :: "bool \<Rightarrow> string list \<Rightarrow> bool" where
  "size_is_const skip_next [] = True"
| "size_is_const skip_next (tok # toks) =
     (if skip_next then size_is_const False toks
      else if SearchB ''sizeof`(.+`)'' tok \<or> SearchB ''arraysize`(`w+`)'' tok then size_is_const False toks
      else
        let tok' = rev (dropWhile (\<lambda>c. c = CHR '')'') (rev (dropWhile (\<lambda>c. c = CHR ''('') tok)))
        in if tok' = [] \<or> MatchB ''`d+'' tok' \<or> MatchB ''0[xX][0-9a-fA-F]+'' tok' \<or> MatchB ''k[A-Z0-9]`w*'' tok' \<or>
              MatchB ''(.+::)?k[A-Z0-9]`w*'' tok' \<or> MatchB ''(.+::)?[A-Z][A-Z0-9_]*'' tok'
           then size_is_const False toks
           else if py_startswith tok' ''sizeof'' then size_is_const True toks
           else False)"

definition array_pattern :: string where
  "array_pattern = ''`s*(.+::)?(`w+) [a-z]`w*`[(.+)];''"

definition size_delimiters :: string where
  "size_delimiters = ''`s|`+|`-|`*|`/|<<|>>]''"

definition variable_length :: "string \<Rightarrow> bool" where
  "variable_length line \<longleftrightarrow>
     (case Match array_pattern line of
        None \<Rightarrow> False
      | Some m \<Rightarrow>
          group0 m 2 \<noteq> ''return'' \<and> group0 m 2 \<noteq> ''delete'' \<and> py_find (group0 m 3) '']'' = -1 \<and>
          \<not> size_is_const False (re_split (rx size_delimiters) (group0 m 3)))"

section \<open>CheckLanguage\<close>

definition not_a_number :: string where
  "not_a_number = ''^'' @ [squote, squote] @ ''|-?[0-9]+|0x[0-9A-Fa-f]$''"

definition check_language :: "handler \<Rightarrow> string \<Rightarrow> cleansed_lines \<Rightarrow> nat \<Rightarrow> string \<Rightarrow> string \<Rightarrow> act" where
  "check_language error filename cl linenum file_extension line =
     seqA
       [CheckCasts error filename cl linenum,
        CheckGlobalStatic error filename cl linenum,
        CheckPrintf error filename cl linenum,
        if SearchB ''`bshort port`b'' line then
          onlyif (\<not> SearchB ''`bunsigned short port`b'' line)
            (report error filename (int linenum) ''runtime/int'' 4
               (''Use '' @ [dquote] @ ''unsigned short'' @ [dquote] @ '' for ports, not '' @ [dquote] @ ''short'' @ [dquote]))
        else
          on_some (Search ''`b(short|long(?! +double)|long long)`b'' line) (\<lambda>m.
            report error filename (int linenum) ''runtime/int'' 4
              (''Use int16/int64/etc, rather than the C type '' @ group0 m 1)),
        onlyif (SearchB ''`boperator`s*&`s*`(`s*`)'' line)
          (report error filename (int linenum) ''runtime/operator'' 4
             ''Unary operator& is dangerous.  Do not use it.''),
        onlyif (SearchB ''`}`s*if`s*`('' line)
          (report error filename (int linenum) ''readability/braces'' 4
             (''Did you mean '' @ [dquote] @ ''else if'' @ [dquote] @ ''? If not, start a new line for '' @ [dquote] @
              ''if'' @ [dquote] @ ''.'')),
        check_format_string error filename linenum line,
        on_some (Search ''memset`s*`(([^,]*),`s*([^,]*),`s*0`s*`)'' line) (\<lambda>m.
          onlyif (\<not> MatchB not_a_number (group0 m 2))
            (report error filename (int linenum) ''runtime/memset'' 4
               (''Did you mean '' @ [dquote] @ ''memset('' @ group0 m 1 @ '', 0, '' @ group0 m 2 @ '')'' @ [dquote] @ ''?''))),
        onlyif (SearchB ''`busing namespace`b'' line)
          (report error filename (int linenum) ''build/namespaces'' 5
             (''Do not use namespace using-directives.  '' @ ''Use using-declarations instead.'')),
        onlyif (variable_length line)
          (report error filename (int linenum) ''runtime/arrays'' 1
             (''Do not use variable-length arrays.  Use an appropriately named '' @ ''('' @ [squote] @ ''k'' @ [squote] @
              '' followed by CamelCase) compile-time constant for the size.'')),
        onlyif (file_extension = ''h'' \<and> SearchB ''`bnamespace`s*{'' line \<and> last line \<noteq> backslash)
          (report error filename (int linenum) ''build/namespaces'' 4
             (''Do not use unnamed namespaces in header files.  See '' @
              ''https://google-styleguide.googlecode.com/svn/trunk/cppguide.xml#Namespaces'' @
              '' for more information.''))]"

definition CheckLanguage ::
  "globals \<Rightarrow> handler \<Rightarrow> string \<Rightarrow> cleansed_lines \<Rightarrow> nat \<Rightarrow> string \<Rightarrow> lint \<times> include_state \<Rightarrow> (lint \<times> include_state) res" where
  "CheckLanguage gl error filename cl linenum file_extension =
     (\<lambda>(lst, inc).
       bindR (indexR (cl_elided cl) linenum) (\<lambda>line.
         if line = [] then Inr (lst, inc)
         else if re_Search RE_PATTERN_INCLUDE line \<noteq> None then
           bindR (indexR (cl_lines cl) linenum) (\<lambda>l.
             CheckIncludeLine error filename (repository_name gl filename) l (cl_elided cl) (int linenum) (lst, inc))
         else
           let inc' = (case Match ''^`s*#`s*(if|ifdef|ifndef|elif|else|endif)`b'' line of
                         None \<Rightarrow> inc | Some m \<Rightarrow> ResetSection (group0 m 1) inc)
           in bindR (check_language error filename cl linenum file_extension line lst) (\<lambda>lst'. Inr (lst', inc'))))"

section \<open>Non-standard constructs and constructors\<close>

fun collapse_arg :: "string \<Rightarrow> string list \<Rightarrow> (string \<times> string list) res" where
  "collapse_arg arg rest =
     (if py_count arg ''<'' > py_count arg ''>'' \<or> py_count arg ''('' > py_count arg '')'' then
        (case rest of [] \<Rightarrow> Inl IndexError | a # as \<Rightarrow> collapse_arg (arg @ '','' @ a) as)
      else Inr (arg, rest))"

declare collapse_arg.simps [simp del]

lemma collapse_arg_shorter: "collapse_arg arg rest = Inr (x, rest') \<Longrightarrow> length rest' \<le> length rest"
proof (induction arg rest rule: collapse_arg.induct)
  case (1 arg rest)
  then show ?case by (fastforce simp: collapse_arg.simps [of arg] split: if_splits list.splits)
qed

function collapse_args :: "string list \<Rightarrow> string list res" where
  "collapse_args [] = Inr []"
| "collapse_args (arg # rest) =
     bindR (collapse_arg arg rest) (\<lambda>(x, rest'). bindR (collapse_args rest') (\<lambda>xs. Inr (x # xs)))"
  by pat_completeness auto
termination
  by (relation "measure length") (auto dest: collapse_arg_shorter)

definition constructor_pattern :: "string \<Rightarrow> string" where
  "constructor_pattern name =
     unquote ''`s+(?:inline`s+)?(explicit`s+)?(?:inline`s+)?'' @ re_escape name @
     unquote ''`s*`(((?:[^()]|`([^()]*`))*)`)''"

definition copy_pattern :: "string \<Rightarrow> string" where
  "copy_pattern name =
     unquote ''(const`s+)?'' @ re_escape name @ unquote ''(`s*<[^>]*>)?(`s+const)?`s*(?:<`w+>`s*)?&''"

definition base_classname :: "string \<Rightarrow> string" where
  "base_classname name = last (py_split ''::'' name)"

definition constructor_args :: "re_match \<Rightarrow> string list" where
  "constructor_args m = (if group0 m 2 = [] then [] else py_split '','' (group0 m 2))"

definition check_explicit :: "handler \<Rightarrow> string \<Rightarrow> nat \<Rightarrow> string \<Rightarrow> bool \<Rightarrow> string list \<Rightarrow> act" where
  "check_explicit error filename linenum name is_marked_explicit args =
     withR (re_compile (copy_pattern name)) (\<lambda>copy_re.
       let defaulted_args = filter (\<lambda>arg. CHR ''='' \<in> set arg) args;
           noarg_constructor = (args = [] \<or> (length args = 1 \<and> py_strip (hd args) = ''void''));
           onearg_constructor =
             ((length args = 1 \<and> \<not> noarg_constructor) \<or>
              (length args \<ge> 1 \<and> \<not> noarg_constructor \<and> length defaulted_args \<ge> length args - 1));
           initializer_list_constructor =
             (onearg_constructor \<and> SearchB ''`bstd`s*::`s*initializer_list`b'' (hd args));
           copy_constructor = (onearg_constructor \<and> re_Match copy_re (py_strip (hd args)) \<noteq> None)
       in if \<not> is_marked_explicit \<and> onearg_constructor \<and> \<not> initializer_list_constructor \<and> \<not> copy_constructor then
            (if defaulted_args \<noteq> [] then
               report error filename (int linenum) ''runtime/explicit'' 5
                 (''Constructors callable with one argument '' @ ''should be marked explicit.'')
             else
               report error filename (int linenum) ''runtime/explicit'' 5
                 ''Single-parameter constructors should be marked explicit.'')
          else onlyif (is_marked_explicit \<and> \<not> onearg_constructor \<and> noarg_constructor)
            (report error filename (int linenum) ''runtime/explicit'' 5
               ''Zero-parameter constructors should not be marked explicit.''))"

definition check_constructor :: "handler \<Rightarrow> string \<Rightarrow> nat \<Rightarrow> string \<Rightarrow> block \<Rightarrow> class_info \<Rightarrow> act" where
  "check_constructor error filename linenum line b c =
     (if \<not> seen_open_brace b then skip
      else
        let name = base_classname (ci_name c)
        in withR (re_compile (constructor_pattern name)) (\<lambda>r.
             on_some (re_Match r line) (\<lambda>m.
               withR (collapse_args (constructor_args m)) (\<lambda>args.
                 check_explicit error filename linenum name (group0 m 1 \<noteq> []) args))))"

definition CheckForNonStandardConstructs :: "handler \<Rightarrow> string \<Rightarrow> cleansed_lines \<Rightarrow> nat \<Rightarrow> nesting \<Rightarrow> act" where
  "CheckForNonStandardConstructs error filename cl linenum ns =
     withR (indexR (cl_lines cl) linenum) (\<lambda>line_with_strings.
     withR (indexR (cl_elided cl) linenum) (\<lambda>line.
       seqA
         [onlyif (SearchB ''printf`s*`(.*\".*%[-+ ]?`d*q'' line_with_strings)
            (report error filename (int linenum) ''runtime/printf_format'' 3
               ''%q in format strings is deprecated.  Use %ll instead.''),
          onlyif (SearchB ''printf`s*`(.*\".*%`d+`$'' line_with_strings)
            (report error filename (int linenum) ''runtime/printf_format'' 2
               ''%N$ formats are unconventional.  Try rewriting to avoid them.''),
          onlyif (SearchB ''(\"|`').*``(%|`[|`(|{)'' (py_replace [backslash, backslash] [] line_with_strings))
            (report error filename (int linenum) ''build/printf_format'' 3
               ''%, [, (, and { are undefined character escapes.  Unescape them.''),
          onlyif (SearchB (''`b(const|volatile|void|char|short|int|long|float|double|signed|unsigned'' @
                    ''|schar|u?int8|u?int16|u?int32|u?int64)`s+(register|static|extern|typedef)`b'') line)
            (report error filename (int linenum) ''build/storage_class'' 5
               (''Storage-class specifier (static, extern, typedef, etc) should be '' @
                ''at the beginning of the declaration.'')),
          onlyif (MatchB ''`s*#`s*endif`s*[^/`s]+'' line)
            (report error filename (int linenum) ''build/endif_comment'' 5
               ''Uncommented text after #endif is non-standard.  Use a comment.''),
          onlyif (MatchB ''`s*class`s+(`w+`s*::`s*)+`w+`s*;'' line)
            (report error filename (int linenum) ''build/forward_decl'' 5
               ''Inner-style forward declarations are invalid.  Remove this line.''),
          onlyif (SearchB ''(`w+|[+-]?`d+(`.`d*)?)`s*(<|>)`?=?`s*(`w+|[+-]?`d+)(`.`d*)?'' line)
            (report error filename (int linenum) ''build/deprecated'' 3
               ''>? and <? (max and min) operators are non-standard and deprecated.''),
          onlyif (SearchB ''^`s*const`s*string`s*&`s*`w+`s*;'' line)
            (report error filename (int linenum) ''runtime/member_string_references'' 2
               (''const string& members are dangerous. It is much better to use '' @
                ''alternatives, such as pointers or simple constants.'')),
          on_class ns (check_constructor error filename linenum line)]))"

section \<open>virtual, override, final\<close>

fun parameter_list :: "string list \<Rightarrow> nat \<Rightarrow> nat list \<Rightarrow> (nat \<times> nat) option" where
  "parameter_list elided start_col [] = None"
| "parameter_list elided start_col (k # ks) =
     (case Match ''^([^(]*)`('' (drop start_col (elided ! k)) of
        Some m \<Rightarrow> Some (k, start_col + length (group0 m 1))
      | None \<Rightarrow> parameter_list elided 0 ks)"

fun check_virt_specifiers :: "handler \<Rightarrow> string \<Rightarrow> nat \<Rightarrow> string list \<Rightarrow> nat \<Rightarrow> nat list \<Rightarrow> act" where
  "check_virt_specifiers error filename linenum elided end_col [] = skip"
| "check_virt_specifiers error filename linenum elided end_col (i # is) =
     (let line = drop end_col (elided ! i)
      in seqA
        [on_some (Search ''`b(override|final)`b'' line) (\<lambda>m.
           report error filename (int linenum) ''readability/inheritance'' 4
             ([dquote] @ ''virtual'' @ [dquote] @ '' is redundant since function is '' @ ''already declared as '' @ [dquote] @
              group0 m 1 @ [dquote])),
         if SearchB ''[^`w]`s*$'' line then skip
         else check_virt_specifiers error filename linenum elided 0 is])"

definition CheckRedundantVirtual :: "handler \<Rightarrow> string \<Rightarrow> cleansed_lines \<Rightarrow> nat \<Rightarrow> act" where
  "CheckRedundantVirtual error filename cl linenum =
     withR (indexR (cl_elided cl) linenum) (\<lambda>line.
       on_some (Match ''^(.*)(`bvirtual`b)(.*)$'' line) (\<lambda>virtual.
         if SearchB ''`b(public|protected|private)`s+$'' (group0 virtual 1) \<or>
            MatchB ''^`s+(public|protected|private)`b'' (group0 virtual 3) \<or> MatchB ''^.*[^:]:[^:].*$'' line
         then skip
         else
           on_some (parameter_list (cl_elided cl) (length (group0 virtual 2))
                      [linenum ..< min (linenum + 3) (num_lines cl)])
             (\<lambda>(start_line, col).
               withR (CloseExpression (cl_elided cl) start_line col) (\<lambda>(_, end_line, end_col).
                 if end_col < 0 then skip
                 else check_virt_specifiers error filename linenum (cl_elided cl) (nat end_col)
                        [nat end_line ..< min (nat end_line + 3) (num_lines cl)]))))"

definition CheckRedundantOverrideOrFinal :: "handler \<Rightarrow> string \<Rightarrow> cleansed_lines \<Rightarrow> nat \<Rightarrow> act" where
  "CheckRedundantOverrideOrFinal error filename cl linenum =
     withR (indexR (cl_elided cl) linenum) (\<lambda>line.
       let declarator_end = py_rfind line '')'';
           fragment =
             (if declarator_end \<ge> 0 then Some (drop (nat declarator_end) line)
              else if linenum > 1 \<and> py_rfind (cl_elided cl ! (linenum - 1)) '')'' \<ge> 0 then Some line
              else None)
       in on_some fragment (\<lambda>fragment.
            onlyif (SearchB ''`boverride`b'' fragment \<and> SearchB ''`bfinal`b'' fragment)
              (report error filename (int linenum) ''readability/inheritance'' 4
                 ([dquote] @ ''override'' @ [dquote] @ '' is redundant since function is '' @ ''already declared as '' @
                  [dquote] @ ''final'' @ [dquote]))))"

section \<open>C++11 and C++14\<close>

definition feature_include :: string where
  "feature_include = ''`s*#`s*include`s+[<\"]([^<\"]+)[\">]''"

definition CXX11_HEADERS :: "string list" where
  "CXX11_HEADERS = [''cfenv'', ''condition_variable'', ''fenv.h'', ''future'', ''mutex'', ''thread'', ''chrono'',
     ''ratio'', ''regex'', ''system_error'']"

definition FlagCxx11Features :: "handler \<Rightarrow> string \<Rightarrow> cleansed_lines \<Rightarrow> nat \<Rightarrow> act" where
  "FlagCxx11Features error filename cl linenum =
     withR (indexR (cl_elided cl) linenum) (\<lambda>line.
       seqA
         [on_some (Match feature_include line) (\<lambda>include.
            seqA
              [onlyif (py_startswith (group0 include 1) ''tr1/'')
                 (report error filename (int linenum) ''build/c++tr1'' 5
                    (''C++ TR1 headers such as <'' @ group0 include 1 @ ''> are unapproved.'')),
               onlyif (group0 include 1 \<in> set CXX11_HEADERS)
                 (report error filename (int linenum) ''build/c++11'' 5
                    (''<'' @ group0 include 1 @ ''> is an unapproved C++11 header.''))]),
          if MatchB ''`s*#'' line \<and> \<not> MatchB ''`s*#`s*define`b'' line then skip
          else
            seqA (map (\<lambda>top_name.
              onlyif (SearchB (''`bstd::'' @ top_name @ ''`b'') line)
                (report error filename (int linenum) ''build/c++11'' 5
                   (''std::'' @ top_name @ '' is an unapproved C++11 class or function.  Send c-style '' @
                    ''an example of where it would make your code more readable, and '' @
                    ''they may let you use it.''))) [''alignment_of'', ''aligned_union''])])"

definition FlagCxx14Features :: "handler \<Rightarrow> string \<Rightarrow> cleansed_lines \<Rightarrow> nat \<Rightarrow> act" where
  "FlagCxx14Features error filename cl linenum =
     withR (indexR (cl_elided cl) linenum) (\<lambda>line.
       on_some (Match feature_include line) (\<lambda>include.
         onlyif (group0 include 1 \<in> {''scoped_allocator'', ''shared_mutex''})
           (report error filename (int linenum) ''build/c++14'' 5
              (''<'' @ group0 include 1 @ ''> is an unapproved C++14 header.''))))"

section \<open>What the language checks rely on\<close>

lemma language_patterns:
  "list_all compiles
     [global_string_pattern, ''[;({]'', ''`bstring`b(`s+const)?`s*[`*`&]`s*(const`s+)?`w'', ''`boperator`W'',
      ''`s*(<.*>)?(::[a-zA-Z0-9_]+)*`s*`(([^\"]|$)'', ''`bconst`b'', ''`b([A-Za-z0-9_]*_)`(`1`)'',
      ''`b([A-Za-z0-9_]*_)`(CHECK_NOTNULL`(`1`)`)'', ''snprintf`s*`(([^,]*),`s*([0-9]*)`s*,'', ''`bsprintf`s*`('',
      ''`b(strcpy|strcat)`s*`('', ''`b(string)?printf`s*`('', ''`b((?:string)?printf)`s*`('', ''([`w.`->()]+)$'',
      ''sizeof`(.+`)'', ''arraysize`(`w+`)'', ''`d+'', ''0[xX][0-9a-fA-F]+'', ''k[A-Z0-9]`w*'',
      ''(.+::)?k[A-Z0-9]`w*'', ''(.+::)?[A-Z][A-Z0-9_]*'', array_pattern, size_delimiters, not_a_number,
      ''`bshort port`b'', ''`bunsigned short port`b'', ''`b(short|long(?! +double)|long long)`b'',
      ''`boperator`s*&`s*`(`s*`)'', ''`}`s*if`s*`('', ''memset`s*`(([^,]*),`s*([^,]*),`s*0`s*`)'',
      ''`busing namespace`b'', ''`bnamespace`s*{'', ''^`s*#`s*(if|ifdef|ifndef|elif|else|endif)`b'',
      ''`bstd`s*::`s*initializer_list`b'', ''printf`s*`(.*\".*%[-+ ]?`d*q'', ''printf`s*`(.*\".*%`d+`$'',
      ''(\"|`').*``(%|`[|`(|{)'',
      ''`b(const|volatile|void|char|short|int|long|float|double|signed|unsigned'' @
        ''|schar|u?int8|u?int16|u?int32|u?int64)`s+(register|static|extern|typedef)`b'',
      ''`s*#`s*endif`s*[^/`s]+'', ''`s*class`s+(`w+`s*::`s*)+`w+`s*;'',
      ''(`w+|[+-]?`d+(`.`d*)?)`s*(<|>)`?=?`s*(`w+|[+-]?`d+)(`.`d*)?'', ''^`s*const`s*string`s*&`s*`w+`s*;'',
      ''^([^(]*)`('', ''`b(override|final)`b'', ''[^`w]`s*$'', ''^(.*)(`bvirtual`b)(.*)$'',
      ''`b(public|protected|private)`s+$'', ''^`s+(public|protected|private)`b'', ''^.*[^:]:[^:].*$'',
      ''`boverride`b'', ''`bfinal`b'', feature_include, ''`s*#'', ''`s*#`s*define`b'', ''`bstd::alignment_of`b'',
      ''`bstd::aligned_union`b'']"
  by code_simp

lemma constructor_compiles: "\<exists>r. re_compile (constructor_pattern name) = Inr r"
proof (cases "name = []")
  case True
  then show ?thesis by (simp add: constructor_pattern_def re_escape_def rx_eval)
next
  case False
  let ?v = "unquote ''`s*`(((?:[^()]|`([^()]*`))*)`)''"
  show ?thesis using escape_no_lazy [OF False, of ?v] lex_escape [of name ?v]
    unfolding constructor_pattern_def by (simp add: rx_eval prependR_def parse_lits)
qed

lemma copy_compiles: "\<exists>r. re_compile (copy_pattern name) = Inr r"
proof (cases "name = []")
  case True
  then show ?thesis by (simp add: copy_pattern_def re_escape_def rx_eval)
next
  case False
  let ?v = "unquote ''(`s*<[^>]*>)?(`s+const)?`s*(?:<`w+>`s*)?&''"
  show ?thesis using escape_no_lazy [OF False, of ?v] lex_escape [of name ?v]
    unfolding copy_pattern_def by (simp add: rx_eval prependR_def parse_lits)
qed

subsection \<open>Format strings\<close>

definition string_re :: re where
  "string_re = ignore_case (rlit ''string'')"

lemma printf_args_tree:
  "PRINTF_ARGS = rseq (RWordB # ropt (RGroup 1 string_re) # map (\<lambda>c. ignore_case (rch c)) ''printf'' @
     [rstar (ignore_case rspace), ignore_case (rch CHR ''('')])"
  unfolding PRINTF_ARGS_def string_re_def
  by (simp add: rx_eval rspace_def is_digit_def in_range_def rlit_def ropt_def rch_def)

lemma printf_name_tree:
  "PRINTF_NAME = rseq [RWordB,
     RGroup 1 (RSeq (ropt string_re) (rseq (map (\<lambda>c. ignore_case (rch c)) ''printf''))),
     rstar (ignore_case rspace), ignore_case (rch CHR ''('')]"
  unfolding PRINTF_NAME_def string_re_def
  by (simp add: rx_eval rspace_def is_digit_def in_range_def rlit_def ropt_def rch_def)

lemma mt_string_re: "(j, h) \<in> set (mt string_re s i g) \<Longrightarrow> (j, f) \<in> set (mt string_re s i f)"
  by (auto simp: string_re_def rlit_def rch_def mt_sets simp del: mt.simps(1-4) mt.simps(6-))

lemma printf_same:
  assumes "(j, h) \<in> set (mt PRINTF_ARGS s i g)"
  shows "\<exists>f. (j, f) \<in> set (mt PRINTF_NAME s i g)"
  using assms mt_string_re [of _ _ s i g]
  by (simp add: printf_args_tree printf_name_tree mt_sets rch_def rspace_def del: mt.simps(1-4) mt.simps(6-)) blast

lemma printf_name_found:
  assumes "re_Search PRINTF_ARGS s = Some m"
  shows "\<exists>f. re_Search PRINTF_NAME s = Some f"
proof -
  obtain k where k: "k \<le> length s" "match_at PRINTF_ARGS s k = Some m"
    using search_from_Some assms unfolding re_Search_def by blast
  obtain j f where "(j, f) \<in> set (mt PRINTF_NAME s k Map.empty)" using printf_same match_at_Some(1) [OF k(2)] by blast
  then have "match_at PRINTF_NAME s k \<noteq> None" by (auto simp: match_at_def split: list.splits)
  then show ?thesis using k(1) search_from_None [of PRINTF_NAME s 0] unfolding re_Search_def by auto
qed

lemma case_of_paren: "lower_char c = CHR ''('' \<or> upper_char c = CHR ''('' \<Longrightarrow> c = CHR ''(''"
proof (elim disjE)
  assume l: "lower_char c = CHR ''(''"
  then have "of_char (lower_char c) = (40 :: nat)" by simp
  then have "\<not> is_upper c" by (auto simp: lower_char_def is_upper_def in_range_def)
  then show ?thesis using l by (simp add: lower_char_def)
next
  assume u: "upper_char c = CHR ''(''"
  then have "of_char (upper_char c) = (40 :: nat)" by simp
  then have "\<not> is_lower c" by (auto simp: of_char_upper_char is_lower_def in_range_def)
  then show ?thesis using u by (simp add: upper_char_def)
qed

lemma GetTextInside_returns: "\<exists>t. GetTextInside PRINTF_ARGS s = Inr t \<and> (t \<noteq> None \<longrightarrow> re_Search PRINTF_ARGS s \<noteq> None)"
proof (cases "re_Search PRINTF_ARGS s")
  case None
  then show ?thesis by (simp add: GetTextInside_def)
next
  case (Some m)
  obtain k where k: "k \<le> length s" "match_at PRINTF_ARGS s k = Some m"
    using search_from_Some Some unfolding re_Search_def by blast
  have t: "tail_pred PRINTF_ARGS = Some (\<lambda>c. lower_char c = CHR ''('' \<or> upper_char c = CHR ''('')"
    by (simp add: printf_args_tree rch_def)
  note last = mt_tail_pred [OF t match_at_Some(1) [OF k(2)]]
  then have "s ! (m_end m - 1) = CHR ''(''" using case_of_paren by blast
  with last show ?thesis using Some by (auto simp: GetTextInside_def indexR_def Let_def)
qed

section \<open>The checks keep the invariant of the error handler\<close>

text \<open>The arguments of a constructor leave a bracket open. The text between the commas is cut into arguments, each the shortest run
  of pieces without an excess of opening brackets, and behind the last of them pieces are left of which no run is closed.\<close>

definition brackets_open :: "string \<Rightarrow> bool" where
  "brackets_open s \<longleftrightarrow> count_list s CHR ''>'' < count_list s CHR ''<'' \<or> count_list s CHR '')'' < count_list s CHR ''(''"

abbreviation joined :: "string list \<Rightarrow> string" where
  "joined pieces \<equiv> join_with '','' pieces"

definition whole_argument :: "string list \<Rightarrow> bool" where
  "whole_argument g \<longleftrightarrow> g \<noteq> [] \<and> \<not> brackets_open (joined g) \<and>
     (\<forall>k. 0 < k \<longrightarrow> k < length g \<longrightarrow> brackets_open (joined (take k g)))"

definition never_closed :: "string list \<Rightarrow> bool" where
  "never_closed rest \<longleftrightarrow> rest \<noteq> [] \<and> (\<forall>k. 0 < k \<longrightarrow> k \<le> length rest \<longrightarrow> brackets_open (joined (take k rest)))"

definition left_open :: "string list \<Rightarrow> bool" where
  "left_open args \<longleftrightarrow> (\<exists>gs rest. args = concat gs @ rest \<and> list_all whole_argument gs \<and> never_closed rest)"

definition ctor_overrun :: "string \<Rightarrow> nesting \<Rightarrow> bool" where
  "ctor_overrun line ns =
     (case InnermostClass ns of
        None \<Rightarrow> False
      | Some b \<Rightarrow>
          (case bkind b of
             ClassInfo c \<Rightarrow>
               seen_open_brace b \<and>
               (case re_compile (constructor_pattern (base_classname (ci_name c))) of
                  Inl e \<Rightarrow> False
                | Inr r \<Rightarrow>
                    (case re_Match r line of None \<Rightarrow> False | Some m \<Rightarrow> left_open (constructor_args m)))
           | _ \<Rightarrow> False))"

lemma collapse_test:
  "py_count s ''<'' > py_count s ''>'' \<or> py_count s ''('' > py_count s '')'' \<longleftrightarrow> brackets_open s"
proof -
  have "py_count s [c] = count_list s c" for c by (induction s) (simp_all add: py_count_char)
  then show ?thesis by (simp add: brackets_open_def)
qed

lemma joined_step: "joined ((x @ '','' @ a) # as) = joined (x # a # as)"
  by (cases as) simp_all

lemma take_step: "0 < k \<Longrightarrow> joined (take k ((x @ '','' @ a) # as)) = joined (take (Suc k) (x # a # as))"
  by (cases k) (simp_all only: take_Suc_Cons joined_step)

lemma collapse_arg_spec:
  "(\<exists>k. k \<le> length rest \<and> collapse_arg arg rest = Inr (joined (arg # take k rest), drop k rest) \<and> whole_argument (arg # take k rest)) \<or>
   (collapse_arg arg rest = Inl IndexError \<and> never_closed (arg # rest))"
proof (induction rest arbitrary: arg)
  case Nil
  then show ?case
    by (auto simp: collapse_arg.simps [of arg] collapse_test whole_argument_def never_closed_def le_Suc_eq)
next
  case (Cons a as)
  show ?case
  proof (cases "brackets_open arg")
    case False
    then show ?thesis
      by (intro disjI1 exI [of _ 0]) (simp add: collapse_arg.simps [of arg] collapse_test whole_argument_def)
  next
    case True
    let ?x = "arg @ '','' @ a"
    have c: "collapse_arg arg (a # as) = collapse_arg ?x as" using True by (simp add: collapse_arg.simps [of arg] collapse_test)
    have first: "brackets_open (joined (take (Suc 0) (arg # zs)))" for zs using True by simp
    from Cons.IH [of ?x] show ?thesis
    proof (elim disjE exE conjE)
      fix k assume k: "k \<le> length as" "collapse_arg ?x as = Inr (joined (?x # take k as), drop k as)" "whole_argument (?x # take k as)"
      have "brackets_open (joined (take n (arg # a # take k as)))" if n: "0 < n" "n < length (arg # a # take k as)" for n
      proof (cases "n = 1")
        case False
        then obtain j where "n = Suc j" "0 < j" using n(1) by (cases n) auto
        then have "brackets_open (joined (take j (?x # take k as)))" using k(3) n(2) unfolding whole_argument_def by auto
        then show ?thesis using take_step [of j arg a "take k as"] \<open>n = Suc j\<close> \<open>0 < j\<close> by metis
      qed (use first in simp)
      moreover have "\<not> brackets_open (joined (arg # a # take k as))"
        using k(3) joined_step [of arg a "take k as"] by (simp add: whole_argument_def)
      ultimately have "whole_argument (arg # take (Suc k) (a # as))" by (simp add: whole_argument_def)
      then show ?thesis using k(1,2) c joined_step [of arg a "take k as"] by (intro disjI1 exI [of _ "Suc k"]) simp
    next
      assume e: "collapse_arg ?x as = Inl IndexError" "never_closed (?x # as)"
      have "brackets_open (joined (take n (arg # a # as)))" if n: "0 < n" "n \<le> length (arg # a # as)" for n
      proof (cases "n = 1")
        case False
        then obtain j where "n = Suc j" "0 < j" using n(1) by (cases n) auto
        then have "brackets_open (joined (take j (?x # as)))" using e(2) n(2) unfolding never_closed_def by auto
        then show ?thesis using take_step [of j arg a as] \<open>n = Suc j\<close> \<open>0 < j\<close> by metis
      qed (use first in simp)
      then show ?thesis using e(1) c by (simp add: never_closed_def)
    qed
  qed
qed

text \<open>The cut is unique.\<close>

lemma whole_argument_unique:
  assumes "whole_argument g" "whole_argument h" "g @ xs = h @ ys"
  shows "g = h \<and> xs = ys"
proof -
  have "\<not> length g < length h" if "whole_argument g" "whole_argument h" "g @ xs = h @ ys" for g h :: "string list" and xs ys
  proof
    assume l: "length g < length h"
    then have "g = take (length g) h" using that(3) by (metis append_eq_append_conv_if less_imp_le_nat)
    then show False using that(1,2) l by (metis length_greater_0_conv whole_argument_def)
  qed
  then have "length g = length h" using assms by (metis linorder_neqE_nat)
  then show ?thesis using assms(3) by simp
qed

lemma never_closed_no_argument: "never_closed rest \<Longrightarrow> rest = g @ xs \<Longrightarrow> \<not> whole_argument g"
  unfolding never_closed_def whole_argument_def by (metis append_eq_conv_conj length_append length_greater_0_conv le_add1)

lemma collapse_args_spec: "(case collapse_args args of Inl e \<Rightarrow> left_open args | Inr xs \<Rightarrow> \<not> left_open args)"
proof (induction args rule: length_induct)
  case (1 args)
  show ?case
  proof (cases args)
    case Nil
    have "\<not> left_open []" by (auto simp: left_open_def never_closed_def)
    then show ?thesis using Nil by simp
  next
    case (Cons arg rest)
    from collapse_arg_spec [of rest arg] show ?thesis
    proof (elim disjE exE conjE)
      fix k assume k: "k \<le> length rest" "collapse_arg arg rest = Inr (joined (arg # take k rest), drop k rest)" "whole_argument (arg # take k rest)"
      have a: "args = (arg # take k rest) @ drop k rest" using Cons by simp
      have "left_open args \<longleftrightarrow> left_open (drop k rest)"
      proof
        assume "left_open (drop k rest)"
        then obtain gs r where "drop k rest = concat gs @ r" "list_all whole_argument gs" "never_closed r" by (auto simp: left_open_def)
        then have "args = concat ((arg # take k rest) # gs) @ r" "list_all whole_argument ((arg # take k rest) # gs)" "never_closed r"
          using a k(3) by auto
        then show "left_open args" unfolding left_open_def by blast
      next
        assume "left_open args"
        then obtain gs r where g: "args = concat gs @ r" "list_all whole_argument gs" "never_closed r" by (auto simp: left_open_def)
        show "left_open (drop k rest)"
        proof (cases gs)
          case Nil
          then have "r = (arg # take k rest) @ drop k rest" using g(1) a by simp
          then show ?thesis using never_closed_no_argument [OF g(3)] k(3) by blast
        next
          case (Cons h hs)
          then have "drop k rest = concat hs @ r"
            using whole_argument_unique [OF k(3), of h "drop k rest" "concat hs @ r"] g(1,2) a by simp
          then show ?thesis using g(2,3) Cons by (auto simp: left_open_def)
        qed
      qed
      moreover have "length (drop k rest) < length args" using Cons by simp
      then have "case collapse_args (drop k rest) of Inl e \<Rightarrow> left_open (drop k rest) | Inr xs \<Rightarrow> \<not> left_open (drop k rest)"
        using 1 by blast
      ultimately show ?thesis using k(2) Cons by (cases "collapse_args (drop k rest)") simp_all
    next
      assume e: "collapse_arg arg rest = Inl IndexError" "never_closed (arg # rest)"
      have "left_open args" using e(2) Cons unfolding left_open_def by (intro exI [of _ "[]"] exI [of _ args]) simp
      then show ?thesis using e(1) Cons by simp
    qed
  qed
qed

lemma collapse_args_Inr: "(\<exists>xs. collapse_args args = Inr xs) \<longleftrightarrow> \<not> left_open args"
  using collapse_args_spec [of args] by (cases "collapse_args args") simp_all

lemma collapse_args_Inl: "(\<exists>e. collapse_args args = Inl e) \<longleftrightarrow> left_open args"
  using collapse_args_spec [of args] by (cases "collapse_args args") simp_all

lemma left_open_code [code]: "left_open args = (case collapse_args args of Inl e \<Rightarrow> True | Inr xs \<Rightarrow> False)"
  using collapse_args_spec [of args] by (cases "collapse_args args") simp_all

lemma collapse_arg_error: "collapse_arg arg rest = Inl e \<Longrightarrow> e = IndexError"
proof (induction arg rest rule: collapse_arg.induct)
  case (1 arg rest)
  then show ?case by (auto simp: collapse_arg.simps [of arg] split: if_splits list.splits)
qed

lemma collapse_args_error: "collapse_args args = Inl e \<Longrightarrow> e = IndexError"
  by (induction args rule: collapse_args.induct) (auto simp: bindR_Inl_iff dest: collapse_arg_error)

context error_sink
begin

lemma keeps_GlobalStatic: "l < length (cl_elided cl) \<Longrightarrow> keeps inv (CheckGlobalStatic error filename cl l)"
  unfolding CheckGlobalStatic_def Let_def by (intro keeps_intros) simp_all

lemma keeps_Printf: "l < length (cl_elided cl) \<Longrightarrow> keeps inv (CheckPrintf error filename cl l)"
  unfolding CheckPrintf_def by (intro keeps_intros) simp_all

lemma keeps_format_string: "keeps inv (check_format_string error filename l line)"
proof -
  obtain t where t: "GetTextInside PRINTF_ARGS line = Inr t" "t \<noteq> None \<Longrightarrow> re_Search PRINTF_ARGS line \<noteq> None"
    using GetTextInside_returns by blast
  have "\<exists>f. re_Search PRINTF_NAME line = Some f" if "t = Some s" for s
    using t(2) that printf_name_found [of line] by auto
  then show ?thesis unfolding check_format_string_def t(1)
    by (intro keeps_intros) (auto intro!: keeps_intros)
qed

lemma keeps_language:
  assumes "l < length (cl_elided cl)" "\<not> cast_overrun (cl_elided cl) l"
  shows "keeps inv (check_language error filename cl l file_extension line)"
  unfolding check_language_def
  by (intro keeps_seq_Cons keeps_seq_Nil keeps_Casts keeps_GlobalStatic keeps_Printf keeps_format_string
      keeps_onlyif keeps_if keeps_on_some keeps_report assms) simp_all

lemma keeps_explicit: "keeps inv (check_explicit error filename l name marked args)"
  unfolding check_explicit_def Let_def by (intro keeps_returns copy_compiles keeps_intros) simp_all

lemma keeps_NonStandardConstructs:
  assumes "l < length (cl_lines cl)" "l < length (cl_elided cl)" "\<not> ctor_overrun (cl_elided cl ! l) ns"
  shows "keeps inv (CheckForNonStandardConstructs error filename cl l ns)"
proof -
  let ?line = "cl_elided cl ! l"
  have "keeps inv (check_constructor error filename l ?line b c)"
    if "InnermostClass ns = Some b" "bkind b = ClassInfo c" for b c
  proof (cases "seen_open_brace b")
    case True
    obtain r where r: "re_compile (constructor_pattern (base_classname (ci_name c))) = Inr r"
      using constructor_compiles by blast
    have "\<exists>args. collapse_args (constructor_args m) = Inr args" if "re_Match r ?line = Some m" for m
      using assms(3) that True r \<open>InnermostClass ns = Some b\<close> \<open>bkind b = ClassInfo c\<close>
      by (simp add: collapse_args_Inr ctor_overrun_def)
    then show ?thesis unfolding check_constructor_def Let_def r by (intro keeps_intros keeps_returns keeps_explicit) auto
  qed (simp add: check_constructor_def keeps_skip)
  then have "keeps inv (on_class ns (check_constructor error filename l ?line))"
    unfolding on_class_def by (auto intro!: keeps_intros split: block_kind.split)
  then show ?thesis unfolding CheckForNonStandardConstructs_def using assms
    by (intro keeps_index keeps_seq_Cons keeps_seq_Nil keeps_onlyif keeps_report) simp_all
qed

lemma parameter_list_bounds:
  "parameter_list elided c ks = Some (k, col) \<Longrightarrow> k \<in> set ks \<and> col < length (elided ! k)"
proof (induction elided c ks rule: parameter_list.induct)
  case (2 elided c k' ks)
  show ?case
  proof (cases "Match ''^([^(]*)`('' (drop c (elided ! k'))")
    case None
    then show ?thesis using 2 by simp
  next
    case (Some m)
    have "leading_group 1 ''^([^(]*)`(''" by code_simp
    then have "length (group0 m 1) < length (drop c (elided ! k'))" by (rule Match_leading [OF Some])
    then show ?thesis using 2 Some by auto
  qed
qed simp

lemma keeps_virt_specifiers: "keeps inv (check_virt_specifiers error filename l elided c is)"
proof (induction "is" arbitrary: c)
  case (Cons i "is")
  then show ?case unfolding check_virt_specifiers.simps Let_def by (intro keeps_intros) simp_all
qed (simp add: keeps_skip)

lemma keeps_RedundantVirtual:
  assumes "cl_ok cl" "l < num_lines cl"
  shows "keeps inv (CheckRedundantVirtual error filename cl l)"
  unfolding CheckRedundantVirtual_def
  by (intro keeps_intros keeps_CloseExpression keeps_virt_specifiers)
    (use assms in \<open>auto simp: cl_ok_def dest!: parameter_list_bounds\<close>)

lemma keeps_RedundantOverrideOrFinal:
  "l < length (cl_elided cl) \<Longrightarrow> keeps inv (CheckRedundantOverrideOrFinal error filename cl l)"
  unfolding CheckRedundantOverrideOrFinal_def Let_def by (intro keeps_intros) simp_all

lemma keeps_Cxx11: "l < length (cl_elided cl) \<Longrightarrow> keeps inv (FlagCxx11Features error filename cl l)"
  unfolding FlagCxx11Features_def by (intro keeps_intros keeps_map) simp_all

lemma keeps_Cxx14: "l < length (cl_elided cl) \<Longrightarrow> keeps inv (FlagCxx14Features error filename cl l)"
  unfolding FlagCxx14Features_def by (intro keeps_intros) simp_all

end

end
