(* ===== verification/Lint_IWYU.thy ===== *)
theory Lint_IWYU
  imports Lint_Style
begin

text \<open>
  \<open>CheckForIncludeWhatYouUse\<close> of \<open>cpplint.py\<close>: the headers that the templates used in a file call for, the headers it
  includes itself or through its own header file, and a report for each one that is missing. A dict is an
  association list in the order of first insertion. Shown: what the scan of the lines leaves in \<open>required\<close>.
\<close>

section \<open>Tables\<close>

definition HEADERS_CONTAINING_TEMPLATES :: "(string \<times> string list) list" where
  "HEADERS_CONTAINING_TEMPLATES =
     [(''<deque>'', [''deque'']),
      (''<functional>'', [''unary_function'', ''binary_function'', ''plus'', ''minus'', ''multiplies'', ''divides'',
         ''modulus'', ''negate'', ''equal_to'', ''not_equal_to'', ''greater'', ''less'', ''greater_equal'',
         ''less_equal'', ''logical_and'', ''logical_or'', ''logical_not'', ''unary_negate'', ''not1'',
         ''binary_negate'', ''not2'', ''bind1st'', ''bind2nd'', ''pointer_to_unary_function'',
         ''pointer_to_binary_function'', ''ptr_fun'', ''mem_fun_t'', ''mem_fun'', ''mem_fun1_t'', ''mem_fun1_ref_t'',
         ''mem_fun_ref_t'', ''const_mem_fun_t'', ''const_mem_fun1_t'', ''const_mem_fun_ref_t'',
         ''const_mem_fun1_ref_t'', ''mem_fun_ref'']),
      (''<limits>'', [''numeric_limits'']),
      (''<list>'', [''list'']),
      (''<map>'', [''map'', ''multimap'']),
      (''<memory>'', [''allocator'', ''make_shared'', ''make_unique'', ''shared_ptr'', ''unique_ptr'', ''weak_ptr'']),
      (''<queue>'', [''queue'', ''priority_queue'']),
      (''<set>'', [''set'', ''multiset'']),
      (''<stack>'', [''stack'']),
      (''<string>'', [''char_traits'', ''basic_string'']),
      (''<tuple>'', [''tuple'']),
      (''<unordered_map>'', [''unordered_map'', ''unordered_multimap'']),
      (''<unordered_set>'', [''unordered_set'', ''unordered_multiset'']),
      (''<utility>'', [''pair'']),
      (''<vector>'', [''vector'']),
      (''<hash_map>'', [''hash_map'', ''hash_multimap'']),
      (''<hash_set>'', [''hash_set'', ''hash_multiset'']),
      (''<slist>'', [''slist''])]"

definition HEADERS_MAYBE_TEMPLATES :: "(string \<times> string list) list" where
  "HEADERS_MAYBE_TEMPLATES =
     [(''<algorithm>'', [''copy'', ''max'', ''min'', ''min_element'', ''sort'', ''transform'']),
      (''<utility>'', [''forward'', ''make_pair'', ''move'', ''swap''])]"

definition RE_PATTERN_STRING :: string where
  "RE_PATTERN_STRING = ''`bstring`b''"

definition patterns_headers_maybe_templates :: "(string \<times> string \<times> string) list" where
  "patterns_headers_maybe_templates =
     concat (map (\<lambda>(header, templates). map (\<lambda>t. (''[^>.]`b'' @ t @ ''(<.*?>)?`([^`)]'', t, header)) templates)
       HEADERS_MAYBE_TEMPLATES)"

definition pattern_templates :: "(string \<times> string \<times> string) list" where
  "pattern_templates =
     concat (map (\<lambda>(header, templates). map (\<lambda>t. (''(`<|`b)'' @ t @ ''`s*`<'', t @ ''<>'', header)) templates)
       HEADERS_CONTAINING_TEMPLATES)"

section \<open>Dicts\<close>

fun dict_set :: "'k \<Rightarrow> 'v \<Rightarrow> ('k \<times> 'v) list \<Rightarrow> ('k \<times> 'v) list" where
  "dict_set k v [] = [(k, v)]"
| "dict_set k v ((k', v') # d) = (if k' = k then (k, v) # d else (k', v') # dict_set k v d)"

definition dict_setdefault :: "'k \<Rightarrow> 'v \<Rightarrow> ('k \<times> 'v) list \<Rightarrow> ('k \<times> 'v) list" where
  "dict_setdefault k v d = (if k \<in> fst ` set d then d else d @ [(k, v)])"

lemma map_of_dict_set: "map_of (dict_set k v d) = (map_of d)(k \<mapsto> v)"
  by (induction d) auto

section \<open>The headers a file needs\<close>

type_synonym required = "(string \<times> nat \<times> string) list"

text \<open>A match in a namespace other than \<open>std\<close> does not count.\<close>

definition outside_std :: "string \<Rightarrow> re_match \<Rightarrow> bool" where
  "outside_std line m =
     (let before = take (m_start m) line in \<not> py_endswith before ''std::'' \<and> py_endswith before ''::'')"

definition uses :: "string \<Rightarrow> string \<Rightarrow> bool" where
  "uses pattern line = (case Search pattern line of None \<Rightarrow> False | Some m \<Rightarrow> \<not> outside_std line m)"

text \<open>What one line requires, in the order of the assignments.\<close>

definition line_requires :: "string \<Rightarrow> (string \<times> string) list" where
  "line_requires line =
     (if line = [] \<or> hd line = CHR ''#'' then []
      else
        (if uses RE_PATTERN_STRING line then [(''<string>'', ''string'')] else []) @
        map (\<lambda>(p, t, h). (h, t)) (filter (\<lambda>(p, t, h). SearchB p line) patterns_headers_maybe_templates) @
        (if CHR ''<'' \<in> set line
         then map (\<lambda>(p, t, h). (h, t)) (filter (\<lambda>(p, t, h). uses p line) pattern_templates) else []))"

definition require_line :: "required \<Rightarrow> nat \<times> string \<Rightarrow> required" where
  "require_line req = (\<lambda>(linenum, line). foldl (\<lambda>req (h, t). dict_set h (linenum, t) req) req (line_requires line))"

definition required_headers :: "string list \<Rightarrow> required" where
  "required_headers elided = foldl require_line [] (enumerate 0 elided)"

section \<open>The headers a file includes\<close>

text \<open>\<open>None\<close> when the file cannot be opened. The lines come with their line ends.\<close>

definition UpdateIncludeState ::
  "(string \<Rightarrow> string list option) \<Rightarrow> string \<Rightarrow> (string \<times> int) list \<Rightarrow> (string \<times> int) list option" where
  "UpdateIncludeState io filename include_dict =
     map_option (\<lambda>lines.
       foldl (\<lambda>d (linenum, line).
         case re_Search RE_PATTERN_INCLUDE (CleanseComments line) of
           None \<Rightarrow> d
         | Some m \<Rightarrow> dict_setdefault (group0 m 2) (int linenum) d) include_dict (enumerate 1 lines))
       (io filename)"

definition flymake_cc :: string where
  "flymake_cc = ''_flymake`.cc$''"

definition visit_header :: "globals \<Rightarrow> string \<Rightarrow> bool \<times> (string \<times> int) list \<Rightarrow> string \<Rightarrow> bool \<times> (string \<times> int) list" where
  "visit_header gl abs_filename = (\<lambda>(header_found, include_dict) header.
     let (same_module, common_path) = FilesBelongToSameModule (repository_name gl abs_filename) abs_filename header
     in if same_module then
          (case UpdateIncludeState (file_lines gl) (common_path @ header) include_dict of
             None \<Rightarrow> (header_found, include_dict)
           | Some d \<Rightarrow> (True, d))
        else (header_found, include_dict))"

definition strip_chars :: "string \<Rightarrow> string \<Rightarrow> string" where
  "strip_chars cs s = rev (dropWhile (\<lambda>c. c \<in> set cs) (rev (dropWhile (\<lambda>c. c \<in> set cs) s)))"

definition included_headers :: "globals \<Rightarrow> string \<Rightarrow> include_state \<Rightarrow> bool \<times> (string \<times> int) list" where
  "included_headers gl filename inc =
     (let include_dict = foldl (\<lambda>d (h, l). dict_set h l d) [] (concat (include_list inc));
          abs_filename = ReplaceAll flymake_cc ''.cc'' (full_name gl filename)
      in foldl (visit_header gl abs_filename) (False, include_dict) (key_order gl (map fst include_dict)))"

definition CheckForIncludeWhatYouUse :: "globals \<Rightarrow> handler \<Rightarrow> string \<Rightarrow> cleansed_lines \<Rightarrow> include_state \<Rightarrow> act" where
  "CheckForIncludeWhatYouUse gl error filename cl inc =
     (let required = required_headers (cl_elided cl);
          (header_found, include_dict) = included_headers gl filename inc
      in if py_endswith filename ''.cc'' \<and> \<not> header_found then skip
         else
           seqA (map (\<lambda>h.
             withR (lookupR (map_of required) h) (\<lambda>(linenum, template).
               onlyif (strip_chars (''<>'' @ [dquote]) h \<notin> fst ` set include_dict)
                 (report error filename (int linenum) ''build/include_what_you_use'' 4
                    (''Add #include '' @ h @ '' for '' @ template))))
             (key_order gl (map fst required))))"

section \<open>Properties\<close>

lemma iwyu_patterns:
  "list_all compiles (RE_PATTERN_STRING # flymake_cc #
     map fst patterns_headers_maybe_templates @ map fst pattern_templates)"
  by code_simp

text \<open>The last template of a header that a list of requirements names.\<close>

definition last_reason :: "string \<Rightarrow> (string \<times> string) list \<Rightarrow> string option" where
  "last_reason h rs = map_of (rev rs) h"

lemma map_of_requires:
  "map_of (foldl (\<lambda>req (h, t). dict_set h (n, t) req) req rs) h =
     (case last_reason h rs of None \<Rightarrow> map_of req h | Some t \<Rightarrow> Some (n, t))"
proof (induction rs rule: rev_induct)
  case (snoc r rs)
  then show ?case by (cases r) (auto simp: last_reason_def map_of_dict_set)
qed (simp add: last_reason_def)

definition last_use :: "string \<Rightarrow> string list \<Rightarrow> (nat \<times> string) option" where
  "last_use h elided = List.find (\<lambda>(n, line). h \<in> fst ` set (line_requires line)) (rev (enumerate 0 elided))"

lemma last_reason_None: "last_reason h rs = None \<longleftrightarrow> h \<notin> fst ` set rs"
  by (simp add: last_reason_def map_of_eq_None_iff)

lemma enumerate_snoc: "enumerate n (xs @ [x]) = enumerate n xs @ [(n + length xs, x)]"
  by (simp add: enumerate_append_eq)

lemma required_reference:
  "map_of (required_headers elided) h =
     (case last_use h elided of
        None \<Rightarrow> None
      | Some (n, line) \<Rightarrow> map_option (Pair n) (last_reason h (line_requires line)))"
proof (induction elided rule: rev_induct)
  case Nil
  then show ?case by (simp add: required_headers_def last_use_def)
next
  case (snoc line elided)
  have r: "required_headers (elided @ [line]) = require_line (required_headers elided) (length elided, line)"
    by (simp add: required_headers_def enumerate_snoc)
  have u: "last_use h (elided @ [line]) =
      (if h \<in> fst ` set (line_requires line) then Some (length elided, line) else last_use h elided)"
    by (simp add: last_use_def enumerate_snoc)
  show ?case
  proof (cases "last_reason h (line_requires line)")
    case None
    then have "h \<notin> fst ` set (line_requires line)" using last_reason_None [of h] by blast
    then show ?thesis using snoc unfolding r u require_line_def prod.case map_of_requires None by simp
  next
    case (Some t)
    then have "h \<in> fst ` set (line_requires line)" using last_reason_None [of h "line_requires line"] by auto
    then show ?thesis unfolding r u require_line_def prod.case map_of_requires Some by (simp add: Some)
  qed
qed

text \<open>C26: The scan of the lines keeps, for every header, the line of its last use and, of the templates on that line that
  call for it, the last one in the order in which the tables of patterns are searched. This is not the last one on the line, let alone
  ``the latter in the file'' of the documentation, when a line uses two of them in another order than the tables. A header
  no line uses is not required.\<close>

theorem required_headers_last_use:
  "map_of (required_headers elided) h =
     (case List.find (\<lambda>(n, line). h \<in> fst ` set (line_requires line)) (rev (enumerate 0 elided)) of
        None \<Rightarrow> None
      | Some (n, line) \<Rightarrow> map_option (Pair n) (map_of (rev (line_requires line)) h))"
  using required_reference [of elided h] unfolding last_use_def last_reason_def .

context error_sink
begin

lemma keeps_IWYU:
  assumes "\<And>ks. set (key_order gl ks) \<subseteq> set ks"
  shows "keeps inv (CheckForIncludeWhatYouUse gl error filename cl inc)"
proof -
  let ?req = "required_headers (cl_elided cl)"
  have look: "keeps inv (withR (lookupR (map_of ?req) h) f)"
    if "h \<in> set (key_order gl (map fst ?req))" "\<And>x. keeps inv (f x)" for h f
  proof (rule keeps_returns)
    have "h \<in> fst ` set ?req" using that(1) assms [of "map fst ?req"] by auto
    then show "\<exists>x. lookupR (map_of ?req) h = Inr x"
      by (auto simp: lookupR_def dest: weak_map_of_SomeI split: option.splits)
  qed (rule that(2))
  have each: "keeps inv (seqA (map F (key_order gl (map fst ?req))))"
    if "\<And>h. h \<in> set (key_order gl (map fst ?req)) \<Longrightarrow> keeps inv (F h)" for F
    using that by (intro keeps_seq) auto
  show ?thesis unfolding CheckForIncludeWhatYouUse_def Let_def
    by (intro keeps_case_prod keeps_if keeps_skip each look keeps_onlyif keeps_report) simp_all
qed

end

end
