(* ===== verification/Lint_Process.thy ===== *)
theory Lint_Process
  imports Lint_Language Lint_IWYU
begin

text \<open>
  \<open>ProcessLine\<close> and \<open>ProcessFileData\<close> of \<open>cpplint.py\<close>: all the checks composed, with the three trackers (includes,
  functions, nesting) threaded through the lines. Shown: linting a file returns or raises
  \<open>IndexError\<close>, the latter only where a cast or a constructor overruns its line, and makes
  documented reports only.
\<close>

section \<open>Indentation in namespaces\<close>

definition IsBlockInNameSpace :: "nesting \<Rightarrow> bool \<Rightarrow> bool" where
  "IsBlockInNameSpace ns is_forward_declaration =
     (if is_forward_declaration then (case nstack ns of [] \<Rightarrow> False | b # bs \<Rightarrow> is_namespace b)
      else (case nstack ns of
              b # c # bs \<Rightarrow> check_namespace_indentation b \<and> is_namespace c
            | _ \<Rightarrow> False))"

definition ShouldCheckNamespaceIndentation :: "nesting \<Rightarrow> bool \<Rightarrow> string list \<Rightarrow> nat \<Rightarrow> bool res" where
  "ShouldCheckNamespaceIndentation ns is_namespace_indent_item lines linenum =
     bindR (IsForwardClassDeclaration lines linenum) (\<lambda>is_forward_declaration.
       if \<not> (is_namespace_indent_item \<or> is_forward_declaration) then Inr False
       else bindR (IsMacroDefinition lines linenum) (\<lambda>in_macro.
         Inr (\<not> in_macro \<and> IsBlockInNameSpace ns is_forward_declaration)))"

definition CheckItemIndentationInNamespace :: "handler \<Rightarrow> string \<Rightarrow> string list \<Rightarrow> nat \<Rightarrow> act" where
  "CheckItemIndentationInNamespace error filename lines linenum =
     withR (indexR lines linenum) (\<lambda>line.
       onlyif (MatchB ''^`s+'' line)
         (report error filename (int linenum) ''runtime/indentation_namespace'' 4 ''Do not indent within a namespace''))"

text \<open>\<open>previous_stack_top == stack[-2]\<close> compares objects.\<close>

definition namespace_indent_item :: "nesting \<Rightarrow> bool" where
  "namespace_indent_item ns =
     (case nstack ns of
        b # c # bs \<Rightarrow>
          check_namespace_indentation b \<and>
          (case previous_stack_top ns of None \<Rightarrow> False | Some p \<Rightarrow> is_namespace p \<and> block_id p = block_id c)
      | _ \<Rightarrow> False)"

definition CheckForNamespaceIndentation :: "handler \<Rightarrow> string \<Rightarrow> nesting \<Rightarrow> cleansed_lines \<Rightarrow> nat \<Rightarrow> act" where
  "CheckForNamespaceIndentation error filename ns cl linenum =
     withR (ShouldCheckNamespaceIndentation ns (namespace_indent_item ns) (cl_elided cl) linenum) (\<lambda>b.
       onlyif b (CheckItemIndentationInNamespace error filename (cl_elided cl) linenum))"

section \<open>A line\<close>

record file_state =
  f_lint :: lint
  f_include :: include_state
  f_function :: function_state
  f_nesting :: nesting

text \<open>\<open>extra_check_functions\<close> of the source.\<close>

type_synonym extra_check = "string \<Rightarrow> cleansed_lines \<Rightarrow> nat \<Rightarrow> handler \<Rightarrow> act"

definition check_rest :: "handler \<Rightarrow> string \<Rightarrow> cleansed_lines \<Rightarrow> nat \<Rightarrow> nesting \<Rightarrow> extra_check list \<Rightarrow> act" where
  "check_rest error filename cl linenum ns extra =
     seqA
       ([CheckForNonConstReference error filename cl linenum ns,
         CheckForNonStandardConstructs error filename cl linenum ns,
         CheckVlogArguments error filename cl linenum,
         CheckPosixThreading error filename cl linenum,
         CheckInvalidIncrement error filename cl linenum,
         CheckMakePairUsesDeduction error filename cl linenum,
         CheckRedundantVirtual error filename cl linenum,
         CheckRedundantOverrideOrFinal error filename cl linenum] @
        map (\<lambda>check_fn. check_fn filename cl linenum error) extra)"

definition ProcessLine ::
  "globals \<Rightarrow> handler \<Rightarrow> string \<Rightarrow> string \<Rightarrow> cleansed_lines \<Rightarrow> extra_check list \<Rightarrow> file_state \<Rightarrow> nat \<Rightarrow> file_state res" where
  "ProcessLine gl error filename file_extension cl extra st linenum =
     bindR (indexR (raw_lines cl) linenum) (\<lambda>raw.
     bindR (ParseNolintSuppressions error filename raw (int linenum) (f_lint st)) (\<lambda>lst1.
     bindR (Update error filename cl linenum (f_nesting st, lst1)) (\<lambda>(ns, lst2).
     bindR (CheckForNamespaceIndentation error filename ns cl linenum lst2) (\<lambda>lst3.
       if InAsmBlock ns then Inr (st\<lparr>f_lint := lst3, f_nesting := ns\<rparr>)
       else
         bindR (CheckForFunctionLengths error filename (cl_lines cl) linenum (lst3, f_function st)) (\<lambda>(lst4, fs).
         bindR (CheckForMultilineCommentsAndStrings error filename (cl_elided cl) linenum lst4) (\<lambda>lst5.
         bindR (CheckStyle gl error filename cl linenum file_extension ns lst5) (\<lambda>lst6.
         bindR (CheckLanguage gl error filename cl linenum file_extension (lst6, f_include st)) (\<lambda>(lst7, inc).
         bindR (check_rest error filename cl linenum ns extra lst7) (\<lambda>lst8.
           Inr \<lparr>f_lint = lst8, f_include = inc, f_function = fs, f_nesting = ns\<rparr>)))))))))"

section \<open>A file\<close>

definition with_markers :: "string list \<Rightarrow> string list" where
  "with_markers lines =
     ''// marker so line numbers and indices both start at 1'' #
     lines @ [''// marker so line numbers end in a known way'']"

definition process_lines ::
  "globals \<Rightarrow> handler \<Rightarrow> string \<Rightarrow> string \<Rightarrow> cleansed_lines \<Rightarrow> extra_check list \<Rightarrow> file_state \<Rightarrow> file_state res" where
  "process_lines gl error filename file_extension cl extra st =
     foldR (\<lambda>st linenum.
       bindR (ProcessLine gl error filename file_extension cl extra st linenum) (\<lambda>st1.
       bindR (FlagCxx11Features error filename cl linenum (f_lint st1)) (\<lambda>lst.
         Inr (st1\<lparr>f_lint := lst\<rparr>)))) st [0 ..< num_lines cl]"

definition ProcessFileData ::
  "globals \<Rightarrow> handler \<Rightarrow> string \<Rightarrow> string \<Rightarrow> string list \<Rightarrow> extra_check list \<Rightarrow> lint \<Rightarrow> lint res" where
  "ProcessFileData gl error filename file_extension file extra lst =
     (let lines = with_markers file
      in bindR (CheckForCopyright error filename lines (ResetNolintSuppressions lst)) (\<lambda>lst1.
         bindR (RemoveMultiLineComments error filename lines (ProcessGlobalSuppresions lines lst1)) (\<lambda>(lst2, lines).
         bindR (CleansedLines lines) (\<lambda>cl.
         bindR (if file_extension = ''h''
                then CheckForHeaderGuard error (repository_name gl) (root gl) filename (lines_without_raw_strings cl) lst2
                else Inr lst2) (\<lambda>lst3.
         bindR (process_lines gl error filename file_extension cl extra
                  \<lparr>f_lint = lst3, f_include = IncludeState_init, f_function = FunctionState_init,
                   f_nesting = NestingState_init\<rparr>) (\<lambda>st.
           seqA
             [CheckCompletedBlocks error filename (f_nesting st),
              CheckForIncludeWhatYouUse gl error filename cl (f_include st),
              if IsSourceExtension file_extension then
                CheckHeaderFileIncluded error (path_exists gl) (repository_name gl) filename (f_include st)
              else skip,
              CheckForBadCharacters error (replacement gl) filename lines,
              CheckForNewlineAtEOF error filename lines] (f_lint st)))))))"

section \<open>Outcomes\<close>

text \<open>What a computation that starts in a good state may do: return a good state, or raise an allowed exception.\<close>

definition outcome :: "(py_error \<Rightarrow> bool) \<Rightarrow> ('a \<Rightarrow> bool) \<Rightarrow> 'a res \<Rightarrow> bool" where
  "outcome E I r = (case r of Inl e \<Rightarrow> E e | Inr x \<Rightarrow> I x)"

named_theorems outcome_intros \<open>outcomes of composed computations\<close>

lemma outcome_Inr [outcome_intros]: "I x \<Longrightarrow> outcome E I (Inr x)"
  by (simp add: outcome_def)

lemma outcome_returns: "\<exists>x. r = Inr x \<and> I x \<Longrightarrow> outcome E I r"
  by (auto simp: outcome_def)

lemma outcome_bind: "outcome E I r \<Longrightarrow> (\<And>x. I x \<Longrightarrow> outcome E J (f x)) \<Longrightarrow> outcome E J (bindR r f)"
  by (cases r) (auto simp: outcome_def)

lemma outcome_keeps: "keeps I a \<Longrightarrow> I st \<Longrightarrow> outcome E I (a st)"
  by (auto simp: keeps_def outcome_def split: sum.splits)

lemma outcome_index: "i < length xs \<Longrightarrow> outcome E (\<lambda>x. x = xs ! i) (indexR xs i)"
  by (simp add: outcome_def indexR_def)

lemma outcome_foldR:
  "I s \<Longrightarrow> (\<And>s x. I s \<Longrightarrow> x \<in> set xs \<Longrightarrow> outcome E I (f s x)) \<Longrightarrow> outcome E I (foldR f s xs)"
proof (induction xs arbitrary: s)
  case (Cons x xs)
  have "outcome E I (bindR (f s x) (\<lambda>s'. foldR f s' xs))"
    by (rule outcome_bind [where I = I]) (use Cons in auto)
  then show ?case by simp
qed (simp add: outcome_def)

lemma outcome_mono: "outcome E I r \<Longrightarrow> (\<And>e. E e \<Longrightarrow> F e) \<Longrightarrow> outcome F I r"
  by (auto simp: outcome_def split: sum.splits)

text \<open>The same for actions, beside \<open>keeps\<close>.\<close>

definition allows :: "(py_error \<Rightarrow> bool) \<Rightarrow> (lint \<Rightarrow> bool) \<Rightarrow> act \<Rightarrow> bool" where
  "allows E I a \<longleftrightarrow> (\<forall>st. I st \<longrightarrow> outcome E I (a st))"

lemma allows_mono: "allows E I a \<Longrightarrow> (\<And>e. E e \<Longrightarrow> F e) \<Longrightarrow> allows F I a"
  by (auto simp: allows_def intro: outcome_mono)

lemma allowsD: "allows E I a \<Longrightarrow> I st \<Longrightarrow> outcome E I (a st)"
  by (simp add: allows_def)

lemma allows_keeps: "keeps I a \<Longrightarrow> allows E I a"
  by (simp add: allows_def outcome_keeps)

lemma allows_on_some: "(\<And>x. r = Some x \<Longrightarrow> allows E I (f x)) \<Longrightarrow> allows E I (on_some r f)"
  by (cases r) (auto simp: on_some_def intro: allows_keeps keeps_skip)

lemma withR_Inr: "withR (Inr x) f = f x"
  by (rule ext) (simp add: withR_def)

lemma seqA_Cons: "seqA (a # as) st = bindR (a st) (seqA as)"
proof -
  have "seqA as = (\<lambda>s. foldR (\<lambda>s a. a s) s as)" by (rule ext) (simp add: seqA_def)
  then show ?thesis by (simp add: seqA_def)
qed

lemma allows_seq_Cons: "allows E I a \<Longrightarrow> allows E I (seqA as) \<Longrightarrow> allows E I (seqA (a # as))"
  unfolding allows_def seqA_Cons by (blast intro: outcome_bind)

lemma allows_if: "(b \<Longrightarrow> allows E I a) \<Longrightarrow> (\<not> b \<Longrightarrow> allows E I c) \<Longrightarrow> allows E I (if b then a else c)"
  by simp

lemma allows_withR: "(\<And>e. r = Inl e \<Longrightarrow> E e) \<Longrightarrow> (\<And>x. r = Inr x \<Longrightarrow> allows E I (f x)) \<Longrightarrow> allows E I (withR r f)"
  by (cases r) (auto simp: allows_def withR_def outcome_def)

text \<open>An action that raises in every good state.\<close>

definition raises :: "py_error \<Rightarrow> (lint \<Rightarrow> bool) \<Rightarrow> act \<Rightarrow> bool" where
  "raises e I a \<longleftrightarrow> (\<forall>st. I st \<longrightarrow> a st = Inl e)"

lemma raisesD: "raises e I a \<Longrightarrow> I st \<Longrightarrow> a st = Inl e"
  by (simp add: raises_def)

lemma raises_withR_Inl: "r = Inl e \<Longrightarrow> raises e I (withR r f)"
  by (simp add: raises_def withR_def)

lemma raises_seq_hd: "raises e I a \<Longrightarrow> raises e I (seqA (a # as))"
  by (simp add: raises_def seqA_Cons)

lemma raises_seq_tl: "keeps I a \<Longrightarrow> raises e I (seqA as) \<Longrightarrow> raises e I (seqA (a # as))"
  by (auto simp: raises_def keeps_def seqA_Cons)

section \<open>What a line may do\<close>

text \<open>The two places where the linter reads past the end of a line or of an argument list.\<close>

definition overruns :: "string list \<Rightarrow> nat \<Rightarrow> bool" where
  "overruns elided l \<longleftrightarrow> cast_overrun elided l \<or> (\<exists>ns. ctor_overrun (elided ! l) ns)"

definition file_ok :: "(lint \<Rightarrow> bool) \<Rightarrow> cleansed_lines \<Rightarrow> file_state \<Rightarrow> bool" where
  "file_ok I cl st \<longleftrightarrow> I (f_lint st) \<and> inc_inv (f_include st) \<and> nest_ok (num_lines cl) (f_nesting st)"

text \<open>An array behind a conversion ends the check of casts early.\<close>

definition array_conversion :: "string list \<Rightarrow> nat \<Rightarrow> bool" where
  "array_conversion elided l \<longleftrightarrow>
     ExpectingFunctionArgs elided l = Inr False \<and>
     (case Search conversion_pattern (elided ! l) of None \<Rightarrow> False | Some m \<Rightarrow> MatchB ''`([^()]+`)`s*`['' (group0 m 3))"

definition file_overruns :: "handler \<Rightarrow> string \<Rightarrow> string list \<Rightarrow> bool" where
  "file_overruns error filename file \<longleftrightarrow>
     (\<exists>lst lst' lines cl l. RemoveMultiLineComments error filename (with_markers file) lst = Inr (lst', lines) \<and>
        CleansedLines lines = Inr cl \<and> l < num_lines cl \<and> overruns (cl_elided cl) l)"

lemma IsMacroDefinition_returns: "l < length lines \<Longrightarrow> \<exists>b. IsMacroDefinition lines l = Inr b"
  by (auto simp: IsMacroDefinition_def indexR_def)

lemma ShouldCheck_returns: "l < length lines \<Longrightarrow> \<exists>b. ShouldCheckNamespaceIndentation ns item lines l = Inr b"
  using IsMacroDefinition_returns [of l lines]
  by (auto simp: ShouldCheckNamespaceIndentation_def IsForwardClassDeclaration_def indexR_def)

text \<open>The contract of the error handler for a whole file: resetting and adding suppressions keeps the invariant.\<close>

locale file_sink = lint_sink +
  assumes reset_inv: "inv st \<Longrightarrow> inv (ResetNolintSuppressions st)"
    and global_inv: "inv st \<Longrightarrow> inv (suppress_globally cs st)"
begin

lemma global_suppressions_inv: "inv st \<Longrightarrow> inv (ProcessGlobalSuppresions lines st)"
  unfolding ProcessGlobalSuppresions_def
  by (induction lines arbitrary: st) (simp_all add: Let_def global_inv)

lemma keeps_NamespaceIndentation:
  "l < length (cl_elided cl) \<Longrightarrow> keeps inv (CheckForNamespaceIndentation error filename ns cl l)"
  unfolding CheckForNamespaceIndentation_def CheckItemIndentationInNamespace_def
  by (intro keeps_returns keeps_intros ShouldCheck_returns) simp_all

lemma keeps_Multiline:
  assumes "l < length elided"
  shows "keeps inv (CheckForMultilineCommentsAndStrings error filename elided l)"
  unfolding keeps_def
proof (intro allI impI)
  fix st assume i: "inv st"
  have r: "\<exists>s'. report_if b error (mk_diag filename (int l) c 5 m) s = Inr s' \<and> inv s'"
    if "inv s" "c \<in> set ERROR_CATEGORIES" for b c m s
    by (rule report_if_returns) (use that in simp_all)
  have r2: "\<exists>s'. bindR (report_if b error (mk_diag filename (int l) c 5 m) st)
      (report_if b' error (mk_diag filename (int l) c' 5 m')) = Inr s' \<and> inv s'"
    if "c \<in> set ERROR_CATEGORIES" "c' \<in> set ERROR_CATEGORIES" for b c m b' c' m'
    using r [OF i that(1)] r [OF _ that(2)] by (metis bindR_simps(2))
  show "\<exists>st'. CheckForMultilineCommentsAndStrings error filename elided l st = Inr st' \<and> inv st'"
    unfolding CheckForMultilineCommentsAndStrings_def using assms
    by (simp add: indexR_def Let_def r2 del: append.simps)
qed

lemma allows_address:
  assumes "l < length (cl_elided cl)"
  shows "allows (\<lambda>e. e = IndexError \<and> cast_overrun (cl_elided cl) l) inv (check_address error filename cl l)"
proof (cases "cast_overrun (cl_elided cl) l")
  case True
  then have "parenthesis_error (cl_elided cl) l (cl_elided cl ! l) = Inl IndexError"
    using parenthesis_error_result [OF assms] by simp
  with True assms show ?thesis unfolding check_address_def
    by (intro allows_withR allows_if) (auto simp: indexR_def intro: allows_keeps keeps_skip)
next
  case False
  then show ?thesis by (intro allows_keeps keeps_address assms)
qed

lemma allows_Casts:
  assumes "l < length (cl_elided cl)"
  shows "allows (\<lambda>e. e = IndexError \<and> cast_overrun (cl_elided cl) l) inv (CheckCasts error filename cl l)"
proof -
  obtain b where b: "ExpectingFunctionArgs (cl_elided cl) l = Inr b" using ExpectingFunctionArgs_returns [OF assms] by blast
  have line: "indexR (cl_elided cl) l = Inr (cl_elided cl ! l)" using assms by (simp add: indexR_def)
  show ?thesis unfolding CheckCasts_def Let_def b line
    by (intro allows_withR allows_if allows_seq_Cons allows_address assms;
        (intro allows_keeps keeps_intros keeps_CStyleCast assms)?) simp_all
qed

lemma allows_constructor:
  assumes "InnermostClass ns = Some b" "bkind b = ClassInfo c"
  shows "allows (\<lambda>e. e = IndexError \<and> ctor_overrun line ns) inv (check_constructor error filename l line b c)"
proof (cases "seen_open_brace b")
  case True
  obtain r where r: "re_compile (constructor_pattern (base_classname (ci_name c))) = Inr r"
    using constructor_compiles by blast
  have collapse: "allows (\<lambda>e. e = IndexError \<and> ctor_overrun line ns) inv
      (withR (collapse_args (constructor_args m)) (check_explicit error filename l name marked))"
    if "re_Match r line = Some m" for m name marked
  proof (rule allows_withR)
    fix e assume e: "collapse_args (constructor_args m) = Inl e"
    then show "e = IndexError \<and> ctor_overrun line ns"
      using assms True r that collapse_args_error [OF e] e collapse_args_Inl [of "constructor_args m"] by (auto simp: ctor_overrun_def)
  qed (intro allows_keeps keeps_explicit)
  show ?thesis unfolding check_constructor_def Let_def r withR_Inr using True
    by (simp add: allows_on_some collapse)
qed (simp add: check_constructor_def allows_keeps keeps_skip)

lemma allows_Constructs:
  assumes "l < length (cl_lines cl)" "l < length (cl_elided cl)"
  shows "allows (\<lambda>e. e = IndexError \<and> ctor_overrun (cl_elided cl ! l) ns) inv
    (CheckForNonStandardConstructs error filename cl l ns)"
proof (cases "ctor_overrun (cl_elided cl ! l) ns")
  case False
  then show ?thesis by (intro allows_keeps keeps_NonStandardConstructs assms)
next
  case True
  have c: "allows (\<lambda>e. e = IndexError \<and> ctor_overrun (cl_elided cl ! l) ns) inv
      (on_class ns (check_constructor error filename l (cl_elided cl ! l)))"
    unfolding on_class_def
    by (rule allows_on_some) (auto split: block_kind.split intro: allows_constructor allows_keeps keeps_skip)
  have r: "indexR (cl_lines cl) l = Inr (cl_lines cl ! l)" "indexR (cl_elided cl) l = Inr (cl_elided cl ! l)"
    using assms by (simp_all add: indexR_def)
  show ?thesis unfolding CheckForNonStandardConstructs_def r
    by (intro allows_withR) (auto intro!: allows_seq_Cons allows_keeps [OF keeps_onlyif] allows_keeps [OF keeps_seq_Nil] keeps_report c)
qed

lemma raises_Constructs:
  assumes "l < length (cl_lines cl)" "l < length (cl_elided cl)" "ctor_overrun (cl_elided cl ! l) ns"
  shows "raises IndexError inv (CheckForNonStandardConstructs error filename cl l ns)"
proof -
  let ?line = "cl_elided cl ! l"
  obtain b c r m e where b: "InnermostClass ns = Some b" "bkind b = ClassInfo c" "seen_open_brace b"
      "re_compile (constructor_pattern (base_classname (ci_name c))) = Inr r" "re_Match r ?line = Some m"
      "collapse_args (constructor_args m) = Inl e"
    using assms(3) by (auto simp: ctor_overrun_def collapse_args_Inl [symmetric] split: option.splits block_kind.splits sum.splits)
  then have "on_class ns (check_constructor error filename l ?line) = (\<lambda>st. Inl IndexError)"
    using collapse_args_error [OF b(6)]
    by (auto simp: on_class_def on_some_def check_constructor_def withR_def Let_def)
  then have ctor: "raises IndexError inv (on_class ns (check_constructor error filename l ?line))" by (simp add: raises_def)
  have r: "indexR (cl_lines cl) l = Inr (cl_lines cl ! l)" "indexR (cl_elided cl) l = Inr ?line"
    using assms by (simp_all add: indexR_def)
  show ?thesis unfolding CheckForNonStandardConstructs_def r withR_Inr
    by (intro raises_seq_tl [OF keeps_onlyif] raises_seq_hd [OF ctor] keeps_report) simp_all
qed

lemma raises_Casts:
  assumes "l < length (cl_elided cl)" "cast_overrun (cl_elided cl) l" "SearchB address_pattern (cl_elided cl ! l)"
    and "\<not> array_conversion (cl_elided cl) l"
  shows "raises IndexError inv (CheckCasts error filename cl l)"
proof -
  let ?line = "cl_elided cl ! l"
  obtain b where b: "ExpectingFunctionArgs (cl_elided cl) l = Inr b" using ExpectingFunctionArgs_returns [OF assms(1)] by blast
  have line: "indexR (cl_elided cl) l = Inr ?line" using assms(1) by (simp add: indexR_def)
  have "parenthesis_error (cl_elided cl) l ?line = Inl IndexError"
    using parenthesis_error_result [OF assms(1)] assms(2) by simp
  then have address: "raises IndexError inv (check_address error filename cl l)"
    using assms(3) by (simp add: check_address_def line withR_Inr raises_withR_Inl)
  have "\<not> (case if b then None else Search conversion_pattern ?line of None \<Rightarrow> False | Some m \<Rightarrow> MatchB ''`([^()]+`)`s*`['' (group0 m 3))"
    using assms(4) b by (auto simp: array_conversion_def split: option.splits)
  then show ?thesis unfolding CheckCasts_def Let_def b line withR_Inr
    by (simp only: if_False)
      (intro raises_seq_tl raises_seq_hd address keeps_CStyleCast keeps_onlyif keeps_on_some keeps_skip keeps_report assms(1); simp)
qed

lemma keeps_Casts_unless:
  assumes "l < length (cl_elided cl)"
    "\<not> (cast_overrun (cl_elided cl) l \<and> SearchB address_pattern (cl_elided cl ! l) \<and> \<not> array_conversion (cl_elided cl) l)"
  shows "keeps inv (CheckCasts error filename cl l)"
proof -
  let ?line = "cl_elided cl ! l"
  obtain b where b: "ExpectingFunctionArgs (cl_elided cl) l = Inr b" using ExpectingFunctionArgs_returns [OF assms(1)] by blast
  have line: "indexR (cl_elided cl) l = Inr ?line" using assms(1) by (simp add: indexR_def)
  consider (cast) "\<not> cast_overrun (cl_elided cl) l" | (address) "\<not> SearchB address_pattern ?line" | (array) "array_conversion (cl_elided cl) l"
    using assms(2) by blast
  then show ?thesis
  proof cases
    case cast
    then show ?thesis by (rule keeps_Casts [OF assms(1)])
  next
    case address
    then have "check_address error filename cl l = skip" by (simp add: check_address_def line withR_Inr)
    then show ?thesis unfolding CheckCasts_def Let_def b line withR_Inr
      by (intro keeps_if keeps_seq_Cons keeps_seq_Nil keeps_CStyleCast keeps_onlyif keeps_on_some keeps_skip keeps_report assms(1))
        (simp_all add: keeps_skip)
  next
    case array
    then have "b = False" using b by (simp add: array_conversion_def)
    with array show ?thesis unfolding CheckCasts_def Let_def b line withR_Inr
      by (auto simp: array_conversion_def keeps_skip split: option.splits)
  qed
qed

abbreviation overrun_error :: "cleansed_lines \<Rightarrow> nat \<Rightarrow> py_error \<Rightarrow> bool" where
  "overrun_error cl l \<equiv> \<lambda>e. e = IndexError \<and> overruns (cl_elided cl) l"

lemma allows_rest:
  assumes "cl_ok cl" "l < num_lines cl" "list_all (\<lambda>check_fn. keeps inv (check_fn filename cl l error)) extra"
  shows "allows (overrun_error cl l) inv (check_rest error filename cl l ns extra)"
proof -
  have len: "l < length (cl_elided cl)" "l < length (cl_lines cl)" using assms by (simp_all add: cl_ok_def)
  have ctor: "allows (overrun_error cl l) inv (CheckForNonStandardConstructs error filename cl l ns)"
    by (rule allows_mono [OF allows_Constructs [OF len(2,1)]]) (auto simp: overruns_def)
  have extra: "allows (overrun_error cl l) inv (seqA (map (\<lambda>check_fn. check_fn filename cl l error) extra))"
    using assms(3) by (intro allows_keeps keeps_seq) (auto simp: list_all_iff)
  show ?thesis unfolding check_rest_def append.simps
    by (intro allows_seq_Cons ctor extra allows_keeps keeps_NonConstReference keeps_VlogArguments
        keeps_PosixThreading keeps_InvalidIncrement keeps_MakePair keeps_RedundantVirtual
        keeps_RedundantOverrideOrFinal len assms(1,2))
qed

lemma allows_language:
  assumes "cl_ok cl" "l < num_lines cl"
  shows "allows (overrun_error cl l) inv (check_language error filename cl l file_extension line)"
proof -
  have len: "l < length (cl_elided cl)" using assms by (simp add: cl_ok_def)
  have casts: "allows (overrun_error cl l) inv (CheckCasts error filename cl l)"
    by (rule allows_mono [OF allows_Casts [OF len]]) (auto simp: overruns_def)
  show ?thesis unfolding check_language_def
    by (intro allows_seq_Cons [OF casts] allows_keeps keeps_seq_Cons keeps_seq_Nil keeps_GlobalStatic keeps_Printf
        keeps_format_string keeps_onlyif keeps_if keeps_on_some keeps_report len) simp_all
qed

lemma Language_outcome:
  assumes "cl_ok cl" "l < num_lines cl" "inv lst" "inc_inv inc"
  shows "outcome (overrun_error cl l) (\<lambda>(lst', inc'). inv lst' \<and> inc_inv inc')
           (CheckLanguage gl error filename cl l file_extension (lst, inc))"
proof -
  have len: "l < length (cl_elided cl)" "l < length (cl_lines cl)" using assms by (simp_all add: cl_ok_def)
  let ?line = "cl_elided cl ! l"
  let ?inc = "case Match ''^`s*#`s*(if|ifdef|ifndef|elif|else|endif)`b'' ?line of None \<Rightarrow> inc | Some m \<Rightarrow> ResetSection (group0 m 1) inc"
  have i: "inc_inv ?inc" using assms(4) by (auto split: option.split intro: inc_inv_ResetSection)
  have "outcome (overrun_error cl l) (\<lambda>(lst', inc'). inv lst' \<and> inc_inv inc')
      (bindR (check_language error filename cl l file_extension ?line lst) (\<lambda>lst'. Inr (lst', ?inc)))"
    by (rule outcome_bind [OF allowsD [OF allows_language [OF assms(1,2)] assms(3)]]) (use i in \<open>simp add: outcome_def\<close>)
  moreover have "outcome (overrun_error cl l) (\<lambda>(lst', inc'). inv lst' \<and> inc_inv inc')
      (CheckIncludeLine error filename repo s (cl_elided cl) (int l) (lst, inc))" for repo s
    using CheckIncludeLine_returns [OF assms(3,4), of "int l" "cl_elided cl"] len by (intro outcome_returns) auto
  ultimately show ?thesis using assms(3,4) len by (simp add: CheckLanguage_def indexR_def outcome_def Let_def)
qed

lemma keeps_obtain:
  assumes "keeps inv a" "inv st"
  obtains st' where "a st = Inr st'" "inv st'"
  using assms by (auto simp: keeps_def)

lemma ProcessLine_outcome:
  assumes "cl_ok cl" "l < num_lines cl" "file_ok inv cl st"
    and extra: "list_all (\<lambda>check_fn. keeps inv (check_fn filename cl l error)) extra"
  shows "outcome (overrun_error cl l) (file_ok inv cl) (ProcessLine gl error filename file_extension cl extra st l)"
proof -
  let ?n = "num_lines cl"
  have len: "l < length (cl_elided cl)" "l < length (cl_lines cl)" "l < length (raw_lines cl)"
    using assms(1,2) by (simp_all add: cl_ok_def)
  have st: "inv (f_lint st)" "inc_inv (f_include st)" "nest_ok ?n (f_nesting st)" using assms(3) by (simp_all add: file_ok_def)
  obtain lst1 where 1: "ParseNolintSuppressions error filename (raw_lines cl ! l) (int l) (f_lint st) = Inr lst1" "inv lst1"
    using nolint_returns [OF st(1)] by blast
  obtain ns lst2 where 2: "Update error filename cl l (f_nesting st, lst1) = Inr (ns, lst2)" "nest_ok ?n ns" "inv lst2"
    using Update_returns [OF assms(1,2) st(3) 1(2)] by blast
  obtain lst3 where 3: "CheckForNamespaceIndentation error filename ns cl l lst2 = Inr lst3" "inv lst3"
    using keeps_obtain [OF keeps_NamespaceIndentation [OF len(1)] 2(3)] by blast
  obtain lst4 fs where 4: "CheckForFunctionLengths error filename (cl_lines cl) l (lst3, f_function st) = Inr (lst4, fs)" "inv lst4"
    using CheckForFunctionLengths_returns [OF 3(2) inv_verbosity [OF 3(2)] len(2)] by blast
  obtain lst5 where 5: "CheckForMultilineCommentsAndStrings error filename (cl_elided cl) l lst4 = Inr lst5" "inv lst5"
    using keeps_obtain [OF keeps_Multiline [OF len(1)] 4(2)] by blast
  obtain lst6 where 6: "CheckStyle gl error filename cl l file_extension ns lst5 = Inr lst6" "inv lst6"
    using keeps_obtain [OF keeps_Style [OF assms(1,2) 2(2)] 5(2)] by blast
  have rest: "outcome (overrun_error cl l) (file_ok inv cl)
      (bindR (check_rest error filename cl l ns extra lst7)
        (\<lambda>lst8. Inr \<lparr>f_lint = lst8, f_include = inc, f_function = fs, f_nesting = ns\<rparr>))" if "inv lst7" "inc_inv inc" for lst7 inc
    by (rule outcome_bind [OF allowsD [OF allows_rest [OF assms(1,2) extra] that(1)]])
      (use that(2) 2(2) in \<open>simp_all add: outcome_def file_ok_def\<close>)
  have "outcome (overrun_error cl l) (file_ok inv cl)
      (bindR (CheckLanguage gl error filename cl l file_extension (lst6, f_include st)) (\<lambda>(lst7, inc).
        bindR (check_rest error filename cl l ns extra lst7)
          (\<lambda>lst8. Inr \<lparr>f_lint = lst8, f_include = inc, f_function = fs, f_nesting = ns\<rparr>)))"
    by (rule outcome_bind [OF Language_outcome [OF assms(1,2) 6(2) st(2)]]) (use rest in auto)
  then show ?thesis using 2(2) 3(2) st(2)
    by (simp add: ProcessLine_def indexR_def len 1(1) 2(1) 3(1) 4(1) 5(1) 6(1)) (simp add: outcome_def file_ok_def)
qed

text \<open>The exception of a file: \<open>IndexError\<close>, for an overrun on one of its lines.\<close>

lemma process_lines_outcome:
  assumes "cl_ok cl" "file_ok inv cl st"
    and extra: "\<And>l. l < num_lines cl \<Longrightarrow> list_all (\<lambda>check_fn. keeps inv (check_fn filename cl l error)) extra"
  shows "outcome (\<lambda>e. e = IndexError \<and> (\<exists>l < num_lines cl. overruns (cl_elided cl) l)) (file_ok inv cl)
           (process_lines gl error filename file_extension cl extra st)"
  unfolding process_lines_def
proof (rule outcome_foldR [where I = "file_ok inv cl", OF assms(2)])
  fix st l assume st: "file_ok inv cl st" and "l \<in> set [0 ..< num_lines cl]"
  then have l: "l < num_lines cl" "l < length (cl_elided cl)" using assms(1) by (simp_all add: cl_ok_def)
  have flag: "outcome E (file_ok inv cl) (bindR (FlagCxx11Features error filename cl l (f_lint st1)) (\<lambda>lst. Inr (st1\<lparr>f_lint := lst\<rparr>)))"
    if "file_ok inv cl st1" for E st1
    by (rule outcome_bind [OF outcome_keeps [OF keeps_Cxx11 [OF l(2)]]]) (use that in \<open>simp_all add: file_ok_def outcome_def\<close>)
  have line: "outcome (\<lambda>e. e = IndexError \<and> (\<exists>l < num_lines cl. overruns (cl_elided cl) l)) (file_ok inv cl)
      (ProcessLine gl error filename file_extension cl extra st l)"
    by (rule outcome_mono [OF ProcessLine_outcome [OF assms(1) l(1) st extra [OF l(1)]]]) (use l in auto)
  show "outcome (\<lambda>e. e = IndexError \<and> (\<exists>l < num_lines cl. overruns (cl_elided cl) l)) (file_ok inv cl)
      (bindR (ProcessLine gl error filename file_extension cl extra st l) (\<lambda>st1.
       bindR (FlagCxx11Features error filename cl l (f_lint st1)) (\<lambda>lst. Inr (st1\<lparr>f_lint := lst\<rparr>))))"
    by (rule outcome_bind [OF line]) (rule flag)
qed

lemma keeps_HeaderFileIncluded: "keeps inv (CheckHeaderFileIncluded error ex rn filename inc)"
  unfolding keeps_def CheckHeaderFileIncluded_def Let_def
  using error_returns by (auto split: option.split)

lemma ProcessFileData_outcome:
  assumes "inv lst" "\<And>ks. set (key_order gl ks) \<subseteq> set ks"
    and extra: "\<And>cl l. cl_ok cl \<Longrightarrow> l < num_lines cl \<Longrightarrow> list_all (\<lambda>check_fn. keeps inv (check_fn filename cl l error)) extra"
  shows "outcome (\<lambda>e. e = IndexError \<and> file_overruns error filename file) inv
           (ProcessFileData gl error filename file_extension file extra lst)"
proof -
  let ?lines = "with_markers file"
  obtain lst1 where 1: "CheckForCopyright error filename ?lines (ResetNolintSuppressions lst) = Inr lst1" "inv lst1"
    using CheckForCopyright_returns [OF reset_inv [OF assms(1)]] by blast
  obtain lst2 lines where 2: "RemoveMultiLineComments error filename ?lines (ProcessGlobalSuppresions ?lines lst1) = Inr (lst2, lines)" "inv lst2"
    using remove_comments_returns [OF global_suppressions_inv [OF 1(2)]] by (metis RemoveMultiLineComments_def)
  obtain cl where cl: "CleansedLines lines = Inr cl" "cl_ok cl"
    using CleansedLines_returns [of lines] by (auto simp: cl_ok_def)
  obtain lst3 where 3: "(if file_extension = ''h''
      then CheckForHeaderGuard error (repository_name gl) (root gl) filename (lines_without_raw_strings cl) lst2
      else Inr lst2) = Inr lst3" "inv lst3"
    using CheckForHeaderGuard_returns [OF 2(2)] 2(2) by (cases "file_extension = ''h''") (simp_all, blast)
  let ?st = "\<lparr>f_lint = lst3, f_include = IncludeState_init, f_function = FunctionState_init, f_nesting = NestingState_init\<rparr>"
  have "file_ok inv cl ?st" using 3(2) by (simp add: file_ok_def inc_inv_def IncludeState_init_def ResetSection_def)
  note lines = process_lines_outcome [OF cl(2) this extra [OF cl(2)], where gl = gl and file_extension = file_extension]
  have over: "file_overruns error filename file" if "l < num_lines cl" "overruns (cl_elided cl) l" for l
    unfolding file_overruns_def using 2(1) cl(1) that by blast
  have last: "keeps inv (seqA
      [CheckCompletedBlocks error filename (f_nesting st), CheckForIncludeWhatYouUse gl error filename cl (f_include st),
       if IsSourceExtension file_extension
       then CheckHeaderFileIncluded error (path_exists gl) (repository_name gl) filename (f_include st) else skip,
       CheckForBadCharacters error (replacement gl) filename lines, CheckForNewlineAtEOF error filename lines])" for st
    using CheckForBadCharacters_returns CheckForNewlineAtEOF_returns
    by (intro keeps_seq_Cons keeps_seq_Nil keeps_CompletedBlocks keeps_IWYU keeps_if keeps_HeaderFileIncluded keeps_skip assms(2))
      (auto simp: keeps_def)
  have "outcome (\<lambda>e. e = IndexError \<and> file_overruns error filename file) (file_ok inv cl)
      (process_lines gl error filename file_extension cl extra ?st)"
    by (rule outcome_mono [OF lines]) (use over in auto)
  then show ?thesis unfolding ProcessFileData_def Let_def 1(1) 2(1) bindR_simps prod.case cl(1) 3(1)
    by (rule outcome_bind) (rule outcome_keeps [OF last], simp add: file_ok_def)
qed

end

lemma suppress_globally_state [simp]:
  "cpp_state (suppress_globally cs st) = cpp_state st" "stderr (suppress_globally cs st) = stderr st"
  unfolding suppress_globally_def by (induction cs arbitrary: st) simp_all

lemma lint_ok_resets: "lint_ok st \<Longrightarrow> lint_ok (ResetNolintSuppressions st)" "lint_ok st \<Longrightarrow> lint_ok (suppress_globally cs st)"
  by (simp_all add: lint_ok_def filters_valid_def ResetNolintSuppressions_def)

text \<open>What linting does to the state of the program: it appends one line to \<open>stderr\<close> per counted error and
  leaves the settings alone.\<close>

definition same_settings :: "cpplint_state \<Rightarrow> cpplint_state \<Rightarrow> bool" where
  "same_settings a b \<longleftrightarrow> verbose_level a = verbose_level b \<and> filters a = filters b \<and>
     filters_backup a = filters_backup b \<and> counting a = counting b \<and> output_format a = output_format b"

definition reported_since :: "lint \<Rightarrow> lint \<Rightarrow> bool" where
  "reported_since st0 st \<longleftrightarrow> same_settings (cpp_state st0) (cpp_state st) \<and>
     (\<exists>ds. list_all valid_diag ds \<and> stderr st = stderr st0 @ map (format_error (output_format (cpp_state st0))) ds \<and>
        error_count (cpp_state st) = error_count (cpp_state st0) + length ds)"

lemma reported_since_refl: "reported_since st st"
  by (simp add: reported_since_def same_settings_def)

lemma IncrementErrorCount_settings: "same_settings a b \<Longrightarrow> same_settings a (IncrementErrorCount c b)"
  by (auto simp: same_settings_def IncrementErrorCount_def Let_def)

lemma error_count_Increment [simp]: "error_count (IncrementErrorCount c st) = error_count st + 1"
  by (simp add: IncrementErrorCount_def Let_def)

lemma Error_reported:
  assumes "lint_ok st" "reported_since st0 st" "valid_diag d"
  shows "\<exists>st'. Error st d = Inr st' \<and> lint_ok st' \<and> reported_since st0 st'"
proof -
  obtain st' where e: "Error st d = Inr st'" "lint_ok st'" using Error_lint_ok [OF assms(1)] by blast
  obtain ds where ds: "list_all valid_diag ds" "stderr st = stderr st0 @ map (format_error (output_format (cpp_state st0))) ds"
      "error_count (cpp_state st) = error_count (cpp_state st0) + length ds" and s: "same_settings (cpp_state st0) (cpp_state st)"
    using assms(2) by (auto simp: reported_since_def)
  have f: "output_format (IncrementErrorCount c (cpp_state st)) = output_format (cpp_state st0)" for c
    using IncrementErrorCount_settings [OF s, of c] by (simp add: same_settings_def)
  have "st' = st \<or> st' = st\<lparr>cpp_state := IncrementErrorCount (d_category d) (cpp_state st),
      stderr := stderr st @ [format_error (output_format (cpp_state st0)) d]\<rparr>"
    using e(1) by (auto simp: Error_def bindR_Inr_iff Let_def f split: if_splits)
  then have "reported_since st0 st'"
  proof
    assume "st' = st\<lparr>cpp_state := IncrementErrorCount (d_category d) (cpp_state st),
        stderr := stderr st @ [format_error (output_format (cpp_state st0)) d]\<rparr>"
    then show ?thesis using ds assms(3) IncrementErrorCount_settings [OF s]
      by (auto simp: reported_since_def intro!: exI [of _ "ds @ [d]"])
  qed (use assms(2) in simp)
  with e show ?thesis by blast
qed

interpretation file_reported: file_sink Error "\<lambda>st. lint_ok st \<and> reported_since st0 st" for st0
proof unfold_locales
  fix st d assume "lint_ok st \<and> reported_since st0 st" "valid_diag d"
  then show "\<exists>st'. Error st d = Inr st' \<and> lint_ok st' \<and> reported_since st0 st'" using Error_reported by blast
next
  fix st category linenum assume "lint_ok st \<and> reported_since st0 st"
  then show "lint_ok (suppress category linenum st) \<and> reported_since st0 (suppress category linenum st)"
    by (simp add: lint_ok_def filters_valid_def suppress_def reported_since_def)
next
  fix st assume "lint_ok st \<and> reported_since st0 st"
  then show "0 \<le> verbose_level (cpp_state st)" by (simp add: lint_ok_def)
next
  fix st assume "lint_ok st \<and> reported_since st0 st"
  then show "lint_ok (ResetNolintSuppressions st) \<and> reported_since st0 (ResetNolintSuppressions st)"
    by (simp add: lint_ok_resets(1)) (simp add: reported_since_def ResetNolintSuppressions_def)
next
  fix st cs assume "lint_ok st \<and> reported_since st0 st"
  then show "lint_ok (suppress_globally cs st) \<and> reported_since st0 (suppress_globally cs st)"
    by (simp add: lint_ok_resets(2)) (simp add: reported_since_def)
qed

interpretation file_documented: file_sink Error_documented lint_ok
  by unfold_locales (fact lint_ok_resets)+

section \<open>Properties\<close>

text \<open>C4: Linting the lines of a file with the real error handler either returns or raises \<open>IndexError\<close>, and it raises only
  when a line of the file ends in the type of a cast whose address is taken or declares a constructor whose
  arguments leave a bracket open. When it returns, what has been written to \<open>stderr\<close> is one line for each counted error,
  made from a report with a documented category and a confidence from 0 to 5, and the settings of the linter are as before. The filters must be accepted ones and the
  verbosity not negative; \<open>key_order\<close>, the iteration over a dict, gives keys of the dict; extra checks given by a caller
  keep to the same rules.\<close>

theorem ProcessFileData_safe:
  assumes "lint_ok lst" "\<And>ks. set (key_order gl ks) \<subseteq> set ks"
    and "\<And>cl l. cl_ok cl \<Longrightarrow> l < num_lines cl \<Longrightarrow>
           list_all (\<lambda>check_fn. keeps (\<lambda>st. lint_ok st \<and> reported_since lst st) (check_fn filename cl l Error)) extra"
  shows "(\<exists>lst'. ProcessFileData gl Error filename file_extension file extra lst = Inr lst' \<and>
            lint_ok lst' \<and> reported_since lst lst') \<or>
         (ProcessFileData gl Error filename file_extension file extra lst = Inl IndexError \<and>
          file_overruns Error filename file)"
proof -
  have "outcome (\<lambda>e. e = IndexError \<and> file_overruns Error filename file) (\<lambda>st. lint_ok st \<and> reported_since lst st)
      (ProcessFileData gl Error filename file_extension file extra lst)"
    by (rule file_reported.ProcessFileData_outcome) (use assms reported_since_refl in auto)
  then show ?thesis by (auto simp: outcome_def split: sum.splits)
qed

theorem ProcessFileData_safe_witness:
  "(\<exists>lst'. ProcessFileData \<lparr>line_length = 80, root = None, repository_name = id, full_name = id,
        path_exists = \<lambda>_. False, file_lines = \<lambda>_. None, key_order = id, replacement = ''?'', unicode = None\<rparr>
        Error ''a.cc'' ''cc'' [''int x;'', []] [] lint_init = Inr lst' \<and> lint_ok lst' \<and> reported_since lint_init lst') \<or>
   (ProcessFileData \<lparr>line_length = 80, root = None, repository_name = id, full_name = id,
        path_exists = \<lambda>_. False, file_lines = \<lambda>_. None, key_order = id, replacement = ''?'', unicode = None\<rparr>
        Error ''a.cc'' ''cc'' [''int x;'', []] [] lint_init = Inl IndexError \<and>
    file_overruns Error ''a.cc'' [''int x;'', []])"
  by (rule ProcessFileData_safe) (code_simp, simp_all)

text \<open>Every report that linting a file makes is documented: its category is in the list the linter prints, and its
  confidence lies between 0 and 5. A handler that refuses other reports with \<open>AssertionError\<close> is never seen to do so.\<close>

theorem ProcessFileData_documented:
  assumes "lint_ok lst" "\<And>ks. set (key_order gl ks) \<subseteq> set ks"
  shows "ProcessFileData gl Error_documented filename file_extension file [] lst \<noteq> Inl AssertionError"
proof -
  have "outcome (\<lambda>e. e = IndexError \<and> file_overruns Error_documented filename file) lint_ok
      (ProcessFileData gl Error_documented filename file_extension file [] lst)"
    by (rule file_documented.ProcessFileData_outcome) (use assms in auto)
  then show ?thesis by (auto simp: outcome_def)
qed

theorem ProcessFileData_documented_witness:
  "ProcessFileData \<lparr>line_length = 80, root = None, repository_name = id, full_name = id,
      path_exists = \<lambda>_. False, file_lines = \<lambda>_. None, key_order = id, replacement = ''?'', unicode = None\<rparr>
      Error_documented ''a.h'' ''h'' [''class A {''] [] lint_init \<noteq> Inl AssertionError"
  by (rule ProcessFileData_documented) (code_simp, simp_all)

text \<open>C21: \<open>CheckForNonStandardConstructs\<close> raises \<open>IndexError\<close> exactly when the line declares a constructor of the innermost class
  and its arguments leave a bracket open: the list, cut at the commas, is divided from the left into the shortest runs
  with at least as many closing as opening angle brackets and parentheses, and what follows the last run, if anything,
  is never closed, as in \<open>Foo(int a = 1 < 2);\<close>. On all other lines it returns.\<close>

theorem constructor_overrun:
  assumes "l < length (cl_lines cl)" "l < length (cl_elided cl)" "lint_ok st"
  shows "if ctor_overrun (cl_elided cl ! l) ns
         then CheckForNonStandardConstructs Error filename cl l ns st = Inl IndexError
         else \<exists>st'. CheckForNonStandardConstructs Error filename cl l ns st = Inr st' \<and> lint_ok st'"
proof -
  have st: "lint_ok st \<and> reported_since st st" using assms(3) reported_since_refl by blast
  show ?thesis
    using raisesD [OF file_reported.raises_Constructs [OF assms(1,2)] st]
      file_reported.keeps_NonStandardConstructs [OF assms(1,2)] st
    unfolding keeps_def by (metis (lifting))
qed

theorem constructor_overrun_witness:
  "CheckForNonStandardConstructs Error ''a.cc'' (plain_cleansed [''class Foo {'', ''  Foo(int a = 1 < 2);'']) 1
     (push_block 0 True (ClassInfo \<lparr>ci_name = ''Foo'', is_derived = False, ci_access = ''private'', is_struct = False,
        class_indent = 0, last_line = 0\<rparr>) NestingState_init) lint_init = Inl IndexError"
proof -
  let ?cl = "plain_cleansed [''class Foo {'', ''  Foo(int a = 1 < 2);'']"
  let ?ns = "push_block 0 True (ClassInfo \<lparr>ci_name = ''Foo'', is_derived = False, ci_access = ''private'', is_struct = False,
        class_indent = 0, last_line = 0\<rparr>) NestingState_init"
  have "lint_ok lint_init" by code_simp
  moreover have "ctor_overrun (cl_elided ?cl ! 1) ?ns" by code_simp
  ultimately show ?thesis using constructor_overrun [of 1 ?cl lint_init ?ns] by (simp add: plain_cleansed_def)
qed

text \<open>C22: \<open>CheckCasts\<close> raises \<open>IndexError\<close> exactly on lines with three properties: the line matches the pattern of a cast whose
  address is taken; it has such a cast by name (\<open>&static_cast<\<close>, \<open>dynamic\<close>, \<open>down\<close>, \<open>reinterpret\<close>) for whose last
  occurrence the closing bracket of the type is the last character of its line; and it is not a line that the check leaves before, at a
  conversion followed by an array where no function arguments are expected. On all other lines it returns.\<close>

theorem cast_address_overrun:
  assumes "l < length (cl_elided cl)" "lint_ok st"
  shows "if cast_overrun (cl_elided cl) l \<and> SearchB address_pattern (cl_elided cl ! l) \<and> \<not> array_conversion (cl_elided cl) l
         then CheckCasts Error filename cl l st = Inl IndexError
         else \<exists>st'. CheckCasts Error filename cl l st = Inr st' \<and> lint_ok st'"
proof -
  have st: "lint_ok st \<and> reported_since st st" using assms(2) reported_since_refl by blast
  show ?thesis
    using raisesD [OF file_reported.raises_Casts [OF assms(1)] st]
      file_reported.keeps_Casts_unless [OF assms(1)] st
    unfolding keeps_def by (metis (lifting))
qed

theorem cast_address_overrun_witness:
  "CheckCasts Error ''a.cc'' (plain_cleansed [''  p = &static_cast<T*>'', ''      (q)->r;'']) 0 lint_init = Inl IndexError"
proof -
  let ?cl = "plain_cleansed [''  p = &static_cast<T*>'', ''      (q)->r;'']"
  have "lint_ok lint_init" by code_simp
  moreover have "cast_overrun (cl_elided ?cl) 0" by code_simp
  moreover have "SearchB address_pattern (cl_elided ?cl ! 0)" by code_simp
  moreover have "\<not> array_conversion (cl_elided ?cl) 0" by code_simp
  ultimately show ?thesis using cast_address_overrun [of 0 ?cl lint_init] by (simp add: plain_cleansed_def)
qed

end
