(* ===== verification/Lint_Options.thy ===== *)
theory Lint_Options
  imports Lint_Process
begin

text \<open>
  The command line of \<open>cpplint.py\<close>: the state of the module that options and configuration files change,
  \<open>PrintUsage\<close>, \<open>PrintCategories\<close>, \<open>ParseArguments\<close>, and \<open>getopt.getopt\<close> of Python for long options. \<open>sys.exit\<close> and an
  exception that nothing catches end the run; both are values of \<open>run\<close>. Shown: options that are written are read back,
  and what \<open>ParseArguments\<close> hands on is well-formed.
\<close>

section \<open>The state of the module\<close>

text \<open>\<open>_line_length\<close>, \<open>_root\<close>, \<open>_valid_extensions\<close> (a set, as a list without repetitions), the state of the linter with what was
  written to \<open>stderr\<close>, and the text that standard input still holds.\<close>

record program =
  p_lint :: lint
  p_line_length :: int
  p_root :: "string option"
  p_extensions :: "string list"
  p_stdin :: string

definition program_init :: "string \<Rightarrow> program" where
  "program_init input =
     \<lparr>p_lint = lint_init, p_line_length = 80, p_root = None,
      p_extensions = [''cc'', ''h'', ''cpp'', ''cu'', ''cuh''], p_stdin = input\<rparr>"

definition set_cpp :: "cpplint_state \<Rightarrow> program \<Rightarrow> program" where
  "set_cpp c p = p\<lparr>p_lint := (p_lint p)\<lparr>cpp_state := c\<rparr>\<rparr>"

definition write_err :: "string \<Rightarrow> program \<Rightarrow> program" where
  "write_err s p = p\<lparr>p_lint := (p_lint p)\<lparr>stderr := stderr (p_lint p) @ [s]\<rparr>\<rparr>"

text \<open>The end of a run: an exit with what is on \<open>stderr\<close> and a status, or an exception.\<close>

datatype run = Exited "string list" int | Crashed py_error

definition crashing :: "'a res \<Rightarrow> run + 'a" where
  "crashing r = (case r of Inl e \<Rightarrow> Inl (Crashed e) | Inr x \<Rightarrow> Inr x)"

lemma crashing_simps [simp]: "crashing (Inl e) = Inl (Crashed e)" "crashing (Inr x) = Inr x"
  by (simp_all add: crashing_def)

section \<open>Messages\<close>

definition USAGE :: string where
  \<open>USAGE = join_lines
    [[],
     ''Syntax: cpplint.py [--verbose=#] [--output=vs7] [--filter=-x,+y,...]'',
     ''                   [--counting=total|toplevel|detailed] [--root=subdir]'',
     ''                   [--linelength=digits]'',
     ''        <file> [file] ...'',
     [],
     ''  The style guidelines this tries to follow are those in'',
     ''    https://google-styleguide.googlecode.com/svn/trunk/cppguide.xml'',
     [],
     ''  Every problem is given a confidence score from 1-5, with 5 meaning we are'',
     ''  certain of the problem, and 1 meaning it could be a legitimate construct.'',
     ''  This will miss some errors, and is not a substitute for a code review.'',
     [],
     ''  To suppress false-positive errors of a certain category, add a'',
     ''  'NOLINT(category)' comment to the line.  NOLINT or NOLINT(*)'',
     ''  suppresses errors of all categories on that line.'',
     [],
     ''  The files passed in will be linted; at least one file must be provided.'',
     ''  Default linted extensions are .cc, .cpp, .cu, .cuh and .h.  Change the'',
     ''  extensions with the --extensions flag.'',
     [],
     ''  Flags:'',
     [],
     ''    output=vs7'',
     ''      By default, the output is formatted to ease emacs parsing.  Visual Studio'',
     ''      compatible output (vs7) may also be used.  Other formats are unsupported.'',
     [],
     ''    verbose=#'',
     ''      Specify a number 0-5 to restrict errors to certain verbosity levels.'',
     [],
     ''    filter=-x,+y,...'',
     ''      Specify a comma-separated list of category-filters to apply: only'',
     ''      error messages whose category names pass the filters will be printed.'',
     ''      (Category names are printed with the message and look like'',
     ''      "[whitespace/indent]".)  Filters are evaluated left to right.'',
     ''      "-FOO" and "FOO" means "do not print categories that start with FOO".'',
     ''      "+FOO" means "do print categories that start with FOO".'',
     [],
     ''      Examples: --filter=-whitespace,+whitespace/braces'',
     ''                --filter=whitespace,runtime/printf,+runtime/printf_format'',
     ''                --filter=-,+build/include_what_you_use'',
     [],
     ''      To see a list of all the categories used in cpplint, pass no arg:'',
     ''         --filter='',
     [],
     ''    counting=total|toplevel|detailed'',
     ''      The total number of errors found is always printed. If'',
     ''      'toplevel' is provided, then the count of errors in each of'',
     ''      the top-level categories like 'build' and 'whitespace' will'',
     ''      also be printed. If 'detailed' is provided, then a count'',
     ''      is provided for each category like 'build/class'.'',
     [],
     ''    root=subdir'',
     ''      The root directory used for deriving header guard CPP variable.'',
     ''      By default, the header guard CPP variable is calculated as the relative'',
     ''      path to the directory that contains .git, .hg, or .svn.  When this flag'',
     ''      is specified, the relative path is calculated from the specified'',
     ''      directory. If the specified directory does not exist, this flag is'',
     ''      ignored.'',
     [],
     ''      Examples:'',
     ''        Assuming that src/.git exists, the header guard CPP variables for'',
     ''        src/chrome/browser/ui/browser.h are:'',
     [],
     ''        No flag => CHROME_BROWSER_UI_BROWSER_H_'',
     ''        --root=chrome => BROWSER_UI_BROWSER_H_'',
     ''        --root=chrome/browser => UI_BROWSER_H_'',
     [],
     ''    linelength=digits'',
     ''      This is the allowed line length for the project. The default value is'',
     ''      80 characters.'',
     [],
     ''      Examples:'',
     ''        --linelength=120'',
     [],
     ''    extensions=extension,extension,...'',
     ''      The allowed file extensions that cpplint will check'',
     [],
     ''      Examples:'',
     ''        --extensions=hpp,cpp'',
     [],
     ''    cpplint.py supports per-directory configurations specified in CPPLINT.cfg'',
     ''    files. CPPLINT.cfg file can contain a number of key=value pairs.'',
     ''    Currently the following options are supported:'',
     [],
     ''      set noparent'',
     ''      filter=+filter1,-filter2,...'',
     ''      exclude_files=regex'',
     ''      linelength=80'',
     ''      root=subdir'',
     [],
     ''    "set noparent" option prevents cpplint from traversing directory tree'',
     ''    upwards looking for more .cfg files in parent directories. This option'',
     ''    is usually placed in the top-level project directory.'',
     [],
     ''    The "filter" option is similar in function to --filter flag. It specifies'',
     ''    message filters in addition to the |_DEFAULT_FILTERS| and those specified'',
     ''    through --filter command-line flag.'',
     [],
     ''    "exclude_files" allows to specify a regular expression to be matched against'',
     ''    a file name. If the expression matches, the file is skipped and not run'',
     ''    through liner.'',
     [],
     ''    "linelength" allows to specify the allowed line length for the project.'',
     [],
     ''    The "root" option is similar in function to the --root flag (see example'',
     ''    above).'',
     [],
     ''    CPPLINT.cfg has an effect on files in the same directory and all'',
     ''    sub-directories, unless overridden by a nested configuration file.'',
     [],
     ''      Example file:'',
     ''        filter=-build/include_order,+build/include_alpha'',
     unquote ''        exclude_files=.*`.cc'',
     [],
     ''    The above example disables build/include_order warning and enables'',
     ''    build/include_alpha as well as excludes all .cc from being'',
     ''    processed by linter, in the current directory (where the .cfg'',
     ''    file is located) and all sub-directories.'',
     []]\<close>

text \<open>\<open>sys.exit\<close> with a text writes it to \<open>stderr\<close> with a newline and exits with status 1.\<close>

definition PrintUsage :: "string option \<Rightarrow> program \<Rightarrow> run" where
  "PrintUsage message p =
     (let err = stderr (p_lint p) @ [USAGE]
      in case message of
           None \<Rightarrow> Exited err 1
         | Some m \<Rightarrow> if m = [] then Exited err 1 else Exited (err @ [newline # ''FATAL ERROR: '' @ m @ [newline]]) 1)"

definition PrintCategories :: "program \<Rightarrow> run" where
  "PrintCategories p =
     Exited (stderr (p_lint p) @ [concat (map (\<lambda>cat. ''  '' @ cat @ [newline]) ERROR_CATEGORIES)]) 0"

section \<open>Integers\<close>

text \<open>\<open>int(s)\<close>: digits with an optional sign, blanks around them; \<open>None\<close> for \<open>ValueError\<close>.\<close>

definition digits_value :: "string \<Rightarrow> nat" where
  "digits_value ds = foldl (\<lambda>n c. 10 * n + (of_char c - 48)) 0 ds"

definition py_int :: "string \<Rightarrow> int option" where
  "py_int s =
     (let t = py_strip s;
          ds = (if py_startswith t ''-'' \<or> py_startswith t ''+'' then drop 1 t else t)
      in if ds \<noteq> [] \<and> list_all is_digit ds
         then Some (if py_startswith t ''-'' then - int (digits_value ds) else int (digits_value ds))
         else None)"

section \<open>getopt\<close>

definition LONG_OPTIONS :: "string list" where
  "LONG_OPTIONS =
     [''help'', ''output='', ''verbose='', ''counting='', ''filter='', ''root='', ''linelength='', ''extensions='']"

text \<open>An option may be cut short as long as it stays unique. \<open>None\<close> stands for \<open>GetoptError\<close>.\<close>

definition long_has_args :: "string \<Rightarrow> (bool \<times> string) option" where
  "long_has_args opt =
     (let possibilities = filter (\<lambda>o'. py_startswith o' opt) LONG_OPTIONS
      in if opt \<in> set possibilities then Some (False, opt)
         else if (opt @ ''='') \<in> set possibilities then Some (True, opt)
         else case possibilities of
           [u] \<Rightarrow> Some (if py_endswith u ''='' then (True, butlast u) else (False, u))
         | _ \<Rightarrow> None)"

definition split_arg :: "string \<Rightarrow> string \<times> string option" where
  "split_arg opt =
     (case find_at ''='' opt 0 of None \<Rightarrow> (opt, None) | Some i \<Rightarrow> (take i opt, Some (drop (i + 1) opt)))"

definition do_longs :: "string \<Rightarrow> string list \<Rightarrow> ((string \<times> string) \<times> string list) option" where
  "do_longs opt args =
     (let (name, optarg) = split_arg opt
      in case long_has_args name of
           None \<Rightarrow> None
         | Some (True, full) \<Rightarrow>
             (case optarg of
                Some v \<Rightarrow> Some ((''--'' @ full, v), args)
              | None \<Rightarrow> (case args of [] \<Rightarrow> None | v # rest \<Rightarrow> Some ((''--'' @ full, v), rest)))
         | Some (False, full) \<Rightarrow>
             (case optarg of Some v \<Rightarrow> None | None \<Rightarrow> Some ((''--'' @ full, []), args)))"

lemma do_longs_shorter: "do_longs opt args = Some (x, rest) \<Longrightarrow> length rest \<le> length args"
  by (auto simp: do_longs_def split: prod.splits option.splits bool.splits list.splits)

text \<open>There are no short options, so a single dash is an error, except for the file name \<open>-\<close>.\<close>

function getopt :: "string list \<Rightarrow> ((string \<times> string) list \<times> string list) option" where
  "getopt [] = Some ([], [])"
| "getopt (a # args) =
     (if \<not> py_startswith a ''-'' \<or> a = ''-'' then Some ([], a # args)
      else if a = ''--'' then Some ([], args)
      else if py_startswith a ''--'' then
        (case do_longs (drop 2 a) args of
           None \<Rightarrow> None
         | Some (opt, rest) \<Rightarrow> map_option (\<lambda>(opts, files). (opt # opts, files)) (getopt rest))
      else None)"
  by pat_completeness auto
termination
  by (relation "measure length") (auto dest: do_longs_shorter)

section \<open>ParseArguments\<close>

record options =
  o_verbosity :: int
  o_output_format :: string
  o_filters :: string
  o_counting_style :: string
  o_program :: program

definition apply_option :: "options \<Rightarrow> string \<times> string \<Rightarrow> run + options" where
  "apply_option o' = (\<lambda>(opt, val).
     let p = o_program o'
     in if opt = ''--help'' then Inl (PrintUsage None p)
        else if opt = ''--output'' then
          (if val \<notin> {''emacs'', ''vs7'', ''eclipse''}
           then Inl (PrintUsage (Some ''The only allowed output formats are emacs, vs7 and eclipse.'') p)
           else Inr (o'\<lparr>o_output_format := val\<rparr>))
        else if opt = ''--verbose'' then
          (case py_int val of None \<Rightarrow> Inl (Crashed ValueError) | Some n \<Rightarrow> Inr (o'\<lparr>o_verbosity := n\<rparr>))
        else if opt = ''--filter'' then
          (if val = [] then Inl (PrintCategories p) else Inr (o'\<lparr>o_filters := val\<rparr>))
        else if opt = ''--counting'' then
          (if val \<notin> {''total'', ''toplevel'', ''detailed''}
           then Inl (PrintUsage (Some ''Valid counting options are total, toplevel, and detailed'') p)
           else Inr (o'\<lparr>o_counting_style := val\<rparr>))
        else if opt = ''--root'' then Inr (o'\<lparr>o_program := p\<lparr>p_root := Some val\<rparr>\<rparr>)
        else if opt = ''--linelength'' then
          (case py_int val of
             None \<Rightarrow> Inl (PrintUsage (Some ''Line length must be digits.'') p)
           | Some n \<Rightarrow> Inr (o'\<lparr>o_program := p\<lparr>p_line_length := n\<rparr>\<rparr>))
        else if opt = ''--extensions'' then
          Inr (o'\<lparr>o_program := p\<lparr>p_extensions := remdups (py_split '','' val)\<rparr>\<rparr>)
        else Inr o')"

definition ParseArguments :: "string list \<Rightarrow> program \<Rightarrow> run + (string list \<times> program)" where
  "ParseArguments args p =
     (case getopt args of
        None \<Rightarrow> Inl (PrintUsage (Some ''Invalid arguments.'') p)
      | Some (opts, filenames) \<Rightarrow>
          bindR (foldR apply_option
                   \<lparr>o_verbosity = verbose_level (cpp_state (p_lint p)), o_output_format = output_format (cpp_state (p_lint p)),
                    o_filters = [], o_counting_style = [], o_program = p\<rparr> opts) (\<lambda>o'.
            let p1 = o_program o'
            in if filenames = [] then Inl (PrintUsage (Some ''No files were specified.'') p1)
               else
                 let c1 = fst (SetVerboseLevel (o_verbosity o') (SetOutputFormat (o_output_format o') (cpp_state (p_lint p1))));
                     (c2, r) = SetFilters (o_filters o') c1
                 in bindR (crashing r) (\<lambda>_. Inr (filenames, set_cpp (SetCountingStyle (o_counting_style o') c2) p1))))"

section \<open>Options are read back\<close>

definition write_option :: "string \<times> string \<Rightarrow> string" where
  "write_option = (\<lambda>(n, v). ''--'' @ n @ ''='' @ v)"

definition takes_value :: "string \<Rightarrow> bool" where
  "takes_value n \<longleftrightarrow> n @ ''='' \<in> set LONG_OPTIONS"

lemma takes_value_iff:
  "takes_value n \<longleftrightarrow> n \<in> {''output'', ''verbose'', ''counting'', ''filter'', ''root'', ''linelength'', ''extensions''}"
  unfolding takes_value_def LONG_OPTIONS_def by (auto simp: append_eq_Cons_conv append_eq_append_conv2)

lemma long_has_args_value: "takes_value n \<Longrightarrow> long_has_args n = Some (True, n)"
  unfolding takes_value_iff by (elim insertE emptyE; simp) code_simp+

lemma find_at_fresh: "c \<notin> set n \<Longrightarrow> find_at [c] (n @ c # v) i = Some (i + length n)"
  by (induction n arbitrary: i) auto

lemma split_arg_value: "CHR ''='' \<notin> set n \<Longrightarrow> split_arg (n @ ''='' @ v) = (n, Some v)"
  by (simp add: split_arg_def find_at_fresh)

lemma do_longs_value: "takes_value n \<Longrightarrow> do_longs (n @ ''='' @ v) args = Some ((''--'' @ n, v), args)"
proof -
  assume n: "takes_value n"
  then have "CHR ''='' \<notin> set n" unfolding takes_value_iff by auto
  then show ?thesis using long_has_args_value [OF n] split_arg_value [of n v] by (simp add: do_longs_def)
qed

lemma getopt_written:
  assumes "list_all (\<lambda>(n, v). takes_value n) opts" "files = [] \<or> \<not> py_startswith (hd files) ''-'' \<or> hd files = ''-''"
  shows "getopt (map write_option opts @ files) = Some (map (\<lambda>(n, v). (''--'' @ n, v)) opts, files)"
  using assms(1)
proof (induction opts)
  case Nil
  then show ?case using assms(2) by (cases files) auto
next
  case (Cons o' opts)
  obtain n v where o: "o' = (n, v)" by (cases o')
  then have n: "takes_value n" using Cons.prems by simp
  have "write_option (n, v) = ''--'' @ n @ ''='' @ v" by (simp add: write_option_def)
  then show ?case using Cons do_longs_value [OF n, of v] by (simp add: o py_startswith_def)
qed

text \<open>The value that counts is the last one given.\<close>

definition last_value :: "(string \<times> string) list \<Rightarrow> string \<Rightarrow> string option" where
  "last_value opts n = map_of (rev opts) n"

definition value_ok :: "string \<times> string \<Rightarrow> bool" where
  "value_ok = (\<lambda>(n, v).
     takes_value n \<and>
     (n = ''output'' \<longrightarrow> v \<in> {''emacs'', ''vs7'', ''eclipse''}) \<and>
     (n = ''counting'' \<longrightarrow> v \<in> {''total'', ''toplevel'', ''detailed''}) \<and>
     (n = ''filter'' \<longrightarrow> v \<noteq> []) \<and>
     (n = ''verbose'' \<or> n = ''linelength'' \<longrightarrow> py_int v \<noteq> None))"

definition option_or :: "(string \<times> string) list \<Rightarrow> string \<Rightarrow> (string \<Rightarrow> 'a) \<Rightarrow> 'a \<Rightarrow> 'a" where
  "option_or opts n f d = (case last_value opts n of None \<Rightarrow> d | Some v \<Rightarrow> f v)"

definition options_of :: "options \<Rightarrow> (string \<times> string) list \<Rightarrow> options" where
  "options_of o' opts =
     \<lparr>o_verbosity = option_or opts ''verbose'' (\<lambda>v. the (py_int v)) (o_verbosity o'),
      o_output_format = option_or opts ''output'' id (o_output_format o'),
      o_filters = option_or opts ''filter'' id (o_filters o'),
      o_counting_style = option_or opts ''counting'' id (o_counting_style o'),
      o_program = (o_program o')
        \<lparr>p_line_length := option_or opts ''linelength'' (\<lambda>v. the (py_int v)) (p_line_length (o_program o')),
         p_root := option_or opts ''root'' Some (p_root (o_program o')),
         p_extensions := option_or opts ''extensions'' (\<lambda>v. remdups (py_split '','' v)) (p_extensions (o_program o'))\<rparr>\<rparr>"

lemma option_or_snoc: "option_or (opts @ [(n, v)]) m f d = (if m = n then f v else option_or opts m f d)"
  by (simp add: option_or_def last_value_def)

lemma apply_options_written:
  "list_all value_ok opts \<Longrightarrow> foldR apply_option o' (map (\<lambda>(n, v). (''--'' @ n, v)) opts) = Inr (options_of o' opts)"
proof (induction opts rule: rev_induct)
  case Nil
  then show ?case by (simp add: options_of_def option_or_def last_value_def)
next
  case (snoc nv opts)
  obtain n v where nv: "nv = (n, v)" by (cases nv)
  have ok: "value_ok (n, v)" using snoc.prems nv by simp
  have "apply_option (options_of o' opts) (''--'' @ n, v) = Inr (options_of o' (opts @ [(n, v)]))"
    using ok unfolding value_ok_def takes_value_iff prod.case
    by (elim conjE insertE emptyE; clarsimp simp: apply_option_def options_of_def option_or_snoc Let_def)
  then show ?case using snoc nv by (simp add: foldR_append)
qed

text \<open>C8: A command line of options with admissible values followed by files is accepted, and of every option the last
  value counts: the verbosity, format, counting style, line length, root and extensions are those values or what they
  were before, the filters are the default ones followed by the items of the last \<open>--filter\<close>, and the files are
  returned as they are.\<close>

theorem ParseArguments_written:
  assumes "list_all value_ok opts" "files \<noteq> []" "\<not> py_startswith (hd files) ''-'' \<or> hd files = ''-''"
    and "list_all filter_ok (filter (\<lambda>f. f \<noteq> []) (map py_strip (py_split '','' (option_or opts ''filter'' id []))))"
  shows "\<exists>p'. ParseArguments (map write_option opts @ files) p = Inr (files, p') \<and>
     verbose_level (cpp_state (p_lint p')) = option_or opts ''verbose'' (\<lambda>v. the (py_int v)) (verbose_level (cpp_state (p_lint p))) \<and>
     output_format (cpp_state (p_lint p')) = option_or opts ''output'' id (output_format (cpp_state (p_lint p))) \<and>
     counting (cpp_state (p_lint p')) = option_or opts ''counting'' id [] \<and>
     filters (cpp_state (p_lint p')) = DEFAULT_FILTERS @
       filter (\<lambda>f. f \<noteq> []) (map py_strip (py_split '','' (option_or opts ''filter'' id []))) \<and>
     p_line_length p' = option_or opts ''linelength'' (\<lambda>v. the (py_int v)) (p_line_length p) \<and>
     p_root p' = option_or opts ''root'' Some (p_root p) \<and>
     p_extensions p' = option_or opts ''extensions'' (\<lambda>v. remdups (py_split '','' v)) (p_extensions p) \<and>
     stderr (p_lint p') = stderr (p_lint p)"
proof -
  have "list_all (\<lambda>(n, v). takes_value n) opts" using assms(1) by (auto simp: list_all_iff value_ok_def)
  then have g: "getopt (map write_option opts @ files) = Some (map (\<lambda>(n, v). (''--'' @ n, v)) opts, files)"
    using getopt_written assms(3) by blast
  have d: "list_all filter_ok DEFAULT_FILTERS" by code_simp
  note written = apply_options_written [OF assms(1)]
  show ?thesis unfolding ParseArguments_def g option.case prod.case written bindR_simps
    using assms(2,4) d
    by (simp add: Let_def SetFilters_def AddFilters_def options_of_def set_cpp_def SetCountingStyle_def SetOutputFormat_def SetVerboseLevel_def)
qed

theorem ParseArguments_written_witness:
  "\<exists>p'. ParseArguments [''--verbose=3'', ''--filter=-whitespace'', ''--filter=+build'', ''a.cc''] (program_init []) = Inr ([''a.cc''], p') \<and>
     verbose_level (cpp_state (p_lint p')) = 3 \<and> filters (cpp_state (p_lint p')) = DEFAULT_FILTERS @ [''+build'']"
proof -
  let ?o = "[(''verbose'', ''3''), (''filter'', ''-whitespace''), (''filter'', ''+build'')]"
  have "list_all value_ok ?o" by code_simp
  moreover have "\<not> py_startswith (hd [''a.cc'']) ''-''" by code_simp
  moreover have "option_or ?o ''filter'' id [] = ''+build''" "option_or ?o ''verbose'' (\<lambda>v. the (py_int v)) n = 3" for n
    by code_simp+
  moreover have s: "filter (\<lambda>f. f \<noteq> []) (map py_strip (py_split '','' ''+build'')) = [''+build'']" by code_simp
  moreover have "filter_ok ''+build''" by code_simp
  moreover have "map write_option ?o = [''--verbose=3'', ''--filter=-whitespace'', ''--filter=+build'']" by code_simp
  ultimately show ?thesis
    using ParseArguments_written [of ?o "[''a.cc'']" "program_init []"] by auto
qed

end
