(* ===== verification/Lint_Driver.thy ===== *)
theory Lint_Driver
  imports Lint_Options
begin

text \<open>
  The driver of \<open>cpplint.py\<close>: configuration files (\<open>ProcessConfigOverrides\<close>), \<open>ProcessFile\<close> and \<open>main\<close>. The operating
  system is an argument. Shown: which settings the configuration files leave behind, that \<open>ProcessFile\<close> gives back the
  filters it found, and what a whole run prints and returns.
\<close>

section \<open>The operating system\<close>

text \<open>What the program asks of its surroundings: the file system, the lines of a configuration file and of a header, the
  decoded text of a source file (\<open>None\<close> when it cannot be opened), the order in which Python walks through a dict or a
  set, \<open>re.compile\<close> for the patterns of users, the replacement character, and the module \<open>unicodedata\<close>; the lines of a file are
  decoded text.\<close>

record os_env =
  os_path :: path_env
  isfile :: "string \<Rightarrow> bool"
  config_lines :: "string \<Rightarrow> string list option"
  source_text :: "string \<Rightarrow> string option"
  header_lines :: "string \<Rightarrow> string list option"
  iteration :: "string list \<Rightarrow> string list"
  iteritems :: "(string \<rightharpoonup> nat) \<Rightarrow> string list"
  re_compiler :: "string \<Rightarrow> re res"
  replacement_text :: string
  unicodedata :: unicode_db

text \<open>What the checks of a file read. A call of \<open>RepositoryName\<close> that does not return has no counterpart here; the theorems
  about runs assume that it returns.\<close>

definition run_globals :: "os_env \<Rightarrow> program \<Rightarrow> re option \<Rightarrow> globals" where
  "run_globals os p r =
     \<lparr>line_length = p_line_length p, root = r,
      repository_name = (\<lambda>f. case RepositoryName (os_path os) f of None \<Rightarrow> [] | Some n \<Rightarrow> n),
      full_name = FullName (os_path os), path_exists = exists (os_path os), file_lines = header_lines os,
      key_order = iteration os, replacement = replacement_text os,
      unicode = Some (unicodedata os)\<rparr>"

section \<open>Configuration files\<close>

text \<open>\<open>str.partition\<close>, without the separator.\<close>

definition py_partition :: "string \<Rightarrow> string \<Rightarrow> string \<times> string" where
  "py_partition s sep =
     (case find_at sep s 0 of None \<Rightarrow> (s, []) | Some i \<Rightarrow> (take i s, drop (i + length sep) s))"

text \<open>The name and the value on a line of a configuration file; \<open>None\<close> on a line that is blank up to a comment.\<close>

definition cfg_setting :: "string \<Rightarrow> (string \<times> string) option" where
  "cfg_setting line =
     (let line = fst (py_partition line ''#'')
      in if py_strip line = [] then None
         else let (name, val) = py_partition line ''='' in Some (py_strip name, py_strip val))"

record config =
  c_filters :: "string list"
  c_keep_looking :: bool
  c_program :: program

text \<open>One setting. The flag is false when the file is excluded.\<close>

definition cfg_apply :: "os_env \<Rightarrow> string \<Rightarrow> string \<Rightarrow> string \<Rightarrow> config \<Rightarrow> string \<times> string \<Rightarrow> (bool \<times> config) res" where
  "cfg_apply os filename cfg_file base_name c = (\<lambda>(name, val).
     let p = c_program c
     in if name = ''set noparent'' then Inr (True, c\<lparr>c_keep_looking := False\<rparr>)
        else if name = ''filter'' then Inr (True, c\<lparr>c_filters := c_filters c @ [val]\<rparr>)
        else if name = ''exclude_files'' then
          (if base_name = [] then Inr (True, c)
           else
             bindR (re_compiler os val) (\<lambda>pattern.
               if re_Match pattern base_name \<noteq> None then
                 Inr (False, c\<lparr>c_program := write_err
                   (''Ignoring '' @ [dquote] @ filename @ [dquote] @ '': file excluded by '' @ [dquote] @ cfg_file @ [dquote] @ ''. '' @
                    ''File path component '' @ [dquote] @ base_name @ [dquote] @ '' matches '' @
                    ''pattern '' @ [dquote] @ val @ [dquote] @ [newline]) p\<rparr>)
               else Inr (True, c)))
        else if name = ''linelength'' then
          Inr (True, c\<lparr>c_program :=
            (case py_int val of
               None \<Rightarrow> write_err ''Line length must be numeric.'' p
             | Some n \<Rightarrow> p\<lparr>p_line_length := n\<rparr>)\<rparr>)
        else if name = ''root'' then Inr (True, c\<lparr>c_program := p\<lparr>p_root := Some val\<rparr>\<rparr>)
        else Inr (True, c\<lparr>c_program := write_err
               (''Invalid configuration option ('' @ name @ '') in file '' @ cfg_file @ [newline]) p\<rparr>))"

fun cfg_lines :: "os_env \<Rightarrow> string \<Rightarrow> string \<Rightarrow> string \<Rightarrow> string list \<Rightarrow> config \<Rightarrow> (bool \<times> config) res" where
  "cfg_lines os filename cfg_file base_name [] c = Inr (True, c)"
| "cfg_lines os filename cfg_file base_name (line # lines) c =
     (case cfg_setting line of
        None \<Rightarrow> cfg_lines os filename cfg_file base_name lines c
      | Some setting \<Rightarrow>
          bindR (cfg_apply os filename cfg_file base_name c setting) (\<lambda>(go, c').
            if go then cfg_lines os filename cfg_file base_name lines c' else Inr (False, c')))"

lemma os_split_shorter: "os_split p = (d, b) \<Longrightarrow> b \<noteq> [] \<Longrightarrow> length d < length p"
proof -
  assume s: "os_split p = (d, b)" "b \<noteq> []"
  let ?h = "take (length p - length b) p"
  have b: "b = rev (takeWhile (\<lambda>c. c \<noteq> CHR ''/'') (rev p))" using s(1) by (auto simp: os_split_def Let_def)
  then have "length b \<le> length p" by (metis length_rev length_takeWhile_le)
  then have h: "length ?h < length p" using s(2) by (cases b) auto
  have "d = ?h \<or> d = rstrip_char CHR ''/'' ?h" using s(1) b by (auto simp: os_split_def Let_def split: if_splits)
  then show ?thesis using h prefix_length_le [OF rstrip_char_prefix [of "CHR ''/''" ?h]] by auto
qed

text \<open>The directories of the file, from the innermost to the root.\<close>

function config_loop :: "os_env \<Rightarrow> string \<Rightarrow> string \<Rightarrow> config \<Rightarrow> (bool \<times> config) res" where
  "config_loop os filename abs_filename c =
     (if \<not> c_keep_looking c then Inr (True, c)
      else
        case os_split abs_filename of (abs_path, base_name) \<Rightarrow>
          if base_name = [] then Inr (True, c)
          else
            let cfg_file = os_join abs_path ''CPPLINT.cfg''
            in if \<not> isfile os cfg_file then config_loop os filename abs_path c
               else
                 case config_lines os cfg_file of
                   None \<Rightarrow>
                     Inr (True, c\<lparr>c_keep_looking := False,
                       c_program := write_err (''Skipping config file '' @ [squote] @ cfg_file @ [squote] @
                         '': Can'' @ [squote] @ ''t open for reading'' @ [newline]) (c_program c)\<rparr>)
                 | Some lines \<Rightarrow>
                     bindR (cfg_lines os filename cfg_file base_name lines c) (\<lambda>(go, c').
                       if go then config_loop os filename abs_path c' else Inr (False, c')))"
  by pat_completeness auto
termination
  by (relation "measure (\<lambda>(os, filename, abs_filename, c). length abs_filename)") (auto dest: os_split_shorter [OF sym])

declare config_loop.simps [simp del]

text \<open>Filters of inner directories are added last, so that they decide.\<close>

definition add_filters :: "cpplint_state \<Rightarrow> string \<Rightarrow> cpplint_state res" where
  "add_filters st fs = (let (st', r) = AddFilters fs st in bindR r (\<lambda>_. Inr st'))"

definition ProcessConfigOverrides :: "os_env \<Rightarrow> string \<Rightarrow> program \<Rightarrow> (bool \<times> program) res" where
  "ProcessConfigOverrides os filename p =
     bindR (config_loop os filename (os_abspath (cwd (os_path os)) filename)
              \<lparr>c_filters = [], c_keep_looking = True, c_program = p\<rparr>) (\<lambda>(go, c).
       let p' = c_program c
       in if go then
            bindR (foldR add_filters (cpp_state (p_lint p')) (rev (c_filters c))) (\<lambda>st. Inr (True, set_cpp st p'))
          else Inr (False, p'))"

section \<open>A file\<close>

abbreviation cr_char :: char where "cr_char \<equiv> CHR 0x0D"

text \<open>All lines but the last, behind which no line end was read.\<close>

definition unix_lines :: "string list \<Rightarrow> string list" where
  "unix_lines lines = map (rstrip_char cr_char) (butlast lines) @ (if lines = [] then [] else [last lines])"

definition crlf_lines :: "string list \<Rightarrow> nat list" where
  "crlf_lines lines = map fst (filter (\<lambda>(n, l). py_endswith l [cr_char]) (enumerate 1 (butlast lines)))"

definition lf_lines :: "string list \<Rightarrow> nat list" where
  "lf_lines lines = map fst (filter (\<lambda>(n, l). \<not> py_endswith l [cr_char]) (enumerate 1 (butlast lines)))"

definition file_extension_of :: "string \<Rightarrow> string" where
  "file_extension_of filename = py_drop filename (py_rfind filename ''.'' + 1)"

text \<open>\<open>_root\<close> is put into a pattern for the names of header guards, which are asked for on every line of a header.\<close>

definition root_pattern :: "os_env \<Rightarrow> program \<Rightarrow> string \<Rightarrow> re option res" where
  "root_pattern os p file_extension =
     (case p_root p of
        None \<Rightarrow> Inr None
      | Some r \<Rightarrow>
          if r = [] \<or> file_extension \<noteq> ''h'' then Inr None
          else bindR (re_compiler os (''^'' @ r @ ''/'')) (\<lambda>c. Inr (Some c)))"

definition carriage_return :: "string \<Rightarrow> nat \<Rightarrow> diag" where
  "carriage_return filename linenum =
     mk_diag filename (int linenum) ''whitespace/newline'' 1
       (''Unexpected '' @ [backslash] @ ''r (^M) found; better to use only '' @ [backslash] @ ''n'')"

definition lint_text :: "os_env \<Rightarrow> extra_check list \<Rightarrow> string \<Rightarrow> string \<Rightarrow> program \<Rightarrow> program res" where
  "lint_text os extra filename source p =
     (let lines = py_split [newline] source; file_extension = file_extension_of filename
      in if filename \<noteq> ''-'' \<and> file_extension \<notin> set (p_extensions p) then
           Inr (write_err (''Ignoring '' @ filename @ ''; not a valid file name '' @
             ''('' @ join_with '', '' (iteration os (p_extensions p)) @ '')'' @ [newline]) p)
         else
           bindR (root_pattern os p file_extension) (\<lambda>r.
           bindR (ProcessFileData (run_globals os p r) Error filename file_extension (unix_lines lines) extra (p_lint p)) (\<lambda>lst.
           bindR (if lf_lines lines \<noteq> [] \<and> crlf_lines lines \<noteq> []
                  then foldR Error lst (map (carriage_return filename) (crlf_lines lines)) else Inr lst) (\<lambda>lst'.
             Inr (p\<lparr>p_lint := lst'\<rparr>)))))"

definition restore_filters :: "program \<Rightarrow> program" where
  "restore_filters p = set_cpp (RestoreFilters (cpp_state (p_lint p))) p"

text \<open>What can be read of a file, and the program after reading it: standard input is empty then.\<close>

definition read_input :: "os_env \<Rightarrow> string \<Rightarrow> program \<Rightarrow> string option \<times> program" where
  "read_input os filename p =
     (if filename = ''-'' then (Some (p_stdin p), p\<lparr>p_stdin := []\<rparr>) else (source_text os filename, p))"

definition ProcessFile :: "os_env \<Rightarrow> int \<Rightarrow> extra_check list \<Rightarrow> program \<Rightarrow> string \<Rightarrow> program res" where
  "ProcessFile os vlevel extra p filename =
     (let p1 = set_cpp (BackupFilters (fst (SetVerboseLevel vlevel (cpp_state (p_lint p))))) p
      in bindR (ProcessConfigOverrides os filename p1) (\<lambda>(go, p2).
           if \<not> go then Inr (restore_filters p2)
           else
             case read_input os filename p2 of
               (None, p3) \<Rightarrow>
                 Inr (restore_filters (write_err (''Skipping input '' @ [squote] @ filename @ [squote] @
                   '': Can'' @ [squote] @ ''t open for reading'' @ [newline]) p3))
             | (Some source, p3) \<Rightarrow>
                 bindR (lint_text os extra filename source p3) (\<lambda>p4.
                   Inr (restore_filters (write_err (''Done processing '' @ filename @ [newline]) p4)))))"

section \<open>A run\<close>

definition process_files :: "os_env \<Rightarrow> program \<Rightarrow> string list \<Rightarrow> program res" where
  "process_files os = foldR (\<lambda>p filename. ProcessFile os (verbose_level (cpp_state (p_lint p))) [] p filename)"

definition main :: "os_env \<Rightarrow> string list \<Rightarrow> program \<Rightarrow> run" where
  "main os args p =
     (case ParseArguments args p of
        Inl r \<Rightarrow> r
      | Inr (filenames, p1) \<Rightarrow>
          (case process_files os (set_cpp (ResetErrorCounts (cpp_state (p_lint p1))) p1) filenames of
             Inl e \<Rightarrow> Crashed e
           | Inr p2 \<Rightarrow>
               let st = cpp_state (p_lint p2)
               in Exited (stderr (p_lint p2) @ PrintErrorCounts (iteritems os (errors_by_category st)) st)
                    (if error_count st > 0 then 1 else 0)))"

section \<open>What is written\<close>

text \<open>A run writes reports of the linter and notices about files and configurations. The error count is the number of
  reports.\<close>

definition render :: "string \<Rightarrow> diag + string \<Rightarrow> string" where
  "render fmt m = (case m of Inl d \<Rightarrow> format_error fmt d | Inr s \<Rightarrow> s)"

definition documented :: "diag + string \<Rightarrow> bool" where
  "documented m \<longleftrightarrow> (case m of Inl d \<Rightarrow> valid_diag d | Inr s \<Rightarrow> True)"

definition wrote :: "program \<Rightarrow> (diag + string) list \<Rightarrow> program \<Rightarrow> bool" where
  "wrote p ms p' \<longleftrightarrow> list_all documented ms \<and>
     output_format (cpp_state (p_lint p')) = output_format (cpp_state (p_lint p)) \<and>
     stderr (p_lint p') = stderr (p_lint p) @ map (render (output_format (cpp_state (p_lint p)))) ms \<and>
     error_count (cpp_state (p_lint p')) = error_count (cpp_state (p_lint p)) + length (filter isl ms)"

lemma wrote_trans: "wrote p ms p' \<Longrightarrow> wrote p' ns p'' \<Longrightarrow> wrote p (ms @ ns) p''"
  by (simp add: wrote_def)

lemma wrote_notices: "\<exists>ns. map (render fmt) ns = ss \<and> list_all documented ns \<and> filter isl ns = []"
  by (rule exI [of _ "map Inr ss"]) (simp add: render_def documented_def comp_def list_all_iff)

lemma wrote_reports:
  assumes "reported_since (p_lint p) lst"
  shows "\<exists>ms. wrote p ms (p\<lparr>p_lint := lst\<rparr>)"
proof -
  obtain ds where "list_all valid_diag ds" "stderr lst = stderr (p_lint p) @ map (format_error (output_format (cpp_state (p_lint p)))) ds"
      "error_count (cpp_state lst) = error_count (cpp_state (p_lint p)) + length ds" "same_settings (cpp_state (p_lint p)) (cpp_state lst)"
    using assms by (auto simp: reported_since_def)
  then have "wrote p (map Inl ds) (p\<lparr>p_lint := lst\<rparr>)"
    by (auto simp: wrote_def render_def documented_def comp_def list_all_iff same_settings_def filter_map)
  then show ?thesis by blast
qed

section \<open>Configuration files only add notices and filters\<close>

definition noticed :: "program \<Rightarrow> program \<Rightarrow> bool" where
  "noticed p p' \<longleftrightarrow> (\<exists>ns. p_lint p' = (p_lint p)\<lparr>stderr := stderr (p_lint p) @ ns\<rparr>) \<and>
     p_extensions p' = p_extensions p \<and> p_stdin p' = p_stdin p"

lemma noticed_refl: "noticed p p"
  by (auto simp: noticed_def intro!: exI [of _ "[]"])

lemma noticed_trans: "noticed p q \<Longrightarrow> noticed q r \<Longrightarrow> noticed p r"
  by (auto simp: noticed_def)

lemma noticed_write [simp]: "noticed p (write_err s p)"
  by (auto simp: noticed_def write_err_def)

lemma noticed_settings [simp]: "noticed p (p\<lparr>p_line_length := n\<rparr>)" "noticed p (p\<lparr>p_root := r\<rparr>)"
  using noticed_refl [of p] by (simp_all add: noticed_def)

text \<open>An exception of the configuration comes from \<open>re.compile\<close>.\<close>

definition config_result :: "os_env \<Rightarrow> config \<Rightarrow> (bool \<times> config) res \<Rightarrow> bool" where
  "config_result os c = outcome (\<lambda>e. \<exists>r. re_compiler os r = Inl e) (\<lambda>(go, c'). noticed (c_program c) (c_program c'))"

lemma config_result_Inr: "noticed (c_program c) (c_program c') \<Longrightarrow> config_result os c (Inr (go, c'))"
  by (simp add: config_result_def outcome_def)

lemma config_result_bind:
  assumes "config_result os c r"
    and "\<And>go c'. r = Inr (go, c') \<Longrightarrow> config_result os c' (f (go, c'))"
  shows "config_result os c (bindR r f)"
proof (cases r)
  case (Inr x)
  obtain go c' where x: "x = (go, c')" by (cases x)
  show ?thesis using assms(1) assms(2) [of go c'] Inr x
    by (auto simp: config_result_def outcome_def intro: noticed_trans split: sum.splits)
qed (use assms(1) in \<open>simp add: config_result_def outcome_def\<close>)

lemma cfg_apply_result: "config_result os c (cfg_apply os filename cfg_file base_name c setting)"
proof -
  obtain name val where s: "setting = (name, val)" by (cases setting)
  have "config_result os c (bindR (re_compiler os val) f)" if "\<And>r. config_result os c (f r)" for f
    using that by (cases "re_compiler os val") (auto simp: config_result_def outcome_def)
  then show ?thesis unfolding s
    by (simp add: cfg_apply_def Let_def config_result_Inr noticed_refl split: option.splits)
qed

lemma cfg_lines_result: "config_result os c (cfg_lines os filename cfg_file base_name lines c)"
proof (induction lines arbitrary: c)
  case (Cons line lines)
  show ?case
  proof (cases "cfg_setting line")
    case (Some setting)
    then show ?thesis
      by simp (rule config_result_bind [OF cfg_apply_result], use Cons in \<open>auto simp: config_result_Inr noticed_refl\<close>)
  qed (use Cons in simp)
qed (simp add: config_result_Inr noticed_refl)

lemma config_loop_result: "config_result os c (config_loop os filename abs_filename c)"
proof (induction os filename abs_filename c rule: config_loop.induct)
  case (1 os filename abs_filename c)
  obtain d b where s: "os_split abs_filename = (d, b)" by (cases "os_split abs_filename")
  let ?f = "os_join d ''CPPLINT.cfg''"
  show ?case
  proof (cases "c_keep_looking c \<and> b \<noteq> []")
    case go: True
    show ?thesis
    proof (cases "isfile os ?f")
      case True
      show ?thesis
      proof (cases "config_lines os ?f")
        case None
        then show ?thesis using go s True by (simp add: config_loop.simps [of os filename abs_filename] config_result_Inr)
      next
        case (Some lines)
        have "config_result os c (bindR (cfg_lines os filename ?f b lines c) (\<lambda>(go, c').
            if go then config_loop os filename d c' else Inr (False, c')))"
          by (rule config_result_bind [OF cfg_lines_result])
            (use 1 go s True Some in \<open>auto simp: config_result_Inr noticed_refl\<close>)
        then show ?thesis using go s True Some by (simp add: config_loop.simps [of os filename abs_filename])
      qed
    qed (use 1 go s in \<open>simp add: config_loop.simps [of os filename abs_filename]\<close>)
  qed (use s in \<open>auto simp: config_loop.simps [of os filename abs_filename] config_result_Inr noticed_refl\<close>)
qed

lemma add_filters_outcome:
  assumes "list_all filter_ok (filters st)"
  shows "outcome (\<lambda>e. e = ValueError)
    (\<lambda>st'. (\<exists>xs. st' = st\<lparr>filters := filters st @ xs\<rparr>) \<and> list_all filter_ok (filters st')) (foldR add_filters st fs)"
proof (rule outcome_foldR)
  show "(\<exists>xs. st = st\<lparr>filters := filters st @ xs\<rparr>) \<and> list_all filter_ok (filters st)"
    using assms by (auto intro!: exI [of _ "[]"])
qed (auto simp: add_filters_def AddFilters_def Let_def outcome_def split: if_splits)

text \<open>What the configuration files change of the state of the linter.\<close>

definition overridden :: "program \<Rightarrow> program \<Rightarrow> bool" where
  "overridden p p' \<longleftrightarrow> (\<exists>ns xs. p_lint p' = (p_lint p)\<lparr>stderr := stderr (p_lint p) @ ns,
        cpp_state := (cpp_state (p_lint p))\<lparr>filters := filters (cpp_state (p_lint p)) @ xs\<rparr>\<rparr>) \<and>
     filters_valid (p_lint p') \<and> p_extensions p' = p_extensions p \<and> p_stdin p' = p_stdin p"

abbreviation config_error :: "os_env \<Rightarrow> py_error \<Rightarrow> bool" where
  "config_error os e \<equiv> e = ValueError \<or> (\<exists>r. re_compiler os r = Inl e)"

lemma ProcessConfigOverrides_outcome:
  assumes "filters_valid (p_lint p)"
  shows "outcome (config_error os) (\<lambda>(go, p'). overridden p p') (ProcessConfigOverrides os filename p)"
  unfolding ProcessConfigOverrides_def
proof (rule outcome_bind, rule outcome_mono)
  let ?c = "\<lparr>c_filters = [], c_keep_looking = True, c_program = p\<rparr>"
  show "outcome (\<lambda>e. \<exists>r. re_compiler os r = Inl e) (\<lambda>(go, c'). noticed p (c_program c'))
      (config_loop os filename (os_abspath (cwd (os_path os)) filename) ?c)"
    using config_loop_result [of os ?c] by (simp add: config_result_def)
next
  fix x :: "bool \<times> config"
  assume "case x of (go, c') \<Rightarrow> noticed p (c_program c')"
  then obtain go c ns where x: "x = (go, c)"
      "p_lint (c_program c) = (p_lint p)\<lparr>stderr := stderr (p_lint p) @ ns\<rparr>"
      "p_extensions (c_program c) = p_extensions p" "p_stdin (c_program c) = p_stdin p"
    by (cases x) (auto simp: noticed_def)
  show "outcome (config_error os) (\<lambda>(go, p'). overridden p p')
      (case x of (go, c) \<Rightarrow> let p' = c_program c
         in if go then bindR (foldR add_filters (cpp_state (p_lint p')) (rev (c_filters c))) (\<lambda>st. Inr (True, set_cpp st p'))
            else Inr (False, p'))"
  proof (cases go)
    case True
    have "list_all filter_ok (filters (cpp_state (p_lint p)))" using assms by (simp add: filters_valid_def)
    note a = add_filters_outcome [OF this, of "rev (c_filters c)"]
    have "outcome (config_error os) (\<lambda>(go, p'). overridden p p')
        (bindR (foldR add_filters (cpp_state (p_lint p)) (rev (c_filters c))) (\<lambda>st. Inr (True, set_cpp st (c_program c))))"
      by (rule outcome_bind [OF outcome_mono [OF a]])
        (use x(2-4) in \<open>auto simp: outcome_def overridden_def set_cpp_def filters_valid_def\<close>)
    then show ?thesis using True x by simp
  next
    case False
    have "p_lint (c_program c) = (p_lint p)\<lparr>stderr := stderr (p_lint p) @ ns,
        cpp_state := (cpp_state (p_lint p))\<lparr>filters := filters (cpp_state (p_lint p)) @ []\<rparr>\<rparr>" using x(2) by simp
    moreover have "filters_valid (p_lint (c_program c))" using x(2) assms by (simp add: filters_valid_def)
    ultimately have "overridden p (c_program c)" using x(3,4) unfolding overridden_def by blast
    then show ?thesis using False x(1) by (simp add: outcome_def)
  qed
qed auto

section \<open>What the configuration files leave behind\<close>

text \<open>The settings read for a file, from the innermost directory outwards up to one that says \<open>set noparent\<close> or cannot be
  read, each with the name of the file or directory it is for.\<close>

function settings_read :: "os_env \<Rightarrow> string \<Rightarrow> (string \<times> string \<times> string) list" where
  "settings_read os abs_filename =
     (case os_split abs_filename of (abs_path, base_name) \<Rightarrow>
        if base_name = [] then []
        else
          let cfg_file = os_join abs_path ''CPPLINT.cfg''
          in if \<not> isfile os cfg_file then settings_read os abs_path
             else
               case config_lines os cfg_file of
                 None \<Rightarrow> []
               | Some lines \<Rightarrow>
                   let ss = List.map_filter cfg_setting lines
                   in map (Pair base_name) ss @ (if ''set noparent'' \<in> fst ` set ss then [] else settings_read os abs_path))"
  by pat_completeness auto
termination
  by (relation "measure (\<lambda>(os, abs_filename). length abs_filename)") (auto dest: os_split_shorter [OF sym])

declare settings_read.simps [simp del]

definition lengths :: "(string \<times> string) list \<Rightarrow> int list" where
  "lengths ss = List.map_filter (\<lambda>(n, v). if n = ''linelength'' then py_int v else None) ss"

definition values_of :: "string \<Rightarrow> (string \<times> string) list \<Rightarrow> string list" where
  "values_of name ss = map snd (filter (\<lambda>(n, v). n = name) ss)"

text \<open>Whether the settings let the file through: the first \<open>exclude_files\<close> whose pattern matches, or is none, decides.\<close>

definition admits :: "os_env \<Rightarrow> string \<times> string \<times> string \<Rightarrow> bool res" where
  "admits os = (\<lambda>(base_name, name, val).
     if name = ''exclude_files'' then bindR (re_compiler os val) (\<lambda>pattern. Inr (re_Match pattern base_name = None)) else Inr True)"

fun verdict :: "os_env \<Rightarrow> (string \<times> string \<times> string) list \<Rightarrow> bool res" where
  "verdict os [] = Inr True"
| "verdict os (s # ss) = bindR (admits os s) (\<lambda>go. if go then verdict os ss else Inr False)"

lemma verdict_append: "verdict os (ss @ ts) = bindR (verdict os ss) (\<lambda>go. if go then verdict os ts else Inr False)"
proof (induction ss)
  case (Cons s ss)
  then show ?case by (cases "admits os s") simp_all
qed simp

text \<open>A configuration after some settings: filters are collected, of the other settings the last one stays.\<close>

definition config_after :: "config \<Rightarrow> (string \<times> string \<times> string) list \<Rightarrow> config \<Rightarrow> bool" where
  "config_after c ls c' \<longleftrightarrow> (let ss = map snd ls in noticed (c_program c) (c_program c') \<and>
     c_filters c' = c_filters c @ values_of ''filter'' ss \<and>
     c_keep_looking c' = (c_keep_looking c \<and> ''set noparent'' \<notin> fst ` set ss) \<and>
     p_line_length (c_program c') = last (p_line_length (c_program c) # lengths ss) \<and>
     p_root (c_program c') = last (p_root (c_program c) # map Some (values_of ''root'' ss)))"

lemma write_err_settings [simp]: "p_line_length (write_err s p) = p_line_length p" "p_root (write_err s p) = p_root p"
  by (simp_all add: write_err_def)

lemma config_after_Nil: "config_after c [] c"
  by (simp add: config_after_def values_of_def lengths_def noticed_refl)

lemma last_Cons_append: "last (x # xs @ ys) = last (last (x # xs) # ys)"
  by (cases ys) simp_all

lemma values_append:
  "values_of name (ss @ ts) = values_of name ss @ values_of name ts" "lengths (ss @ ts) = lengths ss @ lengths ts"
  by (simp_all add: values_of_def lengths_def List.map_filter_def)

lemma config_after_trans:
  assumes "config_after c ss c'" "config_after c' ts c''"
  shows "config_after c (ss @ ts) c''"
proof -
  note [simp del] = last.simps
  have "noticed (c_program c) (c_program c'')" using assms by (auto simp: config_after_def Let_def intro: noticed_trans)
  then show ?thesis using assms by (simp add: config_after_def Let_def values_append last_Cons_append image_Un)
qed

text \<open>The result of a part of the search: an exception or a refusal when the settings ask for it, and otherwise the
  configuration that they leave.\<close>

definition follows :: "bool res \<Rightarrow> (config \<Rightarrow> bool) \<Rightarrow> (bool \<times> config) res \<Rightarrow> bool" where
  "follows v Q r \<longleftrightarrow> (case v of Inl e \<Rightarrow> r = Inl e | Inr go \<Rightarrow> \<exists>c'. r = Inr (go, c') \<and> (go \<longrightarrow> Q c'))"

lemma follows_simps [simp]:
  "follows (Inl e) Q r \<longleftrightarrow> r = Inl e" "follows (Inr go) Q r \<longleftrightarrow> (\<exists>c'. r = Inr (go, c') \<and> (go \<longrightarrow> Q c'))"
  by (simp_all add: follows_def)

lemma follows_bind:
  assumes "follows v Q r" "\<And>c'. Q c' \<Longrightarrow> r = Inr (True, c') \<Longrightarrow> follows w R (f c')"
  shows "follows (bindR v (\<lambda>go. if go then w else Inr False)) R (bindR r (\<lambda>(go, c'). if go then f c' else Inr (False, c')))"
proof (cases v)
  case (Inr go)
  then show ?thesis using assms by (cases go) auto
qed (use assms(1) in simp)

lemma cfg_apply_after:
  assumes "base_name \<noteq> []"
  shows "follows (admits os (base_name, s)) (config_after c [(base_name, s)]) (cfg_apply os filename cfg_file base_name c s)"
proof -
  obtain name val where s: "s = (name, val)" by (cases s)
  consider "name = ''exclude_files''" | "name = ''linelength''" | "name \<notin> {''exclude_files'', ''linelength''}" by blast
  then show ?thesis
  proof cases
    case 1
    have "config_after c [(base_name, s)] c"
      by (simp add: 1 s config_after_def values_of_def lengths_def noticed_refl)
    then show ?thesis using assms 1 s by (cases "re_compiler os val") (auto simp: admits_def cfg_apply_def Let_def)
  next
    case 2
    then show ?thesis using s by (cases "py_int val")
      (simp_all add: admits_def cfg_apply_def config_after_def values_of_def lengths_def Let_def)
  qed (use s in \<open>auto simp: admits_def cfg_apply_def config_after_def values_of_def lengths_def noticed_refl Let_def\<close>)
qed

lemma cfg_lines_after:
  assumes "base_name \<noteq> []"
  shows "follows (verdict os (map (Pair base_name) (List.map_filter cfg_setting lines)))
    (config_after c (map (Pair base_name) (List.map_filter cfg_setting lines))) (cfg_lines os filename cfg_file base_name lines c)"
proof (induction lines arbitrary: c)
  case (Cons line lines)
  show ?case
  proof (cases "cfg_setting line")
    case (Some s)
    let ?ss = "map (Pair base_name) (List.map_filter cfg_setting lines)"
    have "follows (verdict os ?ss) (config_after c ((base_name, s) # ?ss)) (cfg_lines os filename cfg_file base_name lines c1)"
      if "config_after c [(base_name, s)] c1" for c1
      using Cons [of c1] config_after_trans [OF that] by (auto simp: follows_def split: sum.splits)
    then show ?thesis using follows_bind [OF cfg_apply_after [OF assms]] Some by simp
  qed (use Cons in simp)
qed (simp add: config_after_Nil)

text \<open>The search ends in a configuration that, but for the flag and a notice, is the one left by the settings.\<close>

definition like :: "config \<Rightarrow> config \<Rightarrow> bool" where
  "like c c' \<longleftrightarrow> c_filters c' = c_filters c \<and> noticed (c_program c) (c_program c') \<and>
     p_line_length (c_program c') = p_line_length (c_program c) \<and> p_root (c_program c') = p_root (c_program c)"

lemma like_refl: "like c c"
  by (simp add: like_def noticed_refl)

lemma config_loop_after:
  assumes "c_keep_looking c"
  shows "follows (verdict os (settings_read os abs_filename)) (\<lambda>c'. \<exists>c''. config_after c (settings_read os abs_filename) c'' \<and> like c'' c')
    (config_loop os filename abs_filename c)"
  using assms
proof (induction os filename abs_filename c rule: config_loop.induct)
  case (1 os filename abs_filename c)
  obtain d b where s: "os_split abs_filename = (d, b)" by (cases "os_split abs_filename")
  let ?f = "os_join d ''CPPLINT.cfg''"
  note loop = config_loop.simps [of os filename abs_filename] and read = settings_read.simps [of os abs_filename]
  consider (top) "b = []" | (none) "b \<noteq> []" "\<not> isfile os ?f" | (bad) "b \<noteq> []" "isfile os ?f" "config_lines os ?f = None"
    | (cfg) lines where "b \<noteq> []" "isfile os ?f" "config_lines os ?f = Some lines" by fastforce
  then show ?case
  proof cases
    case top
    then show ?thesis using s "1.prems" config_after_Nil [of c] like_refl [of c] by (auto simp: loop read)
  next
    case none
    then show ?thesis using "1.IH"(1) [OF _ s [symmetric] none(1) refl] "1.prems" s by (simp add: loop read)
  next
    case bad
    then show ?thesis using s "1.prems" config_after_Nil [of c] by (auto simp: loop read like_def)
  next
    case cfg
    let ?ss = "List.map_filter cfg_setting lines"
    let ?more = "if ''set noparent'' \<in> fst ` set ?ss then [] else settings_read os d"
    have r: "settings_read os abs_filename = map (Pair b) ?ss @ ?more" using cfg s by (simp add: read Let_def)
    have "follows (verdict os ?more) (\<lambda>c'. \<exists>c''. config_after c (map (Pair b) ?ss @ ?more) c'' \<and> like c'' c') (config_loop os filename d c1)"
      if c1: "config_after c (map (Pair b) ?ss) c1" "cfg_lines os filename ?f b lines c = Inr (True, c1)" for c1
    proof (cases "''set noparent'' \<in> fst ` set ?ss")
      case True
      then have "\<not> c_keep_looking c1" using c1(1) by (simp add: config_after_def comp_def Let_def)
      then show ?thesis using True c1(1) like_refl [of c1] by (auto simp: config_loop.simps [of os filename d])
    next
      case False
      then have "c_keep_looking c1" using c1(1) "1.prems" by (simp add: config_after_def comp_def Let_def)
      then have "follows (verdict os (settings_read os d)) (\<lambda>c'. \<exists>c''. config_after c1 (settings_read os d) c'' \<and> like c'' c')
          (config_loop os filename d c1)"
        using "1.IH"(2) [OF _ s [symmetric] cfg(1) refl _ cfg(3) c1(2) refl TrueI] cfg(2) "1.prems" by simp
      then show ?thesis using False config_after_trans [OF c1(1)] by (auto simp: follows_def split: sum.splits)
    qed
    then have "follows (bindR (verdict os (map (Pair b) ?ss)) (\<lambda>go. if go then verdict os ?more else Inr False))
        (\<lambda>c'. \<exists>c''. config_after c (map (Pair b) ?ss @ ?more) c'' \<and> like c'' c')
        (bindR (cfg_lines os filename ?f b lines c) (\<lambda>(go, c'). if go then config_loop os filename d c' else Inr (False, c')))"
      by (rule follows_bind [OF cfg_lines_after [OF cfg(1)]])
    then show ?thesis using cfg s "1.prems" unfolding r verdict_append by (simp add: loop)
  qed
qed

definition filter_items :: "string \<Rightarrow> string list" where
  "filter_items fs = filter (\<lambda>f. f \<noteq> []) (map py_strip (py_split '','' fs))"

lemma add_filters_all:
  assumes "list_all filter_ok (filters st)"
  shows "foldR add_filters st fss =
    (if list_all filter_ok (concat (map filter_items fss)) then Inr (st\<lparr>filters := filters st @ concat (map filter_items fss)\<rparr>)
     else Inl ValueError)"
  using assms
proof (induction fss arbitrary: st)
  case (Cons fs fss)
  have "add_filters st fs = (if list_all filter_ok (filter_items fs) then Inr (st\<lparr>filters := filters st @ filter_items fs\<rparr>) else Inl ValueError)"
    using Cons.prems by (simp add: add_filters_def AddFilters_def Let_def filter_items_def)
  then show ?case using Cons.IH [of "st\<lparr>filters := filters st @ filter_items fs\<rparr>"] Cons.prems by simp
qed simp

text \<open>The settings for a file, the filters among them in the order in which they are added, the line length and the root.\<close>

abbreviation file_verdict :: "os_env \<Rightarrow> string \<Rightarrow> bool res" where
  "file_verdict os filename \<equiv> verdict os (settings_read os (os_abspath (cwd (os_path os)) filename))"

definition file_settings :: "os_env \<Rightarrow> string \<Rightarrow> (string \<times> string) list" where
  "file_settings os filename = map snd (settings_read os (os_abspath (cwd (os_path os)) filename))"

definition file_filters :: "os_env \<Rightarrow> string \<Rightarrow> string list" where
  "file_filters os filename = concat (map filter_items (rev (values_of ''filter'' (file_settings os filename))))"

definition file_length :: "os_env \<Rightarrow> string \<Rightarrow> program \<Rightarrow> int" where
  "file_length os filename p = last (p_line_length p # lengths (file_settings os filename))"

definition file_root :: "os_env \<Rightarrow> string \<Rightarrow> program \<Rightarrow> string option" where
  "file_root os filename p = last (p_root p # map Some (values_of ''root'' (file_settings os filename)))"

lemma config_settings:
  assumes "filters_valid (p_lint p)"
  shows "case file_verdict os filename of
      Inl e \<Rightarrow> ProcessConfigOverrides os filename p = Inl e
    | Inr go \<Rightarrow>
        if go \<and> \<not> list_all filter_ok (file_filters os filename) then ProcessConfigOverrides os filename p = Inl ValueError
        else \<exists>p'. ProcessConfigOverrides os filename p = Inr (go, p') \<and> (go \<longrightarrow>
          p_line_length p' = file_length os filename p \<and> p_root p' = file_root os filename p \<and>
          filters (cpp_state (p_lint p')) = filters (cpp_state (p_lint p)) @ file_filters os filename)"
proof -
  let ?c = "\<lparr>c_filters = [], c_keep_looking = True, c_program = p\<rparr>" and ?f = "os_abspath (cwd (os_path os)) filename"
  note loop = config_loop_after [of ?c os ?f filename, simplified]
  show ?thesis
  proof (cases "file_verdict os filename")
    case (Inl e)
    then show ?thesis using loop by (simp add: ProcessConfigOverrides_def)
  next
    case (Inr go)
    show ?thesis
    proof (cases go)
      case True
      then obtain c c' where c: "config_loop os filename ?f ?c = Inr (True, c)" "config_after ?c (settings_read os ?f) c'" "like c' c"
        using loop Inr by auto
      have st: "cpp_state (p_lint (c_program c)) = cpp_state (p_lint p)"
        using c(2,3) by (auto simp: config_after_def like_def noticed_def Let_def)
      have f: "concat (map filter_items (rev (c_filters c))) = file_filters os filename"
        using c(2,3) by (simp add: config_after_def like_def file_filters_def file_settings_def Let_def)
      have "foldR add_filters (cpp_state (p_lint p)) (rev (c_filters c)) =
          (if list_all filter_ok (file_filters os filename)
           then Inr ((cpp_state (p_lint p))\<lparr>filters := filters (cpp_state (p_lint p)) @ file_filters os filename\<rparr>) else Inl ValueError)"
        using add_filters_all [of "cpp_state (p_lint p)" "rev (c_filters c)"] assms unfolding f filters_valid_def by blast
      moreover have "p_line_length (c_program c) = file_length os filename p \<and> p_root (c_program c) = file_root os filename p"
        using c(2,3) by (simp add: config_after_def like_def file_length_def file_root_def file_settings_def Let_def)
      ultimately show ?thesis using Inr True
        by (simp add: ProcessConfigOverrides_def c(1) st) (simp add: set_cpp_def)
    next
      case False
      then show ?thesis using loop Inr by (auto simp: ProcessConfigOverrides_def)
    qed
  qed
qed

text \<open>The exceptions of the configuration files, as they are raised.\<close>

definition config_fault :: "os_env \<Rightarrow> string \<Rightarrow> py_error \<Rightarrow> bool" where
  "config_fault os filename e \<longleftrightarrow> file_verdict os filename = Inl e \<or>
     (e = ValueError \<and> file_verdict os filename = Inr True \<and> \<not> list_all filter_ok (file_filters os filename))"

lemma ProcessConfigOverrides_result:
  assumes "filters_valid (p_lint p)"
  shows "outcome (config_fault os filename)
    (\<lambda>(go, p'). overridden p p' \<and> file_verdict os filename = Inr go \<and> (go \<longrightarrow> p_root p' = file_root os filename p))
    (ProcessConfigOverrides os filename p)"
  using ProcessConfigOverrides_outcome [OF assms, of os filename] config_settings [OF assms, of os filename]
  by (auto simp: outcome_def config_fault_def split: sum.splits if_splits)

text \<open>C6: \<open>ProcessConfigOverrides\<close> reads the configuration files from the directory of the file outwards. It raises the error of
  \<open>re.compile\<close> or refuses the file exactly when the first deciding \<open>exclude_files\<close> asks for it, and raises \<open>ValueError\<close>
  exactly when a filter of a file that is let through is malformed. Otherwise the filters of inner directories come behind
  those of outer ones and so decide, but of the line lengths and roots the one read last stays, which is that of the outermost directory.\<close>

theorem ProcessConfigOverrides_spec:
  assumes "filters_valid (p_lint p)"
  shows "case file_verdict os filename of
      Inl e \<Rightarrow> ProcessConfigOverrides os filename p = Inl e
    | Inr go \<Rightarrow>
        if go \<and> \<not> list_all filter_ok (file_filters os filename) then ProcessConfigOverrides os filename p = Inl ValueError
        else \<exists>p'. ProcessConfigOverrides os filename p = Inr (go, p') \<and> (go \<longrightarrow>
          p_line_length p' = file_length os filename p \<and> p_root p' = file_root os filename p \<and>
          filters (cpp_state (p_lint p')) = filters (cpp_state (p_lint p)) @ file_filters os filename)"
  using assms by (rule config_settings)

text \<open>A system with two directories that both hold a configuration file, and a third without one.\<close>

definition sample_os :: os_env where
  "sample_os =
     \<lparr>os_path = \<lparr>cwd = ''/'', exists = \<lambda>_. False\<rparr>,
      isfile = (\<lambda>f. f = ''/a/CPPLINT.cfg'' \<or> f = ''/a/b/CPPLINT.cfg''),
      config_lines = map_of
        [(''/a/CPPLINT.cfg'', [''linelength=100'', ''filter=-build'']),
         (''/a/b/CPPLINT.cfg'', [''linelength=120  # wide'', ''exclude_files=gen_.*'', ''filter=+build/include''])],
      source_text = map_of [(''/a/b/f.cc'', ''int x;'' @ [newline]), (''/c/g.cc'', ''int y;'' @ [newline])],
      header_lines = \<lambda>_. None, iteration = id, iteritems = \<lambda>_. [], re_compiler = re_compile, replacement_text = ''?'',
      unicodedata = \<lparr>normalize_nfc = id, east_asian_wide = \<lambda>_. False, combining = \<lambda>_. False\<rparr>\<rparr>"

lemma sample_values:
  "file_verdict sample_os ''/a/b/f.cc'' = Inr True" "file_verdict sample_os ''/a/b/gen_f.cc'' = Inr False"
  "file_filters sample_os ''/a/b/f.cc'' = [''-build'', ''+build/include'']"
  "list_all filter_ok [''-build'', ''+build/include'']"
  "file_length sample_os ''/a/b/f.cc'' (program_init []) = 100"
  "filters_valid (p_lint (program_init []))" "lint_ok (p_lint (program_init []))"
  by code_simp+

theorem ProcessConfigOverrides_spec_witness:
  "(\<exists>p'. ProcessConfigOverrides sample_os ''/a/b/f.cc'' (program_init []) = Inr (True, p') \<and> p_line_length p' = 100 \<and>
     filters (cpp_state (p_lint p')) = filters (cpp_state (p_lint (program_init []))) @ [''-build'', ''+build/include'']) \<and>
   (\<exists>p'. ProcessConfigOverrides sample_os ''/a/b/gen_f.cc'' (program_init []) = Inr (False, p'))"
  using ProcessConfigOverrides_spec [OF sample_values(6), of sample_os "''/a/b/f.cc''"]
    ProcessConfigOverrides_spec [OF sample_values(6), of sample_os "''/a/b/gen_f.cc''"]
  unfolding sample_values by (auto simp: sample_values(4) [simplified])

section \<open>A file keeps the settings\<close>

definition linted :: "program \<Rightarrow> program \<Rightarrow> bool" where
  "linted p p' \<longleftrightarrow> lint_ok (p_lint p') \<and> same_settings (cpp_state (p_lint p)) (cpp_state (p_lint p')) \<and>
     (\<exists>ms. wrote p ms p') \<and> p_extensions p' = p_extensions p \<and> p_stdin p' = p_stdin p"

lemma linted_write: "lint_ok (p_lint p) \<Longrightarrow> linted p (write_err s p)"
  by (auto simp: linted_def write_err_def lint_ok_def filters_valid_def same_settings_def wrote_def render_def documented_def
      intro!: exI [of _ "[Inr s]"])

lemma linted_trans: "linted p q \<Longrightarrow> linted q r \<Longrightarrow> linted p r"
  by (auto simp: linted_def same_settings_def dest: wrote_trans)

lemma reported_trans: "reported_since a b \<Longrightarrow> reported_since b c \<Longrightarrow> reported_since a c"
  by (auto simp: reported_since_def same_settings_def) (metis length_append list_all_append map_append add.assoc)

lemma carriage_return_valid [simp]: "valid_diag (carriage_return filename n)"
  by (simp add: carriage_return_def)

text \<open>The exceptions of linting a text: a root that is no pattern, or an overrun.\<close>

definition text_error :: "os_env \<Rightarrow> string option \<Rightarrow> string \<Rightarrow> string \<Rightarrow> py_error \<Rightarrow> bool" where
  "text_error os root_dir filename source e \<longleftrightarrow> (\<exists>r. root_dir = Some r \<and> re_compiler os (''^'' @ r @ ''/'') = Inl e) \<or>
     (e = IndexError \<and> file_overruns Error filename (unix_lines (py_split [newline] source)))"

lemma lint_text_outcome:
  assumes "lint_ok (p_lint p)" "\<And>ks. set (iteration os ks) \<subseteq> set ks"
  shows "outcome (text_error os (p_root p) filename source) (linted p) (lint_text os [] filename source p)"
proof (cases "filename \<noteq> ''-'' \<and> file_extension_of filename \<notin> set (p_extensions p)")
  case True
  then show ?thesis by (simp add: lint_text_def outcome_def linted_write assms(1))
next
  case valid: False
  let ?ext = "file_extension_of filename" and ?lines = "py_split [newline] source"
  let ?I = "\<lambda>st. lint_ok st \<and> reported_since (p_lint p) st"
  let ?E = "text_error os (p_root p) filename source"
  have r: "outcome ?E (\<lambda>_. True) (root_pattern os p ?ext)"
    by (auto simp: root_pattern_def outcome_def text_error_def bindR_def split: option.splits sum.splits)
  have data: "outcome ?E ?I (ProcessFileData (run_globals os p x) Error filename ?ext (unix_lines ?lines) [] (p_lint p))" for x
    by (rule outcome_mono [OF file_reported.ProcessFileData_outcome])
      (use assms reported_since_refl in \<open>auto simp: run_globals_def text_error_def\<close>)
  have ends: "outcome ?E ?I (if b then foldR Error lst (map (carriage_return filename) ns) else Inr lst)" if "?I lst" for b ns lst
  proof (cases b)
    case True
    have "list_all valid_diag (map (carriage_return filename) ns)" by (simp add: list_all_iff)
    then show ?thesis using file_reported.reports_return [OF _ that] True by (simp add: outcome_returns)
  qed (use that in \<open>simp add: outcome_def\<close>)
  have fin: "linted p (p\<lparr>p_lint := lst\<rparr>)" if "?I lst" for lst
    using that wrote_reports [of p lst] by (auto simp: linted_def reported_since_def)
  have "lint_text os [] filename source p =
      bindR (root_pattern os p ?ext) (\<lambda>r.
        bindR (ProcessFileData (run_globals os p r) Error filename ?ext (unix_lines ?lines) [] (p_lint p)) (\<lambda>lst.
        bindR (if lf_lines ?lines \<noteq> [] \<and> crlf_lines ?lines \<noteq> []
               then foldR Error lst (map (carriage_return filename) (crlf_lines ?lines)) else Inr lst) (\<lambda>lst'.
          Inr (p\<lparr>p_lint := lst'\<rparr>))))"
    using valid by (auto simp: lint_text_def Let_def)
  also have "outcome ?E (linted p) \<dots>"
    by (intro outcome_bind [OF r] outcome_bind [OF data] outcome_bind [OF ends]) (auto simp: outcome_def fin)
  finally show ?thesis .
qed

text \<open>Inside \<open>ProcessFile\<close> the filters found at its start are in the backup; at its end they are back.\<close>

definition in_file :: "int \<Rightarrow> program \<Rightarrow> program \<Rightarrow> bool" where
  "in_file v p q \<longleftrightarrow> lint_ok (p_lint q) \<and> verbose_level (cpp_state (p_lint q)) = v \<and>
     filters_backup (cpp_state (p_lint q)) = filters (cpp_state (p_lint p)) \<and>
     counting (cpp_state (p_lint q)) = counting (cpp_state (p_lint p)) \<and> p_extensions q = p_extensions p \<and> (\<exists>ms. wrote p ms q)"

definition processed :: "int \<Rightarrow> program \<Rightarrow> program \<Rightarrow> bool" where
  "processed v p q \<longleftrightarrow> lint_ok (p_lint q) \<and> verbose_level (cpp_state (p_lint q)) = v \<and>
     filters (cpp_state (p_lint q)) = filters (cpp_state (p_lint p)) \<and>
     counting (cpp_state (p_lint q)) = counting (cpp_state (p_lint p)) \<and> p_extensions q = p_extensions p \<and> (\<exists>ms. wrote p ms q)"

lemma in_file_start:
  "lint_ok (p_lint p) \<Longrightarrow> 0 \<le> v \<Longrightarrow> in_file v p (set_cpp (BackupFilters (fst (SetVerboseLevel v (cpp_state (p_lint p))))) p)"
  by (auto simp: in_file_def set_cpp_def BackupFilters_def SetVerboseLevel_def lint_ok_def filters_valid_def wrote_def
      intro!: exI [of _ "[]"])

lemma in_file_overridden:
  assumes "in_file v p q" "overridden q q'"
  shows "in_file v p q'"
proof -
  obtain ns xs where q': "p_lint q' = (p_lint q)\<lparr>stderr := stderr (p_lint q) @ ns,
      cpp_state := (cpp_state (p_lint q))\<lparr>filters := filters (cpp_state (p_lint q)) @ xs\<rparr>\<rparr>"
    using assms(2) by (auto simp: overridden_def)
  obtain ms where ms: "wrote p ms q" using assms(1) by (auto simp: in_file_def)
  obtain ks where "map (render (output_format (cpp_state (p_lint q)))) ks = ns" "list_all documented ks" "filter isl ks = []"
    using wrote_notices by blast
  then have "wrote q ks q'" by (simp add: wrote_def q')
  then show ?thesis using assms wrote_trans [OF ms] by (auto simp: in_file_def overridden_def lint_ok_def q')
qed

lemma in_file_linted: "in_file v p q \<Longrightarrow> linted q q' \<Longrightarrow> in_file v p q'"
  by (auto simp: in_file_def linted_def same_settings_def dest: wrote_trans)

lemma in_file_stdin: "in_file v p q \<Longrightarrow> in_file v p (q\<lparr>p_stdin := s\<rparr>)"
  by (simp add: in_file_def wrote_def)

lemma processed_end: "in_file v p q \<Longrightarrow> lint_ok (p_lint p) \<Longrightarrow> processed v p (restore_filters q)"
  by (auto simp: processed_def in_file_def restore_filters_def set_cpp_def RestoreFilters_def lint_ok_def filters_valid_def wrote_def)

text \<open>The text of a file, and the exceptions of processing it.\<close>

definition input_of :: "os_env \<Rightarrow> program \<Rightarrow> string \<Rightarrow> string option" where
  "input_of os p filename = fst (read_input os filename p)"

definition file_error :: "os_env \<Rightarrow> program \<Rightarrow> string \<Rightarrow> py_error \<Rightarrow> bool" where
  "file_error os p filename e \<longleftrightarrow> config_fault os filename e \<or>
     (file_verdict os filename = Inr True \<and>
      (\<exists>source. input_of os p filename = Some source \<and> text_error os (file_root os filename p) filename source e))"

lemma ProcessFile_result:
  assumes "lint_ok (p_lint p)" "0 \<le> v" "\<And>ks. set (iteration os ks) \<subseteq> set ks"
  shows "outcome (file_error os p filename) (processed v p) (ProcessFile os v [] p filename)"
proof -
  let ?p1 = "set_cpp (BackupFilters (fst (SetVerboseLevel v (cpp_state (p_lint p))))) p"
  let ?rest = "\<lambda>(go, p2). if \<not> go then Inr (restore_filters p2)
      else case read_input os filename p2 of
        (None, p3) \<Rightarrow> Inr (restore_filters (write_err (''Skipping input '' @ [squote] @ filename @ [squote] @
            '': Can'' @ [squote] @ ''t open for reading'' @ [newline]) p3))
      | (Some source, p3) \<Rightarrow> bindR (lint_text os [] filename source p3) (\<lambda>p4.
            Inr (restore_filters (write_err (''Done processing '' @ filename @ [newline]) p4)))"
  have start: "in_file v p ?p1" by (rule in_file_start [OF assms(1,2)])
  then have valid: "filters_valid (p_lint ?p1)" by (simp add: in_file_def lint_ok_def)
  have fin: "processed v p (restore_filters q)" if "in_file v p q" for q
    by (rule processed_end [OF that assms(1)])
  have noted: "in_file v p (write_err s q)" if "in_file v p q" for s q
    using in_file_linted [OF that] linted_write that by (simp add: in_file_def)
  have rest: "outcome (file_error os p filename) (processed v p) (?rest (go, p2))"
    if o: "overridden ?p1 p2" and v: "file_verdict os filename = Inr go" and root: "go \<longrightarrow> p_root p2 = file_root os filename ?p1" for go p2
  proof -
    have p2: "in_file v p p2" by (rule in_file_overridden [OF start o])
    obtain input p3 where i: "read_input os filename p2 = (input, p3)" by (cases "read_input os filename p2")
    have p3: "in_file v p p3" using i in_file_stdin [OF p2] p2 by (auto simp: read_input_def split: if_splits)
    have "p_stdin p2 = p_stdin p" using o by (simp add: overridden_def set_cpp_def)
    then have inp: "input_of os p filename = input" using i by (auto simp: input_of_def read_input_def split: if_splits)
    have rt: "p_root p3 = file_root os filename p" if go
      using that root i by (auto simp: read_input_def file_root_def set_cpp_def split: if_splits)
    show ?thesis
    proof (cases input)
      case None
      then show ?thesis using i fin [OF p2] fin [OF noted [OF p3]] by (simp add: outcome_def)
    next
      case (Some source)
      have "lint_ok (p_lint p3)" using p3 by (simp add: in_file_def)
      note lint = lint_text_outcome [OF this assms(3), of filename source]
      have "outcome (file_error os p filename) (processed v p) (bindR (lint_text os [] filename source p3) (\<lambda>p4.
          Inr (restore_filters (write_err (''Done processing '' @ filename @ [newline]) p4))))" if go
        by (rule outcome_bind [OF outcome_mono [OF lint]])
          (use inp Some v rt [OF that] that in \<open>auto simp: file_error_def outcome_def intro: fin noted in_file_linted [OF p3]\<close>)
      then show ?thesis using i Some fin [OF p2] by (auto simp: outcome_def)
    qed
  qed
  have "outcome (file_error os p filename) (processed v p) (bindR (ProcessConfigOverrides os filename ?p1) ?rest)"
    by (rule outcome_bind [OF outcome_mono [OF ProcessConfigOverrides_result [OF valid]]])
      (use rest in \<open>auto simp: file_error_def\<close>)
  then show ?thesis by (simp only: ProcessFile_def Let_def)
qed

section \<open>Runs\<close>

lemma restore_settings [simp]: "p_line_length (restore_filters p) = p_line_length p" "p_root (restore_filters p) = p_root p"
  by (simp_all add: restore_filters_def set_cpp_def)

lemma lint_text_settings:
  "lint_text os extra filename source p = Inr p' \<Longrightarrow> p_line_length p' = p_line_length p \<and> p_root p' = p_root p"
  by (auto simp: lint_text_def Let_def bindR_Inr_iff split: if_splits)

lemma ProcessFile_settings:
  assumes "ProcessFile os v extra p filename = Inr p'"
    "ProcessConfigOverrides os filename (set_cpp (BackupFilters (fst (SetVerboseLevel v (cpp_state (p_lint p))))) p) = Inr (go, q)"
  shows "p_line_length p' = p_line_length q \<and> p_root p' = p_root q"
  using assms
  by (auto simp: ProcessFile_def read_input_def bindR_Inr_iff dest!: lint_text_settings split: if_splits option.splits prod.splits)

text \<open>A line length set by a configuration file outlives the file it was read for: the next file, in a directory without any
  configuration, is checked against it.\<close>

theorem linelength_persists:
  assumes "ProcessFile os v [] p f = Inr p'" "lint_ok (p_lint p)" "0 \<le> v" "\<And>ks. set (iteration os ks) \<subseteq> set ks"
    and "file_verdict os f = Inr True" "file_settings os g = []"
  shows "\<exists>q. ProcessConfigOverrides os g p' = Inr (True, q) \<and> line_length (run_globals os q r) = file_length os f p"
proof -
  let ?p1 = "set_cpp (BackupFilters (fst (SetVerboseLevel v (cpp_state (p_lint p))))) p"
  have "in_file v p ?p1" by (rule in_file_start [OF assms(2,3)])
  then have "filters_valid (p_lint ?p1)" by (simp add: in_file_def lint_ok_def)
  then obtain p2 where p2: "ProcessConfigOverrides os f ?p1 = Inr (True, p2)" "p_line_length p2 = file_length os f ?p1"
    using config_settings [of ?p1 os f] assms(1,5) by (auto simp: ProcessFile_def Let_def split: if_splits)
  have len: "p_line_length p' = file_length os f p"
    using ProcessFile_settings [OF assms(1) p2(1)] p2(2) by (simp add: file_length_def set_cpp_def)
  have g: "file_verdict os g = Inr True" "file_filters os g = []" "file_length os g p' = p_line_length p'"
    using assms(6) by (simp_all add: file_settings_def file_filters_def file_length_def lengths_def values_of_def)
  have "filters_valid (p_lint p')"
    using ProcessFile_result [OF assms(2,3,4), of f] assms(1) by (simp add: outcome_def processed_def lint_ok_def)
  then obtain q where "ProcessConfigOverrides os g p' = Inr (True, q)" "p_line_length q = p_line_length p'"
    using config_settings [of p' os g] g by auto
  then show ?thesis using len by (auto simp: run_globals_def)
qed

lemma sample_os_laws:
  "set (iteration sample_os ks) \<subseteq> set ks" "RepositoryName (os_path sample_os) f \<noteq> None"
  by (simp_all add: sample_os_def RepositoryName_def Let_def)

lemma sample_missing:
  "file_verdict sample_os ''/a/b/missing.cc'' = Inr True" "file_filters sample_os ''/a/b/missing.cc'' = [''-build'', ''+build/include'']"
  "file_length sample_os ''/a/b/missing.cc'' (program_init []) = 100" "source_text sample_os ''/a/b/missing.cc'' = None"
  "file_settings sample_os ''/c/g.cc'' = []"
  by code_simp+

theorem linelength_persists_witness:
  "\<exists>p' q. ProcessFile sample_os 1 [] (program_init []) ''/a/b/missing.cc'' = Inr p' \<and>
     ProcessConfigOverrides sample_os ''/c/g.cc'' p' = Inr (True, q) \<and> line_length (run_globals sample_os q None) = 100"
proof -
  let ?p = "program_init []" and ?f = "''/a/b/missing.cc''"
  let ?p1 = "set_cpp (BackupFilters (fst (SetVerboseLevel 1 (cpp_state (p_lint ?p))))) ?p"
  note ok = sample_values(7)
  have "filters_valid (p_lint ?p1)" using in_file_start [OF ok, of 1] by (simp add: in_file_def lint_ok_def)
  then obtain p2 where "ProcessConfigOverrides sample_os ?f ?p1 = Inr (True, p2)"
    using config_settings [of ?p1 sample_os ?f] sample_values(4) unfolding sample_missing by auto
  then have "\<exists>p'. ProcessFile sample_os 1 [] ?p ?f = Inr p'"
    by (simp add: ProcessFile_def Let_def read_input_def sample_missing(4))
  then obtain p' where p': "ProcessFile sample_os 1 [] ?p ?f = Inr p'" by blast
  show ?thesis
    using linelength_persists [OF p' ok _ sample_os_laws(1) sample_missing(1,5), of None] p' sample_missing(3) by auto
qed

text \<open>C7: With accepted filters and a verbosity that is not negative, \<open>ProcessFile\<close> returns with the filters, the counting
  style, the output format and the extensions as they were and with the given verbosity, whether the file was linted, excluded, unreadable or of a
  wrong kind, and has written notices and one line per counted error. The line length and the root are not restored: for a file
  that is not excluded they are those of its configuration files. It raises only the errors of its configuration files (a malformed
  filter, an exclusion that is no pattern), that of a root that is no pattern, or \<open>IndexError\<close> for an overrun in the file.\<close>

theorem ProcessFile_restores:
  assumes "lint_ok (p_lint p)" "0 \<le> v" "\<And>ks. set (iteration os ks) \<subseteq> set ks" "\<And>f. RepositoryName (os_path os) f \<noteq> None"
  shows "case ProcessFile os v [] p filename of
           Inl e \<Rightarrow> file_error os p filename e
         | Inr p' \<Rightarrow> lint_ok (p_lint p') \<and> verbose_level (cpp_state (p_lint p')) = v \<and>
             filters (cpp_state (p_lint p')) = filters (cpp_state (p_lint p)) \<and>
             counting (cpp_state (p_lint p')) = counting (cpp_state (p_lint p)) \<and>
             output_format (cpp_state (p_lint p')) = output_format (cpp_state (p_lint p)) \<and>
             p_extensions p' = p_extensions p \<and> (\<exists>ms. wrote p ms p') \<and>
             (file_verdict os filename = Inr True \<longrightarrow>
                p_line_length p' = file_length os filename p \<and> p_root p' = file_root os filename p)"
proof (cases "ProcessFile os v [] p filename")
  case (Inl e)
  then show ?thesis using ProcessFile_result [OF assms(1-3), of filename] by (simp add: outcome_def)
next
  case (Inr p')
  let ?p1 = "set_cpp (BackupFilters (fst (SetVerboseLevel v (cpp_state (p_lint p))))) p"
  have "in_file v p ?p1" by (rule in_file_start [OF assms(1,2)])
  then have "filters_valid (p_lint ?p1)" by (simp add: in_file_def lint_ok_def)
  note cfg = config_settings [OF this, of os filename]
  have "p_line_length p' = file_length os filename p \<and> p_root p' = file_root os filename p" if v: "file_verdict os filename = Inr True"
  proof -
    obtain q where q: "ProcessConfigOverrides os filename ?p1 = Inr (True, q)" "p_line_length q = file_length os filename ?p1"
        "p_root q = file_root os filename ?p1"
      using cfg v Inr by (auto simp: ProcessFile_def Let_def split: if_splits)
    then show ?thesis using ProcessFile_settings [OF Inr q(1)] by (simp add: file_length_def file_root_def set_cpp_def)
  qed
  then show ?thesis using ProcessFile_result [OF assms(1-3), of filename] Inr
    by (auto simp: outcome_def processed_def wrote_def)
qed

theorem ProcessFile_restores_witness:
  "case ProcessFile sample_os 1 [] (program_init []) ''/a/b/f.cc'' of
     Inl e \<Rightarrow> file_error sample_os (program_init []) ''/a/b/f.cc'' e
   | Inr p' \<Rightarrow> lint_ok (p_lint p') \<and> verbose_level (cpp_state (p_lint p')) = 1 \<and>
       filters (cpp_state (p_lint p')) = filters (cpp_state (p_lint (program_init []))) \<and>
       p_line_length p' = 100"
proof -
  note ProcessFile_restores [of "program_init []" 1 sample_os "''/a/b/f.cc''"]
  then show ?thesis using sample_values(1,5,7) sample_os_laws by (auto split: sum.splits)
qed

lemma process_files_result:
  assumes "lint_ok (p_lint p)" "\<And>ks. set (iteration os ks) \<subseteq> set ks"
  shows "case process_files os p files of
      Inl e \<Rightarrow> \<exists>pre f post q. files = pre @ f # post \<and> process_files os p pre = Inr q \<and> file_error os q f e
    | Inr q \<Rightarrow> lint_ok (p_lint q) \<and> (\<exists>ms. wrote p ms q)"
proof (induction files rule: rev_induct)
  case Nil
  show ?case using assms(1) by (auto simp: process_files_def wrote_def intro!: exI [of _ "[]"])
next
  case (snoc f files)
  show ?case
  proof (cases "process_files os p files")
    case (Inl e)
    then obtain pre g post q where "files = pre @ g # post" "process_files os p pre = Inr q" "file_error os q g e"
      using snoc by auto
    moreover have "process_files os p (files @ [f]) = Inl e" using Inl by (simp add: process_files_def foldR_append)
    ultimately show ?thesis by auto
  next
    case (Inr q)
    let ?v = "verbose_level (cpp_state (p_lint q))"
    obtain ms where q: "lint_ok (p_lint q)" "wrote p ms q" using snoc Inr by auto
    then have "0 \<le> ?v" by (simp add: lint_ok_def)
    note f = ProcessFile_result [OF q(1) this assms(2), of f]
    have s: "process_files os p (files @ [f]) = ProcessFile os ?v [] q f"
      using Inr by (cases "ProcessFile os ?v [] q f") (simp_all add: process_files_def foldR_append)
    show ?thesis
    proof (cases "ProcessFile os ?v [] q f")
      case (Inl e)
      then have "file_error os q f e" using f by (simp add: outcome_def)
      then show ?thesis using s Inl Inr by fastforce
    next
      case (Inr q')
      then show ?thesis using f s wrote_trans [OF q(2)] by (auto simp: outcome_def processed_def)
    qed
  qed
qed

lemma ParseArguments_filters: "ParseArguments args p = Inr (files, p') \<Longrightarrow> filters_valid (p_lint p')"
  by (auto simp: ParseArguments_def SetFilters_def AddFilters_def Let_def bindR_Inr_iff filters_valid_def set_cpp_def
      SetCountingStyle_def split: option.splits if_splits)

text \<open>C5: A run whose options were accepted writes notices, one line per error, each from a documented report, and the summary
  of the counts, and it exits with status 1 exactly when an error line was written. Otherwise it crashed on one of the
  files, all files before it having been processed: a configuration of that file is malformed, its root is no pattern, or a line of it
  overruns one of the two checks.\<close>

theorem main_status:
  assumes "ParseArguments args p = Inr (files, p1)" "0 \<le> verbose_level (cpp_state (p_lint p1))"
    and "\<And>ks. set (iteration os ks) \<subseteq> set ks" "\<And>f. RepositoryName (os_path os) f \<noteq> None"
  shows "case main os args p of
           Crashed e \<Rightarrow> \<exists>pre f post q. files = pre @ f # post \<and> file_error os q f e \<and>
             process_files os (set_cpp (ResetErrorCounts (cpp_state (p_lint p1))) p1) pre = Inr q
         | Exited err status \<Rightarrow> \<exists>ms st. list_all documented ms \<and>
             err = stderr (p_lint p1) @ map (render (output_format (cpp_state (p_lint p1)))) ms @
                   PrintErrorCounts (iteritems os (errors_by_category st)) st \<and>
             error_count st = length (filter isl ms) \<and> status = (if \<exists>m \<in> set ms. isl m then 1 else 0)"
proof -
  let ?p2 = "set_cpp (ResetErrorCounts (cpp_state (p_lint p1))) p1"
  have ok: "lint_ok (p_lint ?p2)" using ParseArguments_filters [OF assms(1)] assms(2)
    by (simp add: lint_ok_def filters_valid_def set_cpp_def ResetErrorCounts_def)
  note files = process_files_result [OF ok assms(3), of files]
  show ?thesis
  proof (cases "process_files os ?p2 files")
    case (Inl e)
    then show ?thesis using files assms(1) by (auto simp: main_def)
  next
    case (Inr q)
    then obtain ms where w: "wrote ?p2 ms q" using files by auto
    have z: "error_count (cpp_state (p_lint ?p2)) = 0" "stderr (p_lint ?p2) = stderr (p_lint p1)"
        "output_format (cpp_state (p_lint ?p2)) = output_format (cpp_state (p_lint p1))"
      by (simp_all add: set_cpp_def ResetErrorCounts_def)
    have "(\<exists>m \<in> set ms. isl m) \<longleftrightarrow> 0 < error_count (cpp_state (p_lint q))"
      using w z(1) by (auto simp: wrote_def filter_empty_conv)
    moreover have m: "main os args p = Exited (stderr (p_lint q) @ PrintErrorCounts (iteritems os (errors_by_category (cpp_state (p_lint q))))
        (cpp_state (p_lint q))) (if 0 < error_count (cpp_state (p_lint q)) then 1 else 0)"
      using Inr assms(1) by (simp add: main_def Let_def)
    ultimately show ?thesis unfolding m run.case
      by (intro exI [of _ ms] exI [of _ "cpp_state (p_lint q)"]) (use w z in \<open>simp add: wrote_def\<close>)
  qed
qed

theorem main_status_witness:
  "\<exists>p1. ParseArguments [''/c/g.cc''] (program_init []) = Inr ([''/c/g.cc''], p1) \<and>
     (case main sample_os [''/c/g.cc''] (program_init []) of
        Crashed e \<Rightarrow> \<exists>q. file_error sample_os q ''/c/g.cc'' e
      | Exited err status \<Rightarrow> \<exists>ms st. list_all documented ms \<and>
          err = stderr (p_lint p1) @ map (render (output_format (cpp_state (p_lint p1)))) ms @
                PrintErrorCounts (iteritems sample_os (errors_by_category st)) st \<and>
          error_count st = length (filter isl ms) \<and> status = (if \<exists>m \<in> set ms. isl m then 1 else 0))"
proof -
  have "filter_ok ''-build/include_alpha''" by code_simp
  then have "\<exists>p1. ParseArguments [''/c/g.cc''] (program_init []) = Inr ([''/c/g.cc''], p1) \<and> verbose_level (cpp_state (p_lint p1)) = 1"
    by (simp add: ParseArguments_def py_startswith_def SetFilters_def AddFilters_def DEFAULT_FILTERS_def Let_def SetVerboseLevel_def
        SetOutputFormat_def SetCountingStyle_def set_cpp_def program_init_def lint_init_def CppLintState_init_def py_split_def py_strip_def
        py_lstrip_def py_rstrip_def)
  then obtain p1 where p1: "ParseArguments [''/c/g.cc''] (program_init []) = Inr ([''/c/g.cc''], p1)" "verbose_level (cpp_state (p_lint p1)) = 1"
    by blast
  have run: "0 \<le> verbose_level (cpp_state (p_lint p1))" using p1(2) by simp
  show ?thesis
  proof (intro exI [of _ p1] conjI p1(1))
    show "case main sample_os [''/c/g.cc''] (program_init []) of
        Crashed e \<Rightarrow> \<exists>q. file_error sample_os q ''/c/g.cc'' e
      | Exited err status \<Rightarrow> \<exists>ms st. list_all documented ms \<and>
          err = stderr (p_lint p1) @ map (render (output_format (cpp_state (p_lint p1)))) ms @
                PrintErrorCounts (iteritems sample_os (errors_by_category st)) st \<and>
          error_count st = length (filter isl ms) \<and> status = (if \<exists>m \<in> set ms. isl m then 1 else 0)"
    proof (cases "main sample_os [''/c/g.cc''] (program_init [])")
      case (Crashed e)
      then show ?thesis using main_status [OF p1(1) run sample_os_laws] by (auto simp: Cons_eq_append_conv)
    next
      case (Exited err status)
      then show ?thesis using main_status [OF p1(1) run sample_os_laws] unfolding Exited run.case by blast
    qed
  qed
qed

end
