(* ===== verification/Spec2Isabelle.thy ===== *)
theory Spec2Isabelle
  imports Proto2bin Proto2obj Proto2conf Wizard2svr Codec_Props Packer_Props Obj_Convert Lint_Driver
begin

text \<open>
  A model of the Python programs of yarf: the code generators under \<open>src/tools\<close>, with the C++ that
  one of them emits, and the linter \<open>src/cpplint.py\<close>.

  \<^bold>\<open>Programs and their parts.\<close>
  The generators \<open>tools/proto2bin.py\<close> and \<open>tools/proto2obj4pb.py\<close> run protoc on a proto file, read
  the file a second time line by line for the annotations in its comments, and expand
  templates for every message and field into a C++ header and source. \<open>tools/proto2conf.py\<close> writes a
  skeleton of a configuration file for a root message, \<open>tools/wizard2svr.py\<close> lays out a new server
  project, \<open>tools/yarf_util.py\<close> holds helpers of all four. The code made by \<open>proto2bin.py\<close> calls the
  packer \<open>include/yarf/net/bin_packer.h\<close>. \<open>cpplint.py\<close> is a program of its own: a file is read,
  its comments and literals are blanked (\<open>CleansedLines\<close>), and checks look at the lines and report
  through one error handler, which consults the suppressions and the filters.

  \<^bold>\<open>Conventions.\<close>
  A string of Python 2 is a list of characters, with code points below 256 as HOL has them. An exception of Python is a value of \<open>py_error\<close>, and
  code that may raise returns a sum with the error on the left. Objects are records and every
  method that changes its object returns the new one. A loop that is not structural has its
  termination proved; a loop that may run forever returns an option or takes a bound, and the
  theorems say when it returns. Integers of the C++ code are words and their arithmetic wraps.
  What the programs ask of code outside the repository (protoc, the protobuf parser, the file system,
  the working directory, the platform, the answers at a prompt) is an argument.

  \<^bold>\<open>Theories.\<close>
  \<^item> \<open>Prelude\<close>, \<open>Py_String\<close>, \<open>Py_Regex\<close>, \<open>Py_Path\<close>: results, the operations on strings, the
    regular expressions and the functions of \<open>os.path\<close> that the programs use. A regular expression
    is a syntax tree and its matcher lists the matches in the order in which a backtracking
    engine tries them. Repetition stops at an iteration that consumes nothing, so the matcher is
    total on every pattern and needs no bound.
  \<^item> \<open>Yarf_Util\<close>: \<open>yarf_util.py\<close> and the file system it changes. \<open>first2upper\<close> is the
    capitalised join of the words of a name.
  \<^item> \<open>Templates\<close>, \<open>Bin_Templates\<close>, \<open>Obj_Templates\<close>: the templates of the generators, character by
    character, chains of \<open>str.replace\<close>, and the test that a template has no other placeholders
    than those its chain replaces.
  \<^item> \<open>Proto_Common\<close>: \<open>prototype2ctype\<close>, \<open>read_proto\<close>, \<open>find_field_opt\<close>, \<open>find_key_info\<close> of both
    generators. The line scanner is a fold of a step over the file; it computes the specified
    lines, block bounds and instruction lines, for files that declare a name twice as well, and fails
    exactly where specified. An annotation that is written is read back.
  \<^item> \<open>Proto_Driver\<close>, \<open>Proto2bin\<close>, \<open>Proto2obj\<close>: \<open>get_protodesc\<close>, \<open>gen_code\<close> and
    \<open>handle_proto\<close>. The loops append to several texts and stop at the first field they
    reject; the main theorems give the texts as concatenations over messages and fields, say
    exactly which inputs are accepted, and show that no placeholder is left.
  \<^item> \<open>Bin_Packer\<close>, \<open>Gen_Codec\<close>, \<open>Codec_Props\<close>: the encoder and decoder of the packer and the
    meaning of the generated setters, \<open>Encode\<close> and \<open>Decode\<close>, with the buffer as a byte list in
    which a write behind the end is visible. The wire form is the abstract specification. \<open>Encode\<close>
    refines it when repeated messages have at most one element, \<open>Decode\<close> always, and both together
    give the round trip; the exceptions are theorems too. A message whose last field is a repeated message
    with two or more elements is encoded without error to bytes that cannot be decoded. Members of type \<open>bool\<close> and \<open>double\<close>, for which
    the packer has no overload of \<open>Read\<close>, are left out.
  \<^item> \<open>Packer_Props\<close>: the rest of the packer and its use by itself. Steps of an encoder are a relation whose reachable states
    stay inside the buffer; sequences of values that fit are read back.
  \<^item> \<open>Gen_Obj\<close>, \<open>Obj_Convert\<close>: the meaning of the code that \<open>proto2obj4pb.py\<close> emits: the members of repeated fields, which
    implement a list of bounded length (locale \<open>bounded_list\<close>) but for an overlapping \<open>memcpy\<close>, and the conversions to and from
    protobuf messages, over accessors that are an argument with stated laws. The conversions are inverse to each other, and
    the messages that are refused are characterised. Scalars are integers of 32 and 64 bits; members of type \<open>bool\<close> and \<open>double\<close>,
    which the conversions copy in the same way, have no constructor.
  \<^item> \<open>Proto2conf\<close>: the recursive generator. The recursion limit of the interpreter is an argument.
    A table without cycles needs no more depth than it has messages, and then the output is
    balanced; a cycle raises at every depth.
  \<^item> \<open>Wizard2svr\<close>: the prompts, directories and files of the wizard.
  \<^item> \<open>Lint_State\<close>: \<open>_error_suppressions\<close>, \<open>_CppLintState\<close>, \<open>_ShouldPrintError\<close> and \<open>Error\<close>. The
    locale \<open>error_sink\<close> is the contract every check relies on (a report raises nothing and keeps the
    counts consistent), and \<open>cpplint_sink\<close> is its instance with the real handler.
  \<^item> \<open>Lint_FileInfo\<close>: \<open>FileInfo\<close> and the comparison of file names. The walk to the root of a
    checkout has a bound; the theorems say when it ends and when it never does.
  \<^item> \<open>Lint_Include\<close>: \<open>_IncludeState\<close>, \<open>_ClassifyInclude\<close>, \<open>CheckIncludeLine\<close>, with the order of
    sections as a state machine.
  \<^item> \<open>Lint_Cleanse\<close>: multi-line comments, raw strings, literals and \<open>CleansedLines\<close>. The fuel of the
    loops is computed from the length of the line, and it is proved to be enough.
  \<^item> \<open>Lint_Expr\<close>: \<open>CloseExpression\<close>, \<open>ReverseCloseExpression\<close> and their helpers. Between a parenthesis, bracket or brace and
    the position \<open>CloseExpression\<close> finds for it, the brackets of the text are properly nested.
  \<^item> \<open>Lint_Function\<close>: \<open>_FunctionState\<close> and \<open>CheckForFunctionLengths\<close>.
  \<^item> \<open>Lint_File\<close>: copyright, header guard, bad characters, end of file, multi-line comments and
    strings, and the other checks between \<open>CheckForCopyright\<close> and \<open>CheckForMultilineCommentsAndStrings\<close>.
  \<^item> \<open>Py_Re_Syntax\<close>, \<open>Py_Re_Facts\<close>: the parser of pattern strings, so that the checks below quote the patterns of
    the source as they are, and facts about matches (bounds, groups at the start or the end of a
    pattern, groups that spell one of several words).
  \<^item> \<open>Lint_Check\<close>: a check as an action on the state of the linter, sequences of actions, and \<open>keeps\<close>: an action
    that raises nothing and keeps an invariant. The locale \<open>lint_sink\<close> is the contract of the error handler for
    these checks.
  \<^item> \<open>Lint_Nesting\<close>: \<open>_BlockInfo\<close> to \<open>NestingState\<close>. Blocks are compared by identity in the source, so each carries a
    number. \<open>Update\<close> refines a counter of open braces; in every state that is reached, the checkpoints of the preprocessor share no
    block with the stack or with each other; of the branches of a conditional, a chain of \<open>#elif\<close> with nested
    conditionals included, only the first leaves a trace behind \<open>#endif\<close>.
  \<^item> \<open>Lint_Spacing\<close>, \<open>Lint_Braces\<close>, \<open>Lint_Style\<close>, \<open>Lint_Cast\<close>, \<open>Lint_Language\<close>, \<open>Lint_IWYU\<close>: the checks that \<open>ProcessLine\<close>
    and \<open>ProcessFileData\<close> call, one definition per function of the source, each proved to keep the invariant of the
    handler, except for the two places where the source reads past the end of a list. Both are characterised without
    the loops that read there. What \<open>GetLineWidth\<close> asks of the module \<open>unicodedata\<close> is an argument, and its absence stands for lines that are
    byte strings.
  \<^item> \<open>Lint_Process\<close>: \<open>ProcessLine\<close> and \<open>ProcessFileData\<close>, the composition of all checks.
  \<^item> \<open>Lint_Options\<close>: the command line (\<open>getopt\<close>, \<open>ParseArguments\<close>, \<open>PrintUsage\<close>, \<open>PrintCategories\<close>) over the record
    \<open>program\<close>, which holds the globals that options and configuration files set. Written options are read back.
  \<^item> \<open>Lint_Driver\<close>: \<open>ProcessConfigOverrides\<close>, \<open>ProcessFile\<close> and \<open>main\<close>. The surroundings (file system, contents of files, order
    of sets and dicts, \<open>unicodedata\<close>, \<open>re.compile\<close> for patterns of users) are the record \<open>os_env\<close>, an argument. What the configuration files
    leave behind on every branch, that the filters (not the line length or the root) are restored after each file, and what a run prints and returns.

  \<^bold>\<open>Not modelled.\<close>
  Of the linter, the encoding of its streams (\<open>os_env\<close> and \<open>program\<close> hold decoded text) and a
  call of \<open>RepositoryName\<close> that never returns in the middle of a run (theorems about runs assume that it returns, and
  \<open>Lint_FileInfo\<close> shows when it does not). The C++ library itself (sockets, timers, logging, shared memory)
  and the entry points that only prompt for a file name are left out.
\<close>

end
